theory Spec2Isabelle
  imports Complex_Main
begin

section \<open>A NES-style chiptune music engine\<close>

text \<open>
  The engine emulates a four-channel sound chip on top of the Web Audio API: two pulse
  channels, one triangle channel and one noise channel. This theory embeds the class
  \<open>MusicEngine\<close> and its song table.

  Conventions of the embedding:
  \<^item> a JavaScript number is an IEEE double. The sequencer's clock (\<open>nextStepTime\<close>, the
    step duration, the lookahead test) and the pulse-wave coefficients are computed with
    the rounding of every operation, overflow and \<open>NaN\<close> (type \<open>number\<close>). The
    volumes, frequencies and times handed to the audio parameters are reals, a decimal
    literal standing for itself: there the millisecond offsets of the envelopes are
    added without rounding. Step counters and array indices are \<open>nat\<close>;
  \<^item> a field of type \<open>T | null\<close> is a \<open>T option\<close>;
  \<^item> a method that mutates \<open>this\<close> takes the engine and returns the new engine; a method
    that can throw returns \<open>Inr\<close> of the new engine, or \<open>Inl\<close> of the error together with
    the engine as the exception leaves it;
  \<^item> a Web Audio node is a record of what the engine sets on it; an \<open>AudioParam\<close> is its
    value together with its list of scheduled automation events;
  \<^item> what the engine hands to its environment is kept in four extra fields of the engine
    record: the console output, the one-shot percussion voices given to the audio graph,
    the number of pending \<open>setTimeout\<close> callbacks and the number of interval timers
    created so far.
\<close>

subsection \<open>JavaScript numbers\<close>

text \<open>
  A JavaScript number is an IEEE 754 double: a finite value, an infinity or \<open>NaN\<close>. The
  finite values are kept as reals, and every arithmetic operation rounds its exact result
  to the nearest double, ties to the even significand (\<open>fl64\<close>); a \<open>Float32Array\<close>
  stores the nearest single (\<open>fl32\<close>). \<open>roundTo p emin\<close> rounds to \<open>p\<close> significant
  bits, the spacing never falling below \<open>2 powi emin\<close> (the subnormal range). The two
  zeros are not distinguished: a zero counts as \<open>+0\<close>.
\<close>

datatype number = Fin real | PInf | NInf | NaN

definition roundEven :: "real \<Rightarrow> int" where
  "roundEven y =
     (let f = \<lfloor>y\<rfloor>; r = y - of_int f
      in if r < 1/2 then f else if 1/2 < r then f + 1 else if even f then f else f + 1)"

definition binade :: "real \<Rightarrow> int" where
  "binade x = \<lfloor>log 2 \<bar>x\<bar>\<rfloor>"

definition roundTo :: "int \<Rightarrow> int \<Rightarrow> real \<Rightarrow> real" where
  "roundTo p emin x =
     (if x = 0 then 0
      else (let q = 2 powi (max (binade x - p + 1) emin)
            in of_int (roundEven (x / q)) * q))"

definition fl64 :: "real \<Rightarrow> real" where
  "fl64 = roundTo 53 (-1074)"

definition fl32 :: "real \<Rightarrow> real" where
  "fl32 = roundTo 24 (-149)"

text \<open>A result that rounds to \<open>2 ^ 1024\<close> or beyond overflows to an infinity.\<close>

definition round64 :: "real \<Rightarrow> number" where
  "round64 x =
     (let y = fl64 x
      in if 2 ^ 1024 \<le> y then PInf else if y \<le> - (2 ^ 1024) then NInf else Fin y)"

text \<open>
  \<open>num x\<close> is the number that a real stands for when it enters the arithmetic: a
  decimal literal, or a value that the platform supplies, denotes the nearest double.
\<close>

definition num :: "real \<Rightarrow> number" where
  "num x = round64 x"

text \<open>\<open>fround\<close> is the conversion to single precision of a store into a \<open>Float32Array\<close>.\<close>

fun fround :: "number \<Rightarrow> number" where
  "fround (Fin x) =
     (let y = fl32 x
      in if 2 ^ 128 \<le> y then PInf else if y \<le> - (2 ^ 128) then NInf else Fin y)"
| "fround PInf = PInf"
| "fround NInf = NInf"
| "fround NaN = NaN"

fun isFinite :: "number \<Rightarrow> bool" where
  "isFinite (Fin x) = True"
| "isFinite PInf = False"
| "isFinite NInf = False"
| "isFinite NaN = False"

fun negative :: "number \<Rightarrow> bool" where
  "negative (Fin x) = (x < 0)"
| "negative PInf = False"
| "negative NInf = True"
| "negative NaN = False"

fun jsNeg :: "number \<Rightarrow> number" where
  "jsNeg (Fin x) = Fin (- x)"
| "jsNeg PInf = NInf"
| "jsNeg NInf = PInf"
| "jsNeg NaN = NaN"

fun jsAdd :: "number \<Rightarrow> number \<Rightarrow> number" where
  "jsAdd (Fin a) (Fin b) = round64 (a + b)"
| "jsAdd NaN y = NaN"
| "jsAdd x NaN = NaN"
| "jsAdd PInf NInf = NaN"
| "jsAdd NInf PInf = NaN"
| "jsAdd PInf y = PInf"
| "jsAdd x PInf = PInf"
| "jsAdd NInf y = NInf"
| "jsAdd x NInf = NInf"

definition jsSub :: "number \<Rightarrow> number \<Rightarrow> number" where
  "jsSub x y = jsAdd x (jsNeg y)"

fun jsMul :: "number \<Rightarrow> number \<Rightarrow> number" where
  "jsMul (Fin a) (Fin b) = round64 (a * b)"
| "jsMul NaN y = NaN"
| "jsMul x NaN = NaN"
| "jsMul x y =
     (if x = Fin 0 \<or> y = Fin 0 then NaN
      else if negative x = negative y then PInf else NInf)"

fun jsDiv :: "number \<Rightarrow> number \<Rightarrow> number" where
  "jsDiv (Fin a) (Fin b) =
     (if b = 0 then (if a = 0 then NaN else if 0 < a then PInf else NInf)
      else round64 (a / b))"
| "jsDiv NaN y = NaN"
| "jsDiv x NaN = NaN"
| "jsDiv (Fin a) y = Fin 0"
| "jsDiv x (Fin b) = (if negative x = (b < 0) then PInf else NInf)"
| "jsDiv x y = NaN"

fun jsLess :: "number \<Rightarrow> number \<Rightarrow> bool" where
  "jsLess (Fin a) (Fin b) = (a < b)"
| "jsLess NaN y = False"
| "jsLess x NaN = False"
| "jsLess x NInf = False"
| "jsLess PInf y = False"
| "jsLess x y = True"

text \<open>
  \<open>Math.PI\<close> is the double nearest to \<open>\<pi>\<close>. \<open>Math.sin\<close> and \<open>Math.cos\<close> return \<open>NaN\<close> for
  \<open>NaN\<close> and for an infinity; for a finite argument the language leaves their accuracy
  to the implementation, and the model takes the double nearest to the exact value.
\<close>

definition Math_PI :: real where
  "Math_PI = 884279719003555 / 2 ^ 48"

fun Math_sin :: "number \<Rightarrow> number" where
  "Math_sin (Fin x) = Fin (fl64 (sin x))"
| "Math_sin x = NaN"

fun Math_cos :: "number \<Rightarrow> number" where
  "Math_cos (Fin x) = Fin (fl64 (cos x))"
| "Math_cos x = NaN"

subsection \<open>Step constants\<close>

definition R :: real where "R = 0"    \<comment> \<open>rest (silence)\<close>
definition S :: real where "S = -1"   \<comment> \<open>sustain (continue previous note)\<close>

text \<open>Drum hit types of the noise channel.\<close>

definition K :: real where "K = 1"    \<comment> \<open>kick drum\<close>
definition SN :: real where "SN = 2"  \<comment> \<open>snare drum\<close>
definition HH :: real where "HH = 3"  \<comment> \<open>closed hi-hat\<close>
definition OH :: real where "OH = 4"  \<comment> \<open>open hi-hat\<close>

subsection \<open>Song data\<close>

record SongData =
  name :: string
  tempo :: real
  pulse1 :: "real list"
  pulse2 :: "real list"
  triangle :: "real list"
  noise :: "real list"
  pulse1Vol :: real
  pulse2Vol :: real
  triVol :: real
  noiseVol :: real
  pulse1Duty :: real
  pulse2Duty :: real

subsection \<open>Note frequencies (Hz, equal temperament, A4 = 440)\<close>

text \<open>The source writes these constants with a leading underscore (\<open>_C2\<close>, ...).\<close>

definition C2 :: real where "C2 = 65.41"
definition Cs2 :: real where "Cs2 = 69.30"
definition D2 :: real where "D2 = 73.42"
definition Eb2 :: real where "Eb2 = 77.78"
definition E2 :: real where "E2 = 82.41"
definition F2 :: real where "F2 = 87.31"
definition Fs2 :: real where "Fs2 = 92.50"
definition G2 :: real where "G2 = 98.00"
definition Gs2 :: real where "Gs2 = 103.83"
definition A2 :: real where "A2 = 110.00"
definition Bb2 :: real where "Bb2 = 116.54"
definition B2 :: real where "B2 = 123.47"
definition C3 :: real where "C3 = 130.81"
definition Cs3 :: real where "Cs3 = 138.59"
definition D3 :: real where "D3 = 146.83"
definition Eb3 :: real where "Eb3 = 155.56"
definition E3 :: real where "E3 = 164.81"
definition F3 :: real where "F3 = 174.61"
definition Fs3 :: real where "Fs3 = 185.00"
definition G3 :: real where "G3 = 196.00"
definition Gs3 :: real where "Gs3 = 207.65"
definition A3 :: real where "A3 = 220.00"
definition Bb3 :: real where "Bb3 = 233.08"
definition B3 :: real where "B3 = 246.94"
definition C4 :: real where "C4 = 261.63"
definition Cs4 :: real where "Cs4 = 277.18"
definition D4 :: real where "D4 = 293.66"
definition Eb4 :: real where "Eb4 = 311.13"
definition E4 :: real where "E4 = 329.63"
definition F4 :: real where "F4 = 349.23"
definition Fs4 :: real where "Fs4 = 369.99"
definition G4 :: real where "G4 = 392.00"
definition Gs4 :: real where "Gs4 = 415.30"
definition A4 :: real where "A4 = 440.00"
definition Bb4 :: real where "Bb4 = 466.16"
definition B4 :: real where "B4 = 493.88"
definition C5 :: real where "C5 = 523.25"
definition Cs5 :: real where "Cs5 = 554.37"
definition D5 :: real where "D5 = 587.33"
definition Eb5 :: real where "Eb5 = 622.25"
definition E5 :: real where "E5 = 659.25"
definition F5 :: real where "F5 = 698.46"
definition Fs5 :: real where "Fs5 = 739.99"
definition G5 :: real where "G5 = 783.99"
definition Gs5 :: real where "Gs5 = 830.61"
definition A5 :: real where "A5 = 880.00"
definition Bb5 :: real where "Bb5 = 932.33"
definition B5 :: real where "B5 = 987.77"

subsection \<open>Song definitions\<close>

text \<open>Each array position is one eighth note; songs loop.\<close>

definition game :: SongData where
  "game = \<lparr>
    name = ''Vault Hunter's Pursuit'',
    tempo = 150,
    pulse1 = [
      D5, E5, F5, G5, A5, S, S, G5,
      F5, E5, D5, Cs5, D5, S, S, R,
      Bb4, S, D5, F5, S, S, D5, Bb4,
      A4, S, Cs5, E5, S, S, D5, Cs5,
      D5, E5, F5, A5, Bb5, S, A5, G5,
      F5, E5, C5, E5, G5, S, A5, G5,
      Bb5, A5, G5, F5, D5, Bb4, D5, F5,
      E5, Cs5, A4, Cs5, E5, Cs5, D5, S],
    pulse2 = [
      D4, A4, D4, A4, F4, A4, D4, A4,
      D4, A4, F4, A4, D4, A4, D4, A4,
      Bb3, F4, Bb3, F4, D4, F4, Bb3, F4,
      A3, E4, A3, E4, Cs4, E4, A3, E4,
      D4, A4, D4, A4, F4, A4, D4, A4,
      C4, G4, C4, G4, E4, G4, C4, G4,
      Bb3, F4, D4, F4, Bb3, F4, D4, F4,
      A3, E4, Cs4, E4, A3, Cs4, D4, S],
    triangle = [
      D2, D3, A2, D3, D2, D3, A2, D3,
      D2, F2, A2, D3, A2, F2, D2, D3,
      Bb2, Bb3, F2, Bb3, Bb2, Bb3, F2, Bb2,
      A2, A3, E2, A3, A2, A3, E2, A3,
      D2, D3, A2, D3, D2, D3, F2, D3,
      C3, C2, G2, C3, C2, E2, G2, C3,
      Bb2, Bb3, F2, Bb3, Bb2, D3, F2, Bb2,
      A2, A3, E2, A3, A2, E2, D2, S],
    noise = [
      K, HH, SN, HH, K, K, SN, HH,
      K, HH, SN, HH, K, K, SN, HH,
      K, HH, SN, HH, K, HH, SN, HH,
      K, HH, SN, HH, K, K, SN, OH,
      K, HH, SN, HH, K, K, SN, HH,
      K, HH, SN, HH, K, HH, SN, HH,
      K, HH, SN, HH, K, K, SN, HH,
      K, K, SN, HH, K, K, SN, OH],
    pulse1Vol = 0.105,
    pulse2Vol = 0.066,
    triVol = 0.09,
    noiseVol = 0.054,
    pulse1Duty = 0.25,
    pulse2Duty = 0.125 \<rparr>"

definition menu :: SongData where
  "menu = \<lparr>
    name = ''The Arena Awaits'',
    tempo = 110,
    pulse1 = [
      A4, S, S, C5, S, E5, S, S,
      E5, S, D5, S, C5, S, B4, S,
      A4, S, S, F4, S, A4, S, C5,
      B4, S, S, Gs4, S, E4, S, S,
      A4, S, S, E5, S, S, A5, S,
      S, F5, D5, S, A4, S, S, D5,
      B4, S, D5, S, G5, S, S, D5,
      E5, S, S, Gs4, B4, S, E5, S],
    pulse2 = [
      R, R, E4, S, S, S, R, R,
      R, R, A4, S, S, S, R, R,
      R, R, C4, S, S, S, R, R,
      R, R, E4, S, S, S, R, R,
      R, R, C5, S, S, S, R, R,
      R, R, A4, S, S, S, R, R,
      R, R, D5, S, S, S, R, R,
      R, R, B4, S, S, S, R, R],
    triangle = [
      A2, S, E3, S, A2, S, E3, S,
      A2, S, C3, S, E3, S, A2, S,
      F2, S, C3, S, F2, S, A2, S,
      E2, S, B2, S, E3, S, Gs2, S,
      A2, S, E3, S, A3, S, E3, S,
      D3, S, A2, S, D3, S, F2, S,
      G2, S, D3, S, B2, S, G3, S,
      E2, S, B2, S, Gs2, S, E3, S],
    noise = [
      R, R, HH, R, R, R, HH, R,
      R, R, HH, R, R, R, HH, R,
      R, R, HH, R, R, R, HH, R,
      R, R, HH, R, R, R, HH, R,
      R, R, HH, R, R, R, HH, R,
      R, R, HH, R, R, R, HH, R,
      R, R, HH, R, R, R, HH, R,
      R, R, HH, R, R, R, HH, R],
    pulse1Vol = 0.075,
    pulse2Vol = 0.045,
    triVol = 0.075,
    noiseVol = 0.024,
    pulse1Duty = 0.25,
    pulse2Duty = 0.5 \<rparr>"

definition score :: SongData where
  "score = \<lparr>
    name = ''Victor's March'',
    tempo = 140,
    pulse1 = [
      C5, E5, G5, S, E5, G5, A5, S,
      B4, S, G4, S, D5, G5, B4, S,
      A4, G4, E4, S, F4, S, A4, S,
      G4, S, E4, S, C5, S, S, S],
    pulse2 = [
      E4, G4, C5, S, G4, C5, E5, S,
      D4, S, B3, S, B4, D5, G4, S,
      E4, C4, A3, S, A3, S, C4, S,
      B3, S, G3, S, E4, S, S, S],
    triangle = [
      C3, G3, C3, E3, C3, G3, E3, C3,
      G2, D3, G3, D3, G2, B2, D3, G3,
      A2, E3, A3, E3, F2, C3, F3, C3,
      G2, D3, B2, G2, C3, S, S, S],
    noise = [
      K, HH, SN, HH, K, HH, SN, HH,
      K, HH, SN, HH, K, HH, SN, HH,
      K, HH, SN, HH, K, HH, SN, HH,
      K, HH, SN, HH, K, R, R, R],
    pulse1Vol = 0.09,
    pulse2Vol = 0.066,
    triVol = 0.075,
    noiseVol = 0.036,
    pulse1Duty = 0.25,
    pulse2Duty = 0.25 \<rparr>"

definition fail :: SongData where
  "fail = \<lparr>
    name = ''Fallen Vaulter'',
    tempo = 80,
    pulse1 = [
      D5, S, S, S, F5, S, S, S,
      E5, S, S, S, Cs5, S, S, S,
      D5, S, S, S, Bb4, S, S, S,
      A4, S, S, S, D4, S, S, S],
    pulse2 = [
      A4, S, S, S, D4, S, S, S,
      A3, S, S, S, A3, S, S, S,
      F4, S, S, S, D4, S, S, S,
      E4, S, S, S, A3, S, S, S],
    triangle = [
      D2, S, S, S, D3, S, S, S,
      A2, S, S, S, A2, S, S, S,
      Bb2, S, S, S, F2, S, S, S,
      A2, S, S, S, D2, S, S, S],
    noise = [
      R, R, R, R, R, R, R, R,
      R, R, R, R, R, R, R, R,
      R, R, R, R, R, R, R, R,
      R, R, R, R, R, R, R, R],
    pulse1Vol = 0.066,
    pulse2Vol = 0.045,
    triVol = 0.06,
    noiseVol = 0.015,
    pulse1Duty = 0.5,
    pulse2Duty = 0.5 \<rparr>"
text \<open>
  The song table is an object literal with four own properties. It is read by
  \<open>SONGS[trackName]\<close> with an arbitrary string, and a property read on a JavaScript object
  also finds what the object inherits from \<open>Object.prototype\<close>: for such a name the read
  yields a function (or, for \<open>__proto__\<close>, the prototype object), which is truthy and has
  none of the fields of a song.
\<close>

definition SONGS :: "string \<rightharpoonup> SongData" where
  "SONGS = [''game'' \<mapsto> game, ''menu'' \<mapsto> menu, ''score'' \<mapsto> score, ''fail'' \<mapsto> fail]"

definition Object_prototype :: "string list" where
  "Object_prototype =
     [''constructor'', ''hasOwnProperty'', ''isPrototypeOf'', ''propertyIsEnumerable'',
      ''toLocaleString'', ''toString'', ''valueOf'', ''__proto__'',
      ''__defineGetter__'', ''__defineSetter__'', ''__lookupGetter__'', ''__lookupSetter__'']"

text \<open>
  What the table read yields: a song, or a value inherited from the prototype;
  \<open>None\<close> is \<open>undefined\<close>.
\<close>

datatype song_value = Song SongData | Inherited

definition SONGS_get :: "string \<Rightarrow> song_value option" where
  "SONGS_get trackName =
     (case SONGS trackName of
        Some song \<Rightarrow> Some (Song song)
      | None \<Rightarrow> if trackName \<in> set Object_prototype then Some Inherited else None)"

subsection \<open>The Web Audio objects the engine uses\<close>

text \<open>
  An automation event carries its target value and its time. The event list of a
  parameter is kept in time order, a new event going behind the events that are not
  later than it. \<open>cancelScheduledValues t\<close> removes every event whose time is \<open>t\<close> or
  later. \<open>pvalue\<close> is the value the attribute \<open>value\<close> was last set to; reading the
  attribute gives the value of the automation curve at the current time (\<open>paramValue\<close>,
  computed here without the rounding and the block-wise update of the audio thread).
\<close>

datatype automation =
    SetValue real real
  | LinearRamp real real
  | ExponentialRamp real real

fun eventTime :: "automation \<Rightarrow> real" where
  "eventTime (SetValue v t) = t"
| "eventTime (LinearRamp v t) = t"
| "eventTime (ExponentialRamp v t) = t"

record AudioParam =
  pvalue :: real
  events :: "automation list"

definition newParam :: "real \<Rightarrow> AudioParam" where
  "newParam v = \<lparr>pvalue = v, events = []\<rparr>"

definition setValue :: "real \<Rightarrow> AudioParam \<Rightarrow> AudioParam" where
  "setValue v p = p\<lparr>pvalue := v\<rparr>"

definition insertEvent :: "automation \<Rightarrow> automation list \<Rightarrow> automation list" where
  "insertEvent e es =
     takeWhile (\<lambda>x. eventTime x \<le> eventTime e) es @
     e # dropWhile (\<lambda>x. eventTime x \<le> eventTime e) es"

definition cancelScheduledValues :: "real \<Rightarrow> AudioParam \<Rightarrow> AudioParam" where
  "cancelScheduledValues t p = p\<lparr>events := filter (\<lambda>e. eventTime e < t) (events p)\<rparr>"

definition setValueAtTime :: "real \<Rightarrow> real \<Rightarrow> AudioParam \<Rightarrow> AudioParam" where
  "setValueAtTime v t p = p\<lparr>events := insertEvent (SetValue v t) (events p)\<rparr>"

definition linearRampToValueAtTime :: "real \<Rightarrow> real \<Rightarrow> AudioParam \<Rightarrow> AudioParam" where
  "linearRampToValueAtTime v t p = p\<lparr>events := insertEvent (LinearRamp v t) (events p)\<rparr>"

definition exponentialRampToValueAtTime :: "real \<Rightarrow> real \<Rightarrow> AudioParam \<Rightarrow> AudioParam" where
  "exponentialRampToValueAtTime v t p =
     p\<lparr>events := insertEvent (ExponentialRamp v t) (events p)\<rparr>"

text \<open>
  The curve from value \<open>v0\<close>, held since time \<open>t0\<close>, through the events in their order: a
  set-value event jumps at its time, a ramp runs from the previous event to its own time.
\<close>

fun curveValue :: "real \<Rightarrow> real \<Rightarrow> automation list \<Rightarrow> real \<Rightarrow> real" where
  "curveValue v0 t0 [] t = v0"
| "curveValue v0 t0 (SetValue v te # es) t =
     (if t < te then v0 else curveValue v te es t)"
| "curveValue v0 t0 (LinearRamp v te # es) t =
     (if t < te then
        (if t \<le> t0 then v0 else v0 + (v - v0) * ((t - t0) / (te - t0)))
      else curveValue v te es t)"
| "curveValue v0 t0 (ExponentialRamp v te # es) t =
     (if t < te then
        (if t \<le> t0 \<or> v0 = 0 \<or> v0 * v < 0 then v0
         else v0 * (v / v0) powr ((t - t0) / (te - t0)))
      else curveValue v te es t)"

definition paramValue :: "AudioParam \<Rightarrow> real \<Rightarrow> real" where
  "paramValue p t = curveValue (pvalue p) 0 (events p) t"

text \<open>
  A periodic wave is its pair of coefficient arrays \<open>(real, imag)\<close>.
  \<open>createPeriodicWave\<close> takes sequences of finite floats and throws a \<open>TypeError\<close> on any
  other element.
\<close>

type_synonym PeriodicWave = "number list \<times> number list"

datatype js_error = TypeError | RangeError

definition createPeriodicWave :: "number list \<Rightarrow> number list \<Rightarrow> js_error + PeriodicWave" where
  "createPeriodicWave re im =
     (if list_all isFinite re \<and> list_all isFinite im then Inr (re, im) else Inl TypeError)"

datatype waveform = Sine | Triangle | Custom PeriodicWave

record OscillatorNode =
  frequency :: AudioParam
  oscType :: waveform
  started :: bool

record GainNode =
  gain :: AudioParam

text \<open>\<open>createOscillator\<close> gives a sine oscillator at 440 Hz, \<open>createGain\<close> a gain of 1.\<close>

definition createOscillator :: OscillatorNode where
  "createOscillator = \<lparr>frequency = newParam 440, oscType = Sine, started = False\<rparr>"

definition createGain :: GainNode where
  "createGain = \<lparr>gain = newParam 1\<rparr>"

datatype ctx_state = Suspended | Running

record AudioContext =
  currentTime :: real
  state :: ctx_state
  sampleRate :: real

text \<open>
  The noise buffer holds \<open>Math.random() * 2 - 1\<close> in every sample; the model keeps its
  shape only.
\<close>

record AudioBuffer =
  numberOfChannels :: nat
  bufferLength :: nat
  bufferRate :: real

datatype filter_type = Lowpass | Bandpass | Highpass

text \<open>
  A percussion hit is a buffer source, a filter and a gain, created for the hit and
  connected to the master gain. It plays from a random offset of the noise buffer, which
  the model leaves out.
\<close>

record DrumHit =
  filterType :: filter_type
  filterFrequency :: real
  filterQ :: real
  hitGain :: AudioParam
  startTime :: real
  stopTime :: real

subsection \<open>The engine\<close>

record MusicEngine =
  audioCtx :: "AudioContext option"
  masterGain :: "GainNode option"
  pulse1Osc :: "OscillatorNode option"
  pulse1Gain :: "GainNode option"
  pulse2Osc :: "OscillatorNode option"
  pulse2Gain :: "GainNode option"
  triOsc :: "OscillatorNode option"
  triGain :: "GainNode option"
  noiseBuffer :: "AudioBuffer option"
  currentSong :: "song_value option"
  currentTrackName :: string
  isPlaying :: bool
  currentStep :: nat
  nextStepTime :: number
  schedulerTimer :: "nat option"
  volume :: real
  muted :: bool
  console :: "string list"
  noiseHits :: "DrumHit list"
  pendingTimeouts :: nat
  timersCreated :: nat

definition LOOKAHEAD :: real where "LOOKAHEAD = 0.12"           \<comment> \<open>seconds to look ahead\<close>
definition SCHEDULE_INTERVAL :: nat where "SCHEDULE_INTERVAL = 25"  \<comment> \<open>ms between scheduler calls\<close>

text \<open>The engine as its constructor leaves it.\<close>

definition newMusicEngine :: MusicEngine where
  "newMusicEngine = \<lparr>
     audioCtx = None, masterGain = None,
     pulse1Osc = None, pulse1Gain = None, pulse2Osc = None, pulse2Gain = None,
     triOsc = None, triGain = None,
     noiseBuffer = None,
     currentSong = None, currentTrackName = [], isPlaying = False,
     currentStep = 0, nextStepTime = Fin 0, schedulerTimer = None,
     volume = 0.105, muted = False,
     console = [], noiseHits = [], pendingTimeouts = 0, timersCreated = 0 \<rparr>"

subsubsection \<open>Cleanup\<close>

definition destroyOscillators :: "MusicEngine \<Rightarrow> MusicEngine" where
  "destroyOscillators s =
     s\<lparr>pulse1Osc := None, pulse2Osc := None, triOsc := None,
       pulse1Gain := None, pulse2Gain := None, triGain := None\<rparr>"

definition stopInternal :: "MusicEngine \<Rightarrow> MusicEngine" where
  "stopInternal s =
     destroyOscillators
       (s\<lparr>isPlaying := False, currentSong := None, currentTrackName := [],
          currentStep := 0, schedulerTimer := None\<rparr>)"

subsubsection \<open>Noise buffer\<close>

definition createNoiseBuffer :: "MusicEngine \<Rightarrow> MusicEngine" where
  "createNoiseBuffer s =
     (case audioCtx s of
        None \<Rightarrow> s
      | Some ctx \<Rightarrow>
          s\<lparr>noiseBuffer := Some \<lparr>numberOfChannels = 1,
                                  bufferLength = nat \<lfloor>sampleRate ctx * 2\<rfloor>,
                                  bufferRate = sampleRate ctx\<rparr>\<rparr>)"

subsubsection \<open>Pulse wave (duty cycles)\<close>

definition N :: nat where "N = 64"   \<comment> \<open>number of harmonics\<close>

text \<open>
  The loop \<open>for (let n = 1; n < N; n++)\<close> of \<open>createPulseWave\<close>, on the two arrays.
  A typed array has a fixed length: a write outside it is dropped, as in \<open>list_update\<close>.
  The duty cycle is a number: it is \<open>NaN\<close> in the arithmetic when the property read
  gave \<open>undefined\<close>. The loop counter is an integer below 64 and enters as it is.
\<close>

function pulseLoop ::
  "number \<Rightarrow> nat \<Rightarrow> number list \<times> number list \<Rightarrow> number list \<times> number list" where
  "pulseLoop duty n (re, im) =
     (if n < N then
        (let angle = jsMul (jsMul (jsMul (num 2) (Fin Math_PI)) (Fin (real n))) duty
         in pulseLoop duty (n + 1)
              (re[n := fround (jsDiv (Math_sin angle) (jsMul (Fin (real n)) (Fin Math_PI)))],
               im[n := fround (jsDiv (jsSub (num 1) (Math_cos angle))
                                  (jsMul (Fin (real n)) (Fin Math_PI)))]))
      else (re, im))"
  by pat_completeness auto
termination
  by (relation "measure (\<lambda>(duty, n, w). N - n)") auto

declare pulseLoop.simps [simp del]

text \<open>The two arrays when the loop has run, and the wave made of them.\<close>

definition pulseArrays :: "number \<Rightarrow> number list \<times> number list" where
  "pulseArrays duty =
     pulseLoop duty 1 ((replicate N (Fin 0))[0 := Fin 0], (replicate N (Fin 0))[0 := Fin 0])"

definition createPulseWave :: "number \<Rightarrow> js_error + PeriodicWave" where
  "createPulseWave duty = createPeriodicWave (fst (pulseArrays duty)) (snd (pulseArrays duty))"

text \<open>A read of a typed array outside its length yields \<open>undefined\<close>.\<close>

definition arrayGet :: "'a list \<Rightarrow> nat \<Rightarrow> 'a option" where
  "arrayGet xs i = (if i < length xs then Some (xs ! i) else None)"

subsubsection \<open>Oscillator management\<close>

text \<open>
  The reads \<open>song.tempo\<close>, \<open>song.pulse1Duty\<close> and \<open>song.pulse2Duty\<close> as they enter
  arithmetic: \<open>undefined\<close>, from an object that is not a song, becomes \<open>NaN\<close>.
\<close>

fun songTempo :: "song_value \<Rightarrow> number" where
  "songTempo (Song song) = num (tempo song)"
| "songTempo Inherited = NaN"

fun songPulse1Duty :: "song_value \<Rightarrow> number" where
  "songPulse1Duty (Song song) = num (pulse1Duty song)"
| "songPulse1Duty Inherited = NaN"

fun songPulse2Duty :: "song_value \<Rightarrow> number" where
  "songPulse2Duty (Song song) = num (pulse2Duty song)"
| "songPulse2Duty Inherited = NaN"

text \<open>
  \<open>createOscillators\<close> assigns each oscillator and gain before it configures them. When
  \<open>createPulseWave\<close> throws, the nodes assigned so far stay as \<open>createOscillator\<close> and
  \<open>createGain\<close> made them, and the exception leaves with the engine in that state.
\<close>

definition createOscillators :: "song_value \<Rightarrow> MusicEngine \<Rightarrow> (js_error \<times> MusicEngine) + MusicEngine" where
  "createOscillators song s =
     (if audioCtx s = None \<or> masterGain s = None then Inr s
      else
        (let s1 = s\<lparr>pulse1Osc := Some createOscillator, pulse1Gain := Some createGain\<rparr>
         in case createPulseWave (songPulse1Duty song) of
              Inl e \<Rightarrow> Inl (e, s1)
            | Inr wave1 \<Rightarrow>
                (let s2 = s1\<lparr>pulse1Osc := Some (createOscillator\<lparr>
                                    oscType := Custom wave1,
                                    frequency := setValue 440 (frequency createOscillator),
                                    started := True\<rparr>),
                              pulse1Gain := Some (createGain\<lparr>gain := setValue 0 (gain createGain)\<rparr>),
                              pulse2Osc := Some createOscillator,
                              pulse2Gain := Some createGain\<rparr>
                 in case createPulseWave (songPulse2Duty song) of
                      Inl e \<Rightarrow> Inl (e, s2)
                    | Inr wave2 \<Rightarrow>
                        Inr (s2\<lparr>pulse2Osc := Some (createOscillator\<lparr>
                                      oscType := Custom wave2,
                                      frequency := setValue 440 (frequency createOscillator),
                                      started := True\<rparr>),
                                pulse2Gain := Some (createGain\<lparr>gain := setValue 0 (gain createGain)\<rparr>),
                                triOsc := Some (createOscillator\<lparr>
                                      oscType := Triangle,
                                      frequency := setValue 110 (frequency createOscillator),
                                      started := True\<rparr>),
                                triGain := Some (createGain\<lparr>gain := setValue 0 (gain createGain)\<rparr>)\<rparr>))))"

subsubsection \<open>Public interface\<close>

text \<open>
  \<open>init existingCtx newCtx\<close>: \<open>newCtx\<close> is what \<open>new AudioContext()\<close> yields on this
  platform, \<open>None\<close> when it throws; the exception is caught and logged.
\<close>

definition init :: "AudioContext option \<Rightarrow> AudioContext option \<Rightarrow> MusicEngine \<Rightarrow> MusicEngine" where
  "init existingCtx newCtx s =
     (if audioCtx s \<noteq> None then s
      else
        (case (case existingCtx of Some c \<Rightarrow> Some c | None \<Rightarrow> newCtx) of
           None \<Rightarrow> s\<lparr>console := console s @ [''MusicEngine: Audio initialization failed'']\<rparr>
         | Some ctx \<Rightarrow>
             createNoiseBuffer
               (s\<lparr>audioCtx := Some ctx,
                  masterGain := Some (createGain\<lparr>gain :=
                    setValue (if muted s then 0 else volume s) (gain createGain)\<rparr>)\<rparr>)))"

text \<open>
  \<open>play\<close>. The guard \<open>if (!song)\<close> catches a name for which the table read is
  \<open>undefined\<close>; a value inherited from \<open>Object.prototype\<close> is truthy and passes it.
  \<open>resume()\<close> is recorded as the context running. An exception of \<open>createOscillators\<close>
  leaves \<open>play\<close> before the fade-in is scheduled and the timer started.
\<close>

definition play :: "string \<Rightarrow> MusicEngine \<Rightarrow> (js_error \<times> MusicEngine) + MusicEngine" where
  "play trackName s =
     (case (audioCtx s, masterGain s) of
        (Some ctx0, Some mg0) \<Rightarrow>
          (case SONGS_get trackName of
             None \<Rightarrow>
               Inr (s\<lparr>console := console s @
                      [''MusicEngine: Unknown track '' @ [CHR 0x22] @ trackName @ [CHR 0x22]]\<rparr>)
           | Some song \<Rightarrow>
               if isPlaying s \<and> currentTrackName s = trackName then Inr s
               else
                 (let s1 = stopInternal s;
                      ctx = (if state ctx0 = Suspended then ctx0\<lparr>state := Running\<rparr> else ctx0);
                      s2 = s1\<lparr>audioCtx := Some ctx,
                              currentSong := Some song,
                              currentTrackName := trackName,
                              currentStep := 0,
                              isPlaying := True\<rparr>
                  in case createOscillators song s2 of
                       Inl (e, s3) \<Rightarrow> Inl (e, s3)
                     | Inr s3 \<Rightarrow>
                         (let now = currentTime ctx;
                              g = linearRampToValueAtTime (if muted s3 then 0 else volume s3)
                                    (now + 0.4)
                                    (setValueAtTime 0 now (cancelScheduledValues now (gain mg0)))
                          in Inr (s3\<lparr>masterGain := Some (mg0\<lparr>gain := g\<rparr>),
                                     nextStepTime := jsAdd (num now) (num 0.05),
                                     schedulerTimer := Some (Suc (timersCreated s3)),
                                     timersCreated := Suc (timersCreated s3)\<rparr>))))
      | _ \<Rightarrow> Inr s)"

text \<open>
  \<open>stop\<close> fades out and defers the teardown: \<open>setTimeout\<close> adds a pending callback,
  which the environment runs later as \<open>timeoutFires\<close>.
\<close>

definition stop :: "MusicEngine \<Rightarrow> MusicEngine" where
  "stop s =
     (if \<not> isPlaying s then s
      else
        (let s1 = (case (masterGain s, audioCtx s) of
                     (Some mg, Some ctx) \<Rightarrow>
                       (let now = currentTime ctx
                        in s\<lparr>masterGain := Some (mg\<lparr>gain :=
                               linearRampToValueAtTime 0 (now + 0.3)
                                 (setValueAtTime (paramValue (gain mg) now) now
                                    (cancelScheduledValues now (gain mg)))\<rparr>)\<rparr>)
                   | _ \<Rightarrow> s)
         in s1\<lparr>pendingTimeouts := Suc (pendingTimeouts s1)\<rparr>))"

definition timeoutFires :: "MusicEngine \<Rightarrow> MusicEngine" where
  "timeoutFires s =
     (if pendingTimeouts s = 0 then s
      else stopInternal (s\<lparr>pendingTimeouts := pendingTimeouts s - 1\<rparr>))"

definition stopImmediate :: "MusicEngine \<Rightarrow> MusicEngine" where
  "stopImmediate s = stopInternal s"

definition setVolume :: "real \<Rightarrow> MusicEngine \<Rightarrow> MusicEngine" where
  "setVolume vol s =
     (let s1 = s\<lparr>volume := max 0 (min 1 vol)\<rparr>
      in case (masterGain s1, audioCtx s1) of
           (Some mg, Some ctx) \<Rightarrow>
             (let now = currentTime ctx
              in s1\<lparr>masterGain := Some (mg\<lparr>gain :=
                      setValueAtTime (if muted s1 then 0 else volume s1) now
                        (cancelScheduledValues now (gain mg))\<rparr>)\<rparr>)
         | _ \<Rightarrow> s1)"

text \<open>\<open>toggleMute\<close> returns the new flag together with the engine.\<close>

definition toggleMute :: "MusicEngine \<Rightarrow> bool \<times> MusicEngine" where
  "toggleMute s =
     (let s1 = s\<lparr>muted := \<not> muted s\<rparr>;
          s2 = (case (masterGain s1, audioCtx s1) of
                  (Some mg, Some ctx) \<Rightarrow>
                    (let now = currentTime ctx
                     in s1\<lparr>masterGain := Some (mg\<lparr>gain :=
                             setValueAtTime (if muted s1 then 0 else volume s1) now
                               (cancelScheduledValues now (gain mg))\<rparr>)\<rparr>)
                | _ \<Rightarrow> s1)
      in (muted s2, s2))"

definition isMuted :: "MusicEngine \<Rightarrow> bool" where
  "isMuted s = muted s"

definition isCurrentlyPlaying :: "MusicEngine \<Rightarrow> bool" where
  "isCurrentlyPlaying s = isPlaying s"

definition getCurrentTrack :: "MusicEngine \<Rightarrow> string" where
  "getCurrentTrack s = currentTrackName s"

subsubsection \<open>Note scheduling\<close>

definition scheduleTonalNote ::
  "OscillatorNode \<Rightarrow> GainNode \<Rightarrow> real \<Rightarrow> real \<Rightarrow> real \<Rightarrow> OscillatorNode \<times> GainNode" where
  "scheduleTonalNote osc g noteValue channelVol time =
     (if noteValue > 0 then
        (osc\<lparr>frequency := setValueAtTime noteValue time
                              (cancelScheduledValues time (frequency osc))\<rparr>,
         g\<lparr>gain := linearRampToValueAtTime channelVol (time + 0.005)
                      (setValueAtTime 0 time (cancelScheduledValues time (gain g)))\<rparr>)
      else if noteValue = 0 then
        (osc, g\<lparr>gain := setValueAtTime 0 (time + 0.003) (cancelScheduledValues time (gain g))\<rparr>)
      else (osc, g))"

subsubsection \<open>Drum scheduling\<close>

definition drumHit :: "filter_type \<Rightarrow> real \<Rightarrow> real \<Rightarrow> real \<Rightarrow> real \<Rightarrow> real \<Rightarrow> DrumHit" where
  "drumHit ft freq q peak decay time =
     \<lparr>filterType = ft, filterFrequency = freq, filterQ = q,
      hitGain = exponentialRampToValueAtTime 0.001 (time + decay)
                  (setValueAtTime peak time (gain createGain)),
      startTime = time, stopTime = time + 0.3\<rparr>"

text \<open>
  The drum type is read from the noise array and is \<open>None\<close> when that read is
  \<open>undefined\<close>: then \<open>drumType <= 0\<close> is false and the \<open>switch\<close> takes its default.
  A biquad filter has \<open>Q = 1\<close> unless set. An audio parameter rejects a negative time
  with a \<open>RangeError\<close>, which the \<open>try\<close> block swallows before the hit is connected.
\<close>

definition scheduleNoise :: "real option \<Rightarrow> real \<Rightarrow> real \<Rightarrow> MusicEngine \<Rightarrow> MusicEngine" where
  "scheduleNoise drumType channelVol time s =
     (if audioCtx s = None \<or> noiseBuffer s = None \<or> masterGain s = None
         \<or> (case drumType of Some d \<Rightarrow> d \<le> 0 | None \<Rightarrow> False)
      then s
      else if time < 0 then s
      else
        (case drumType of
           None \<Rightarrow> s
         | Some d \<Rightarrow>
             if d = K then
               s\<lparr>noiseHits := noiseHits s @ [drumHit Lowpass 180 1 (channelVol * 2.5) 0.15 time]\<rparr>
             else if d = SN then
               s\<lparr>noiseHits := noiseHits s @ [drumHit Bandpass 1200 0.8 (channelVol * 1.8) 0.1 time]\<rparr>
             else if d = HH then
               s\<lparr>noiseHits := noiseHits s @ [drumHit Highpass 8000 1 (channelVol * 0.9) 0.04 time]\<rparr>
             else if d = OH then
               s\<lparr>noiseHits := noiseHits s @ [drumHit Highpass 6000 1 (channelVol * 1.0) 0.18 time]\<rparr>
             else s))"

subsubsection \<open>Scheduler\<close>

text \<open>
  \<open>step % length\<close> is \<open>NaN\<close> for an empty array, and an array read at \<open>NaN\<close> or beyond the
  length is \<open>undefined\<close>; \<open>stepValue\<close> is that read. With \<open>undefined\<close> as note value
  neither branch of \<open>scheduleTonalNote\<close> applies, so \<open>tonalChannel\<close>, the guarded call
  \<open>if (osc && gain) scheduleTonalNote(...)\<close>, leaves the channel as it is.
\<close>

definition stepValue :: "real list \<Rightarrow> nat \<Rightarrow> nat \<Rightarrow> real option" where
  "stepValue xs step len = (if len = 0 then None else arrayGet xs (step mod len))"

definition tonalChannel ::
  "OscillatorNode option \<Rightarrow> GainNode option \<Rightarrow> real option \<Rightarrow> real \<Rightarrow> real
     \<Rightarrow> OscillatorNode option \<times> GainNode option" where
  "tonalChannel osc g noteValue channelVol time =
     (case (osc, g, noteValue) of
        (Some o1, Some g1, Some v) \<Rightarrow>
          (let (o2, g2) = scheduleTonalNote o1 g1 v channelVol time in (Some o2, Some g2))
      | _ \<Rightarrow> (osc, g))"

text \<open>
  The guarded call reaches an audio parameter when the channel has its nodes and the
  note is a rest or a new note; the first thing it does there is
  \<open>cancelScheduledValues(time)\<close>.
\<close>

definition tonalCalls :: "OscillatorNode option \<Rightarrow> GainNode option \<Rightarrow> real option \<Rightarrow> bool" where
  "tonalCalls osc g noteValue \<longleftrightarrow>
     osc \<noteq> None \<and> g \<noteq> None \<and> (case noteValue of Some v \<Rightarrow> 0 \<le> v | None \<Rightarrow> False)"

text \<open>
  \<open>scheduleStep\<close> asserts \<open>this.currentSong!\<close> and reads \<open>song.pulse1.length\<close>: with
  \<open>null\<close>, or with an object that has no \<open>pulse1\<close>, that read throws. The time is
  \<open>nextStepTime\<close>. An audio parameter takes a finite time that is not negative; it
  throws a \<open>TypeError\<close> on an infinity or \<open>NaN\<close> and a \<open>RangeError\<close> on a negative time,
  in the first tonal call, before anything is scheduled, while in \<open>scheduleNoise\<close> the
  exception is swallowed.
\<close>

definition scheduleStep :: "nat \<Rightarrow> number \<Rightarrow> MusicEngine \<Rightarrow> (js_error \<times> MusicEngine) + MusicEngine" where
  "scheduleStep step time s =
     (case currentSong s of
        None \<Rightarrow> Inl (TypeError, s)
      | Some Inherited \<Rightarrow> Inl (TypeError, s)
      | Some (Song song) \<Rightarrow>
          (let len = length (pulse1 song);
               n1 = stepValue (pulse1 song) step len;
               n2 = stepValue (pulse2 song) step len;
               n3 = stepValue (triangle song) step len;
               calls = (tonalCalls (pulse1Osc s) (pulse1Gain s) n1
                        \<or> tonalCalls (pulse2Osc s) (pulse2Gain s) n2
                        \<or> tonalCalls (triOsc s) (triGain s) n3)
           in case time of
                Fin t \<Rightarrow>
                  if 0 \<le> t then
                    (let (o1, g1) = tonalChannel (pulse1Osc s) (pulse1Gain s) n1 (pulse1Vol song) t;
                         (o2, g2) = tonalChannel (pulse2Osc s) (pulse2Gain s) n2 (pulse2Vol song) t;
                         (o3, g3) = tonalChannel (triOsc s) (triGain s) n3 (triVol song) t;
                         s1 = s\<lparr>pulse1Osc := o1, pulse1Gain := g1,
                                pulse2Osc := o2, pulse2Gain := g2,
                                triOsc := o3, triGain := g3\<rparr>
                     in Inr (scheduleNoise (stepValue (noise song) step len) (noiseVol song) t s1))
                  else if calls then Inl (RangeError, s)
                  else Inr s
              | _ \<Rightarrow> if calls then Inl (TypeError, s) else Inr s))"

text \<open>
  \<open>advanceStep\<close>. With an object that is not a song the step duration is \<open>NaN\<close>, and
  the read of \<open>pulse1.length\<close> throws after the time and the step index are updated.
\<close>

definition advanceStep :: "MusicEngine \<Rightarrow> (js_error \<times> MusicEngine) + MusicEngine" where
  "advanceStep s =
     (case currentSong s of
        None \<Rightarrow> Inr s
      | Some song \<Rightarrow>
          (let secondsPerBeat = jsDiv (num 60) (songTempo song);
               secondsPerStep = jsDiv secondsPerBeat (num 2);
               s1 = s\<lparr>nextStepTime := jsAdd (nextStepTime s) secondsPerStep,
                      currentStep := currentStep s + 1\<rparr>
           in case song of
                Inherited \<Rightarrow> Inl (TypeError, s1)
              | Song sd \<Rightarrow>
                  Inr (if currentStep s1 \<ge> length (pulse1 sd) then s1\<lparr>currentStep := 0\<rparr>
                       else s1)))"

text \<open>
  The \<open>while\<close> loop of \<open>schedule\<close>. It need not end (a step duration that is lost in
  the rounding of the sum, or is not positive, never moves \<open>nextStepTime\<close> past the
  window), so its result is an option, \<open>None\<close> for a loop that runs forever. The counter
  \<open>n\<close> is the number of steps scheduled so far; it is returned beside the engine.
\<close>

partial_function (option) scheduleLoop ::
  "real \<Rightarrow> nat \<Rightarrow> MusicEngine \<Rightarrow> ((js_error \<times> MusicEngine) + nat \<times> MusicEngine) option" where
  "scheduleLoop now n s =
     (if jsLess (nextStepTime s) (jsAdd (num now) (num LOOKAHEAD)) then
        (case scheduleStep (currentStep s) (nextStepTime s) s of
           Inl e \<Rightarrow> Some (Inl e)
         | Inr s1 \<Rightarrow>
             (case advanceStep s1 of
                Inl e \<Rightarrow> Some (Inl e)
              | Inr s2 \<Rightarrow> scheduleLoop now (Suc n) s2))
      else Some (Inr (n, s)))"

definition schedule :: "MusicEngine \<Rightarrow> ((js_error \<times> MusicEngine) + nat \<times> MusicEngine) option" where
  "schedule s =
     (case audioCtx s of
        Some ctx \<Rightarrow>
          if \<not> isPlaying s \<or> currentSong s = None then Some (Inr (0, s))
          else scheduleLoop (currentTime ctx) 0 s
      | None \<Rightarrow> Some (Inr (0, s)))"

subsection \<open>Environment steps and example engines\<close>

text \<open>
  \<open>advanceSteps k\<close> is \<open>k\<close> calls of \<open>advanceStep\<close> in a row, ending at the first that
  throws; \<open>timeAfter\<close> and \<open>stepAfter\<close> are the next-step time and the step index after
  them, \<open>None\<close> when a call threw.
\<close>

fun advanceSteps :: "nat \<Rightarrow> MusicEngine \<Rightarrow> (js_error \<times> MusicEngine) + MusicEngine" where
  "advanceSteps 0 s = Inr s"
| "advanceSteps (Suc k) s =
     (case advanceStep s of Inl e \<Rightarrow> Inl e | Inr s1 \<Rightarrow> advanceSteps k s1)"

definition timeAfter :: "nat \<Rightarrow> MusicEngine \<Rightarrow> number option" where
  "timeAfter k s = (case advanceSteps k s of Inr s1 \<Rightarrow> Some (nextStepTime s1) | Inl e \<Rightarrow> None)"

definition stepAfter :: "nat \<Rightarrow> MusicEngine \<Rightarrow> nat option" where
  "stepAfter k s = (case advanceSteps k s of Inr s1 \<Rightarrow> Some (currentStep s1) | Inl e \<Rightarrow> None)"

text \<open>
  The interval timer calls \<open>schedule\<close>: \<open>timerFires\<close> is the engine after the call, as it
  returns or as its exception leaves it (and as it was, for a call that does not end);
  \<open>stepsScheduled\<close> is the number of steps a call that returns has scheduled.
\<close>

definition stepsScheduled :: "MusicEngine \<Rightarrow> nat option" where
  "stepsScheduled s = (case schedule s of Some (Inr (n, s1)) \<Rightarrow> Some n | _ \<Rightarrow> None)"

definition timerFires :: "MusicEngine \<Rightarrow> MusicEngine" where
  "timerFires s =
     (case schedule s of
        Some (Inr (n, s1)) \<Rightarrow> s1
      | Some (Inl (e, s1)) \<Rightarrow> s1
      | None \<Rightarrow> s)"

text \<open>The audio clock runs on its own; \<open>clockAt t\<close> is the engine when the clock reads \<open>t\<close>.\<close>

definition clockAt :: "real \<Rightarrow> MusicEngine \<Rightarrow> MusicEngine" where
  "clockAt t s = s\<lparr>audioCtx := map_option (\<lambda>ctx. ctx\<lparr>currentTime := t\<rparr>) (audioCtx s)\<rparr>"

definition exampleCtx :: AudioContext where
  "exampleCtx = \<lparr>currentTime = 0, state = Running, sampleRate = 44100\<rparr>"

text \<open>An initialised engine, and the engine after a failed initialisation.\<close>

definition readyEngine :: MusicEngine where
  "readyEngine = init (Some exampleCtx) None newMusicEngine"

definition inertEngine :: MusicEngine where
  "inertEngine = init None None newMusicEngine"

text \<open>The engine after a call of \<open>play\<close>, as the call returns or as its exception leaves it.\<close>

definition afterPlay :: "string \<Rightarrow> MusicEngine \<Rightarrow> MusicEngine" where
  "afterPlay trackName s = (case play trackName s of Inr s1 \<Rightarrow> s1 | Inl (e, s1) \<Rightarrow> s1)"

text \<open>The engine after \<open>play('game')\<close> at clock 0.\<close>

definition playingGame :: MusicEngine where
  "playingGame = afterPlay ''game'' readyEngine"

text \<open>
  The first timer call, 25 ms after \<open>play\<close>; then the engine at the next call when that
  comes 25 ms later, and when it comes ten seconds later.
\<close>

definition firstTick :: MusicEngine where
  "firstTick = timerFires (clockAt 0.025 playingGame)"

definition onTimeTick :: MusicEngine where
  "onTimeTick = clockAt 0.05 firstTick"

definition lateTick :: MusicEngine where
  "lateTick = clockAt 10.025 firstTick"

text \<open>
  An audio clock so far on that a step duration is lost in the rounding of a sum:
  \<open>play('game')\<close> at \<open>2 ^ 51\<close> seconds, and the timer call half a second later.
\<close>

definition farPlaying :: MusicEngine where
  "farPlaying = afterPlay ''game'' (clockAt (2 ^ 51) readyEngine)"

definition farTick :: MusicEngine where
  "farTick = clockAt (2 ^ 51 + 1/2) farPlaying"

subsection \<open>Predicates on engine states\<close>

text \<open>The engine is playing track \<open>X\<close> of the song table.\<close>

definition playingTrack :: "string \<Rightarrow> MusicEngine \<Rightarrow> bool" where
  "playingTrack X s \<longleftrightarrow>
     isPlaying s \<and> currentTrackName s = X \<and> currentSong s \<noteq> None \<and>
     currentSong s = map_option Song (SONGS X)"

text \<open>
  The silent mode after a failed initialisation: no audio context, no node, no buffer,
  no timer, no session.
\<close>

definition inert :: "MusicEngine \<Rightarrow> bool" where
  "inert s \<longleftrightarrow>
     audioCtx s = None \<and> masterGain s = None \<and> noiseBuffer s = None \<and>
     pulse1Osc s = None \<and> pulse1Gain s = None \<and> pulse2Osc s = None \<and>
     pulse2Gain s = None \<and> triOsc s = None \<and> triGain s = None \<and>
     currentSong s = None \<and> currentTrackName s = [] \<and> \<not> isPlaying s \<and>
     currentStep s = 0 \<and> schedulerTimer s = None \<and>
     noiseHits s = [] \<and> pendingTimeouts s = 0 \<and> timersCreated s = 0"

text \<open>
  The step index is inside the loop of the loaded song, and 0 without a song. An object
  that is not a song has no \<open>pulse1\<close> array, so with it loaded no step index is inside.
\<close>

definition stepInv :: "MusicEngine \<Rightarrow> bool" where
  "stepInv s \<longleftrightarrow>
     (case currentSong s of
        None \<Rightarrow> currentStep s = 0
      | Some (Song song) \<Rightarrow> currentStep s < length (pulse1 song)
      | Some Inherited \<Rightarrow> False)"

section \<open>Properties\<close>

subsection \<open>Rounding\<close>

lemma roundEven_err: "\<bar>of_int (roundEven y) - y\<bar> \<le> 1/2"
proof -
  have "of_int \<lfloor>y\<rfloor> \<le> y" "y < of_int \<lfloor>y\<rfloor> + 1" by linarith+
  then show ?thesis
    by (auto simp: roundEven_def Let_def abs_le_iff)
qed

lemma roundEven_int: "roundEven (of_int k) = k"
  by (simp add: roundEven_def)

lemma two_powr_int: "(2::real) powr of_int k = 2 powi k"
  by (simp add: powr_real_of_int')

lemma two_powi_pos: "0 < (2::real) powi k"
  by simp

lemma binade_eq:
  assumes "2 powi e \<le> \<bar>x\<bar>" "\<bar>x\<bar> < 2 powi (e + 1)"
  shows "binade x = e"
proof -
  have pos: "0 < \<bar>x\<bar>" using assms(1) two_powi_pos [of e] by linarith
  have "(2::real) powr of_int e = 2 powi e" "(2::real) powr (of_int e + 1) = 2 powi (e + 1)"
    using two_powr_int [of e] two_powr_int [of "e + 1"] by simp_all
  with assms show ?thesis
    unfolding binade_def using floor_log_eq_powr_iff [of "\<bar>x\<bar>" 2 e] pos by simp
qed

lemma binade_bounds:
  assumes "x \<noteq> 0"
  shows "2 powi (binade x) \<le> \<bar>x\<bar>" "\<bar>x\<bar> < 2 powi (binade x + 1)"
proof -
  have pos: "0 < \<bar>x\<bar>" using assms by simp
  have "(2::real) powr of_int (binade x) = 2 powi (binade x)"
       "(2::real) powr (of_int (binade x) + 1) = 2 powi (binade x + 1)"
    using two_powr_int [of "binade x"] two_powr_int [of "binade x + 1"] by simp_all
  with floor_log_eq_powr_iff [of "\<bar>x\<bar>" 2 "binade x"] pos
  show "2 powi (binade x) \<le> \<bar>x\<bar>" "\<bar>x\<bar> < 2 powi (binade x + 1)"
    by (simp_all add: binade_def)
qed

lemma binade_less:
  assumes "x \<noteq> 0" "\<bar>x\<bar> < 2 powi E"
  shows "binade x < E"
proof (rule ccontr)
  assume "\<not> binade x < E"
  then have "E \<le> binade x" by simp
  then have "(2::real) powi E \<le> 2 powi (binade x)" by (intro power_int_increasing) simp_all
  with binade_bounds(1) [OF assms(1)] assms(2) show False by linarith
qed

lemma roundTo_eval:
  assumes "2 powi e \<le> \<bar>x\<bar>" "\<bar>x\<bar> < 2 powi (e + 1)" "emin \<le> e - p + 1"
  shows "roundTo p emin x = of_int (roundEven (x / 2 powi (e - p + 1))) * 2 powi (e - p + 1)"
proof -
  have "0 < \<bar>x\<bar>" using assms(1) two_powi_pos [of e] by linarith
  then have "x \<noteq> 0" by auto
  moreover have "max (binade x - p + 1) emin = e - p + 1"
    using binade_eq [OF assms(1,2)] assms(3) by simp
  ultimately show ?thesis by (simp add: roundTo_def Let_def)
qed

lemma roundTo_err:
  assumes "\<bar>x\<bar> \<le> 2 powi E" "emin \<le> E - p" "1 \<le> p"
  shows "\<bar>roundTo p emin x - x\<bar> \<le> 2 powi (E - p - 1)"
proof (cases "x = 0")
  case True
  then show ?thesis by (simp add: roundTo_def)
next
  case False
  define q :: real where "q = 2 powi (max (binade x - p + 1) emin)"
  have qpos: "0 < q" by (simp add: q_def)
  have r: "roundTo p emin x = of_int (roundEven (x / q)) * q"
    using False by (simp add: roundTo_def Let_def q_def)
  show ?thesis
  proof (cases "\<bar>x\<bar> = 2 powi E")
    case True
    then have "binade x = E"
      by (intro binade_eq) (simp_all add: power_int_add)
    then have q: "q = 2 powi (E - p + 1)" using assms(2) by (simp add: q_def)
    have "2 powi E / q = (2::real) powi (p - 1)"
      unfolding q by (simp add: power_int_diff [symmetric])
    also have "\<dots> = of_int (2 ^ nat (p - 1))"
      using assms(3) by (simp add: power_int_def)
    finally have d: "2 powi E / q = of_int (2 ^ nat (p - 1))" .
    have "x = 2 powi E \<or> x = - (2 powi E)" using True by (auto simp: abs_if split: if_splits)
    then have "of_int (roundEven (x / q)) * q = x"
    proof
      assume x: "x = 2 powi E"
      have "roundEven (x / q) = 2 ^ nat (p - 1)" unfolding x d by (rule roundEven_int)
      then have "of_int (roundEven (x / q)) * q = (2 powi E / q) * q" using d by simp
      then show ?thesis using qpos x by simp
    next
      assume x: "x = - (2 powi E)"
      have "x / q = of_int (- (2 ^ nat (p - 1)))" unfolding x using d by simp
      then have "roundEven (x / q) = - (2 ^ nat (p - 1))" by (simp only: roundEven_int)
      then have "of_int (roundEven (x / q)) * q = - (2 powi E / q) * q" using d by simp
      then show ?thesis using qpos x by simp
    qed
    then show ?thesis using r by simp
  next
    case ne: False
    with assms(1) have "\<bar>x\<bar> < 2 powi E" by simp
    from binade_less [OF False this] have "max (binade x - p + 1) emin \<le> E - p"
      using assms(2) by simp
    then have qle: "q \<le> 2 powi (E - p)"
      unfolding q_def by (intro power_int_increasing) simp_all
    have "of_int (roundEven (x / q)) * q - x = (of_int (roundEven (x / q)) - x / q) * q"
      using qpos by (simp add: field_simps)
    then have "\<bar>of_int (roundEven (x / q)) * q - x\<bar> = \<bar>of_int (roundEven (x / q)) - x / q\<bar> * q"
      using qpos by (simp only: abs_mult abs_of_pos)
    also have "\<dots> \<le> (1/2) * q"
      using roundEven_err [of "x / q"] qpos by (intro mult_right_mono) simp_all
    also have "\<dots> \<le> (1/2) * 2 powi (E - p)" using qle by simp
    also have "\<dots> = 2 powi (E - p - 1)" by (simp add: power_int_diff)
    finally show ?thesis using r by simp
  qed
qed

text \<open>
  Doubles: below \<open>2 ^ n\<close> in magnitude the rounding error is at most \<open>2 ^ n / 2 ^ 54\<close>, and
  nothing overflows up to \<open>2 ^ 1023\<close>.
\<close>

lemma fl64_err:
  assumes "\<bar>x\<bar> \<le> 2 ^ n"
  shows "\<bar>fl64 x - x\<bar> \<le> 2 ^ n / 2 ^ 54"
proof -
  have "\<bar>x\<bar> \<le> 2 powi (int n)" using assms by simp
  from roundTo_err [OF this, of "-1074" 53]
  have "\<bar>fl64 x - x\<bar> \<le> 2 powi (int n - 54)" by (simp add: fl64_def)
  also have "\<dots> = 2 ^ n / 2 ^ 54" by (simp add: power_int_diff)
  finally show ?thesis .
qed

lemma round64_Fin:
  assumes "\<bar>x\<bar> \<le> 2 ^ n" "n \<le> 1023"
  shows "round64 x = Fin (fl64 x)"
proof -
  have "(2::real) ^ n \<le> 2 ^ 1023" using assms(2) by (intro power_increasing) simp_all
  moreover have "(2::real) ^ n / 2 ^ 54 \<le> 2 ^ n / 2" by (simp add: field_simps)
  ultimately have "\<bar>fl64 x\<bar> \<le> 2 ^ 1023 + 2 ^ 1023 / 2"
    using fl64_err [OF assms(1)] assms(1) by linarith
  also have "\<dots> < (2::real) ^ 1024" by simp
  finally have lt: "\<bar>fl64 x\<bar> < 2 ^ 1024" .
  have a: "\<not> 2 ^ 1024 \<le> fl64 x" using lt by linarith
  have b: "\<not> fl64 x \<le> - (2 ^ 1024)" using lt by linarith
  show ?thesis unfolding round64_def Let_def by (simp only: a b if_False)
qed

text \<open>Evaluation of a rounding, the binade given.\<close>

lemma fl64_eval_small:
  assumes "1 / 2 ^ m \<le> \<bar>x\<bar>" "\<bar>x\<bar> < 2 / 2 ^ m" "m \<le> 1022"
  shows "fl64 x = of_int (roundEven (x * 2 ^ (m + 52))) / 2 ^ (m + 52)"
proof -
  have a: "2 powi (- int m) \<le> \<bar>x\<bar>" using assms(1) by (simp add: power_int_minus field_simps)
  have "(2::real) powi (- int m + 1) = 2 powi (- int m) * 2 powi 1"
    by (rule power_int_add) simp
  then have "(2::real) powi (- int m + 1) = 2 / 2 ^ m"
    by (simp add: power_int_minus field_simps)
  then have b: "\<bar>x\<bar> < 2 powi (- int m + 1)" using assms(2) by simp
  have q: "(2::real) powi (- int m - 53 + 1) = 1 / 2 ^ (m + 52)"
  proof -
    have "- int m - 53 + 1 = - int (m + 52)" by simp
    then show ?thesis by (simp only: power_int_minus power_int_of_nat) (simp add: field_simps)
  qed
  from roundTo_eval [OF a b, of "-1074" 53] assms(3) show ?thesis
    unfolding fl64_def q by simp
qed

lemma fl64_eval_big:
  assumes "2 ^ n \<le> \<bar>x\<bar>" "\<bar>x\<bar> < 2 * 2 ^ n" "n \<le> 52"
  shows "fl64 x = of_int (roundEven (x * 2 ^ (52 - n))) / 2 ^ (52 - n)"
proof -
  have a: "2 powi (int n) \<le> \<bar>x\<bar>" using assms(1) by simp
  have b: "\<bar>x\<bar> < 2 powi (int n + 1)" using assms(2) by (simp add: power_int_add)
  have q: "(2::real) powi (int n - 53 + 1) = 1 / 2 ^ (52 - n)"
  proof -
    have "int n - 53 + 1 = - int (52 - n)" using assms(3) by simp
    then show ?thesis by (simp only: power_int_minus power_int_of_nat) (simp add: field_simps)
  qed
  from roundTo_eval [OF a b, of "-1074" 53] show ?thesis
    unfolding fl64_def q by simp
qed

lemma num_Fin:
  assumes "\<bar>x\<bar> \<le> 2 ^ n" "n \<le> 1023"
  shows "num x = Fin (fl64 x)"
  unfolding num_def by (rule round64_Fin [OF assms])

lemma num_eval:
  assumes "\<bar>x\<bar> \<le> 2 ^ n" "n \<le> 1023" "fl64 x = y"
  shows "num x = Fin y"
  using num_Fin [OF assms(1,2)] assms(3) by simp

lemma jsAdd_eval:
  assumes "\<bar>a + b\<bar> \<le> 2 ^ n" "n \<le> 1023" "fl64 (a + b) = y"
  shows "jsAdd (Fin a) (Fin b) = Fin y"
  using round64_Fin [OF assms(1,2)] assms(3) by simp

lemma jsMul_eval:
  assumes "\<bar>a * b\<bar> \<le> 2 ^ n" "n \<le> 1023" "fl64 (a * b) = y"
  shows "jsMul (Fin a) (Fin b) = Fin y"
  using round64_Fin [OF assms(1,2)] assms(3) by simp

lemma jsDiv_eval:
  assumes "b \<noteq> 0" "\<bar>a / b\<bar> \<le> 2 ^ n" "n \<le> 1023" "fl64 (a / b) = y"
  shows "jsDiv (Fin a) (Fin b) = Fin y"
  using round64_Fin [OF assms(2,3)] assms(1,4) by simp

lemma num_0: "num 0 = Fin 0"
  by (rule num_eval [of _ 0]) (simp_all add: fl64_def roundTo_def)

text \<open>The literals and step durations of the engine, as doubles.\<close>

lemma song_tempos_raw:
  "tempo game = 150" "tempo menu = 110" "tempo score = 140" "tempo fail = 80"
  by (simp_all add: game_def menu_def score_def fail_def)

lemma fl64_005: "fl64 (0.05) = 3602879701896397 / 2 ^ 56"
  using fl64_eval_small [of 5 "0.05"]
  by (simp add: roundEven_def Let_def)

lemma fl64_012: "fl64 (0.12) = 1080863910568919 / 2 ^ 53"
  using fl64_eval_small [of 4 "0.12"]
  by (simp add: roundEven_def Let_def)

lemma fl64_150: "fl64 (150) = 150"
  using fl64_eval_big [of 7 "150"]
  by (simp add: roundEven_def Let_def)

lemma fl64_110: "fl64 (110) = 110"
  using fl64_eval_big [of 6 "110"]
  by (simp add: roundEven_def Let_def)

lemma fl64_140: "fl64 (140) = 140"
  using fl64_eval_big [of 7 "140"]
  by (simp add: roundEven_def Let_def)

lemma fl64_80: "fl64 (80) = 80"
  using fl64_eval_big [of 6 "80"]
  by (simp add: roundEven_def Let_def)

lemma fl64_60: "fl64 (60) = 60"
  using fl64_eval_big [of 5 "60"]
  by (simp add: roundEven_def Let_def)

lemma fl64_2: "fl64 (2) = 2"
  using fl64_eval_big [of 1 "2"]
  by (simp add: roundEven_def Let_def)

lemma fl64_spb_game: "fl64 (60 / 150) = 3602879701896397 / 2 ^ 53"
  using fl64_eval_small [of 2 "60 / 150"]
  by (simp add: roundEven_def Let_def)

lemma fl64_sps_game: "fl64 ((3602879701896397 / 2 ^ 53) / 2) = 3602879701896397 / 2 ^ 54"
  using fl64_eval_small [of 3 "(3602879701896397 / 2 ^ 53) / 2"]
  by (simp add: roundEven_def Let_def)

lemma fl64_spb_menu: "fl64 (60 / 110) = 1228254443828317 / 2 ^ 51"
  using fl64_eval_small [of 1 "60 / 110"]
  by (simp add: roundEven_def Let_def)

lemma fl64_sps_menu: "fl64 ((1228254443828317 / 2 ^ 51) / 2) = 1228254443828317 / 2 ^ 52"
  using fl64_eval_small [of 2 "(1228254443828317 / 2 ^ 51) / 2"]
  by (simp add: roundEven_def Let_def)

lemma fl64_spb_score: "fl64 (60 / 140) = 7720456504063707 / 2 ^ 54"
  using fl64_eval_small [of 2 "60 / 140"]
  by (simp add: roundEven_def Let_def)

lemma fl64_sps_score: "fl64 ((7720456504063707 / 2 ^ 54) / 2) = 7720456504063707 / 2 ^ 55"
  using fl64_eval_small [of 3 "(7720456504063707 / 2 ^ 54) / 2"]
  by (simp add: roundEven_def Let_def)

lemma fl64_spb_fail: "fl64 (60 / 80) = 3 / 2 ^ 2"
  using fl64_eval_small [of 1 "60 / 80"]
  by (simp add: roundEven_def Let_def)

lemma fl64_sps_fail: "fl64 ((3 / 2 ^ 2) / 2) = 3 / 2 ^ 3"
  using fl64_eval_small [of 2 "(3 / 2 ^ 2) / 2"]
  by (simp add: roundEven_def Let_def)

lemma fl64_a0: "fl64 (0 + 3602879701896397 / 2 ^ 56) = 3602879701896397 / 2 ^ 56"
  using fl64_eval_small [of 5 "0 + 3602879701896397 / 2 ^ 56"]
  by (simp add: roundEven_def Let_def)

lemma fl64_game_step1: "fl64 (3602879701896397 / 2 ^ 56 + 3602879701896397 / 2 ^ 54) = 1 / 2 ^ 2"
  using fl64_eval_small [of 2 "3602879701896397 / 2 ^ 56 + 3602879701896397 / 2 ^ 54"]
  by (simp add: roundEven_def Let_def)

lemma fl64_game_step2: "fl64 (1 / 2 ^ 2 + 3602879701896397 / 2 ^ 54) = 8106479329266893 / 2 ^ 54"
  using fl64_eval_small [of 2 "1 / 2 ^ 2 + 3602879701896397 / 2 ^ 54"]
  by (simp add: roundEven_def Let_def)

lemma fl64_game_step3: "fl64 (8106479329266893 / 2 ^ 54 + 3602879701896397 / 2 ^ 54) = 5854679515581645 / 2 ^ 53"
  using fl64_eval_small [of 1 "8106479329266893 / 2 ^ 54 + 3602879701896397 / 2 ^ 54"]
  by (simp add: roundEven_def Let_def)

lemma fl64_game_3d: "fl64 (3 * (3602879701896397 / 2 ^ 54)) = 1351079888211149 / 2 ^ 51"
  using fl64_eval_small [of 1 "3 * (3602879701896397 / 2 ^ 54)"]
  by (simp add: roundEven_def Let_def)

lemma fl64_game_a0_3d: "fl64 (3602879701896397 / 2 ^ 56 + 1351079888211149 / 2 ^ 51) = 2927339757790823 / 2 ^ 52"
  using fl64_eval_small [of 1 "3602879701896397 / 2 ^ 56 + 1351079888211149 / 2 ^ 51"]
  by (simp add: roundEven_def Let_def)

lemma num_60: "num 60 = Fin 60"
  by (rule num_eval [of _ 6, OF _ _ fl64_60]) simp_all

lemma num_2: "num 2 = Fin 2"
  by (rule num_eval [of _ 1, OF _ _ fl64_2]) simp_all

lemma num_005: "num 0.05 = Fin (3602879701896397 / 2 ^ 56)"
  by (rule num_eval [of _ 0, OF _ _ fl64_005]) simp_all

lemma num_LOOKAHEAD: "num LOOKAHEAD = Fin (1080863910568919 / 2 ^ 53)"
  unfolding LOOKAHEAD_def by (rule num_eval [of _ 0, OF _ _ fl64_012]) simp_all

lemma secondsPerStep_game:
  "jsDiv (jsDiv (num 60) (songTempo (Song game))) (num 2) = Fin (3602879701896397 / 2 ^ 54)"
proof -
  have t: "songTempo (Song game) = Fin 150"
    using num_eval [of 150 8, OF _ _ fl64_150] by (simp add: song_tempos_raw)
  have b: "jsDiv (Fin 60) (Fin 150) = Fin (3602879701896397 / 2 ^ 53)"
    by (rule jsDiv_eval [of _ _ 0, OF _ _ _ fl64_spb_game]) simp_all
  have s: "jsDiv (Fin (3602879701896397 / 2 ^ 53)) (Fin 2) = Fin (3602879701896397 / 2 ^ 54)"
    by (rule jsDiv_eval [of _ _ 0, OF _ _ _ fl64_sps_game]) simp_all
  show ?thesis by (simp only: t num_60 num_2 b s)
qed

subsection \<open>The song table\<close>

lemma game_lengths:
  "length (pulse1 game) = 64" "length (pulse2 game) = 64"
  "length (triangle game) = 64" "length (noise game) = 64"
  by (simp_all add: game_def)

lemma menu_lengths:
  "length (pulse1 menu) = 64" "length (pulse2 menu) = 64"
  "length (triangle menu) = 64" "length (noise menu) = 64"
  by (simp_all add: menu_def)

lemma score_lengths:
  "length (pulse1 score) = 32" "length (pulse2 score) = 32"
  "length (triangle score) = 32" "length (noise score) = 32"
  by (simp_all add: score_def)

lemma fail_lengths:
  "length (pulse1 fail) = 32" "length (pulse2 fail) = 32"
  "length (triangle fail) = 32" "length (noise fail) = 32"
  by (simp_all add: fail_def)

lemma SONGS_cases:
  assumes "SONGS trackName = Some song"
  shows "song = game \<or> song = menu \<or> song = score \<or> song = fail"
  using assms by (auto simp: SONGS_def split: if_splits)

lemma SONGS_dom: "dom SONGS = {''game'', ''menu'', ''score'', ''fail''}"
  by (auto simp: SONGS_def split: if_splits)

lemma SONGS_game: "SONGS ''game'' = Some game"
  by (simp add: SONGS_def)

lemma SONGS_equal_lengths_aux:
  assumes "SONGS trackName = Some song"
  shows "length (pulse1 song) = length (pulse2 song) \<and>
         length (pulse2 song) = length (triangle song) \<and>
         length (triangle song) = length (noise song)"
  using SONGS_cases [OF assms]
  by (auto simp: game_lengths menu_lengths score_lengths fail_lengths)

lemma SONGS_nonempty:
  assumes "SONGS trackName = Some song"
  shows "0 < length (pulse1 song)"
  using SONGS_cases [OF assms] game_lengths(1) menu_lengths(1) score_lengths(1) fail_lengths(1)
  by (elim disjE) (simp_all del: length_greater_0_conv)

lemma SONGS_get_song: "SONGS X = Some song \<Longrightarrow> SONGS_get X = Some (Song song)"
  by (simp add: SONGS_get_def)

lemma SONGS_get_game: "SONGS_get ''game'' = Some (Song game)"
  by (simp add: SONGS_get_def SONGS_def)

lemma SONGS_get_constructor: "SONGS_get ''constructor'' = Some Inherited"
  by (simp add: SONGS_get_def SONGS_def Object_prototype_def)

subsection \<open>Step durations\<close>

text \<open>
  The step duration \<open>60 / tempo / 2\<close> of each song as the engine computes it. It is
  within \<open>2 powi -55\<close> of the exact quotient (and is the exact quotient for \<open>fail\<close>).
\<close>

lemma secondsPerStep_menu:
  "jsDiv (jsDiv (num 60) (songTempo (Song menu))) (num 2) = Fin (1228254443828317 / 2 ^ 52)"
proof -
  have t: "songTempo (Song menu) = Fin 110"
    using num_eval [of 110 8, OF _ _ fl64_110] by (simp add: song_tempos_raw)
  have b: "jsDiv (Fin 60) (Fin 110) = Fin (1228254443828317 / 2 ^ 51)"
    by (rule jsDiv_eval [of _ _ 0, OF _ _ _ fl64_spb_menu]) simp_all
  have s: "jsDiv (Fin (1228254443828317 / 2 ^ 51)) (Fin 2) = Fin (1228254443828317 / 2 ^ 52)"
    by (rule jsDiv_eval [of _ _ 0, OF _ _ _ fl64_sps_menu]) simp_all
  show ?thesis by (simp only: t num_60 num_2 b s)
qed

lemma secondsPerStep_score:
  "jsDiv (jsDiv (num 60) (songTempo (Song score))) (num 2) = Fin (7720456504063707 / 2 ^ 55)"
proof -
  have t: "songTempo (Song score) = Fin 140"
    using num_eval [of 140 8, OF _ _ fl64_140] by (simp add: song_tempos_raw)
  have b: "jsDiv (Fin 60) (Fin 140) = Fin (7720456504063707 / 2 ^ 54)"
    by (rule jsDiv_eval [of _ _ 0, OF _ _ _ fl64_spb_score]) simp_all
  have s: "jsDiv (Fin (7720456504063707 / 2 ^ 54)) (Fin 2) = Fin (7720456504063707 / 2 ^ 55)"
    by (rule jsDiv_eval [of _ _ 0, OF _ _ _ fl64_sps_score]) simp_all
  show ?thesis by (simp only: t num_60 num_2 b s)
qed

lemma secondsPerStep_fail:
  "jsDiv (jsDiv (num 60) (songTempo (Song fail))) (num 2) = Fin (3 / 2 ^ 3)"
proof -
  have t: "songTempo (Song fail) = Fin 80"
    using num_eval [of 80 8, OF _ _ fl64_80] by (simp add: song_tempos_raw)
  have b: "jsDiv (Fin 60) (Fin 80) = Fin (3 / 2 ^ 2)"
    by (rule jsDiv_eval [of _ _ 0, OF _ _ _ fl64_spb_fail]) simp_all
  have s: "jsDiv (Fin (3 / 2 ^ 2)) (Fin 2) = Fin (3 / 2 ^ 3)"
    by (rule jsDiv_eval [of _ _ 0, OF _ _ _ fl64_sps_fail]) simp_all
  show ?thesis by (simp only: t num_60 num_2 b s)
qed

lemma secondsPerStep_table:
  assumes "SONGS X = Some song"
  shows "\<exists>dd. jsDiv (jsDiv (num 60) (songTempo (Song song))) (num 2) = Fin dd \<and>
              \<bar>dd - 60 / tempo song / 2\<bar> \<le> 1 / 2 ^ 55 \<and> 1/8 \<le> dd \<and> dd \<le> 1/2"
  using SONGS_cases [OF assms]
proof (elim disjE)
  assume eq: "song = game"
  have "jsDiv (jsDiv (num 60) (songTempo (Song game))) (num 2) = Fin (3602879701896397 / 2 ^ 54) \<and>
        \<bar>3602879701896397 / 2 ^ 54 - 60 / tempo game / 2\<bar> \<le> 1 / 2 ^ 55 \<and>
        1/8 \<le> (3602879701896397 / 2 ^ 54 :: real) \<and> (3602879701896397 / 2 ^ 54 :: real) \<le> 1/2"
    by (simp only: secondsPerStep_game song_tempos_raw) simp
  then show ?thesis unfolding eq by (rule exI)
next
  assume eq: "song = menu"
  have "jsDiv (jsDiv (num 60) (songTempo (Song menu))) (num 2) = Fin (1228254443828317 / 2 ^ 52) \<and>
        \<bar>1228254443828317 / 2 ^ 52 - 60 / tempo menu / 2\<bar> \<le> 1 / 2 ^ 55 \<and>
        1/8 \<le> (1228254443828317 / 2 ^ 52 :: real) \<and> (1228254443828317 / 2 ^ 52 :: real) \<le> 1/2"
    by (simp only: secondsPerStep_menu song_tempos_raw) simp
  then show ?thesis unfolding eq by (rule exI)
next
  assume eq: "song = score"
  have "jsDiv (jsDiv (num 60) (songTempo (Song score))) (num 2) = Fin (7720456504063707 / 2 ^ 55) \<and>
        \<bar>7720456504063707 / 2 ^ 55 - 60 / tempo score / 2\<bar> \<le> 1 / 2 ^ 55 \<and>
        1/8 \<le> (7720456504063707 / 2 ^ 55 :: real) \<and> (7720456504063707 / 2 ^ 55 :: real) \<le> 1/2"
    by (simp only: secondsPerStep_score song_tempos_raw) simp
  then show ?thesis unfolding eq by (rule exI)
next
  assume eq: "song = fail"
  have "jsDiv (jsDiv (num 60) (songTempo (Song fail))) (num 2) = Fin (3 / 2 ^ 3) \<and>
        \<bar>3 / 2 ^ 3 - 60 / tempo fail / 2\<bar> \<le> 1 / 2 ^ 55 \<and>
        1/8 \<le> (3 / 2 ^ 3 :: real) \<and> (3 / 2 ^ 3 :: real) \<le> 1/2"
    by (simp only: secondsPerStep_fail song_tempos_raw) simp
  then show ?thesis unfolding eq by (rule exI)
qed

lemma tempo_table:
  assumes "SONGS X = Some song"
  shows "80 \<le> tempo song \<and> tempo song \<le> 150"
  using SONGS_cases [OF assms] by (auto simp: song_tempos_raw)

subsection \<open>Automation events\<close>

text \<open>
  After \<open>cancelScheduledValues t\<close> every remaining event is earlier than \<open>t\<close>, so an
  event at \<open>t\<close> or later goes to the end of the list.
\<close>

lemma insertEvent_last:
  assumes "\<forall>x\<in>set es. eventTime x \<le> eventTime e"
  shows "insertEvent e es = es @ [e]"
proof -
  have "takeWhile (\<lambda>x. eventTime x \<le> eventTime e) es = es"
    using assms by (simp add: takeWhile_eq_all_conv)
  moreover have "dropWhile (\<lambda>x. eventTime x \<le> eventTime e) es = []"
    using assms by (simp add: dropWhile_eq_Nil_conv)
  ultimately show ?thesis by (simp add: insertEvent_def)
qed

lemma cancel_then_set:
  assumes "t \<le> t'"
  shows "setValueAtTime v t' (cancelScheduledValues t p) =
         p\<lparr>events := filter (\<lambda>e. eventTime e < t) (events p) @ [SetValue v t']\<rparr>"
proof -
  have "\<forall>x\<in>set (filter (\<lambda>e. eventTime e < t) (events p)). eventTime x \<le> eventTime (SetValue v t')"
    using assms by auto
  from insertEvent_last [OF this] show ?thesis
    by (simp add: setValueAtTime_def cancelScheduledValues_def)
qed

lemma cancel_set_ramp:
  assumes "t \<le> t'"
  shows "linearRampToValueAtTime w t' (setValueAtTime v t (cancelScheduledValues t p)) =
         p\<lparr>events := filter (\<lambda>e. eventTime e < t) (events p) @ [SetValue v t, LinearRamp w t']\<rparr>"
proof -
  let ?es = "filter (\<lambda>e. eventTime e < t) (events p) @ [SetValue v t]"
  have "\<forall>x\<in>set ?es. eventTime x \<le> eventTime (LinearRamp w t')"
    using assms by auto
  from insertEvent_last [OF this] show ?thesis
    by (simp add: linearRampToValueAtTime_def cancel_then_set [OF order_refl])
qed

subsection \<open>Tonal notes\<close>

text \<open>
  A step reaches \<open>scheduleTonalNote\<close> when the channel has its oscillator and its gain and
  the step value is defined.
\<close>

lemma tonalChannel_scheduled:
  "tonalChannel (Some osc) (Some g) (Some noteValue) channelVol time =
     (Some (fst (scheduleTonalNote osc g noteValue channelVol time)),
      Some (snd (scheduleTonalNote osc g noteValue channelVol time)))"
  by (simp add: tonalChannel_def split: prod.splits)

text \<open>
  C5. On a tonal channel, a sustain step (the marker \<open>S = -1\<close>) changes neither the
  oscillator nor the gain: no automation is scheduled. A rest step (\<open>R = 0\<close>) drops
  what was scheduled on the gain from the step time on and sets the gain to 0 at 3 ms
  after the step time. A positive step value sets the oscillator frequency to that value
  at the step time, sets the gain to 0 at the step time and ramps it linearly to the
  channel volume, reached 5 ms later.
\<close>

theorem scheduleTonalNote_cases:
  "scheduleTonalNote osc g S channelVol time = (osc, g) \<and>
   scheduleTonalNote osc g R channelVol time =
     (osc, g\<lparr>gain := (gain g)\<lparr>events :=
        filter (\<lambda>e. eventTime e < time) (events (gain g)) @ [SetValue 0 (time + 0.003)]\<rparr>\<rparr>) \<and>
   (0 < noteValue \<longrightarrow>
      scheduleTonalNote osc g noteValue channelVol time =
        (osc\<lparr>frequency := (frequency osc)\<lparr>events :=
           filter (\<lambda>e. eventTime e < time) (events (frequency osc)) @ [SetValue noteValue time]\<rparr>\<rparr>,
         g\<lparr>gain := (gain g)\<lparr>events :=
           filter (\<lambda>e. eventTime e < time) (events (gain g)) @
             [SetValue 0 time, LinearRamp channelVol (time + 0.005)]\<rparr>\<rparr>))"
proof (intro conjI impI)
  show "scheduleTonalNote osc g S channelVol time = (osc, g)"
    by (simp add: scheduleTonalNote_def S_def)
next
  have "time \<le> time + 0.003" by simp
  from cancel_then_set [OF this]
  show "scheduleTonalNote osc g R channelVol time =
     (osc, g\<lparr>gain := (gain g)\<lparr>events :=
        filter (\<lambda>e. eventTime e < time) (events (gain g)) @ [SetValue 0 (time + 0.003)]\<rparr>\<rparr>)"
    by (simp add: scheduleTonalNote_def R_def)
next
  assume pos: "0 < noteValue"
  have le: "time \<le> time + 0.005" by simp
  show "scheduleTonalNote osc g noteValue channelVol time =
        (osc\<lparr>frequency := (frequency osc)\<lparr>events :=
           filter (\<lambda>e. eventTime e < time) (events (frequency osc)) @ [SetValue noteValue time]\<rparr>\<rparr>,
         g\<lparr>gain := (gain g)\<lparr>events :=
           filter (\<lambda>e. eventTime e < time) (events (gain g)) @
             [SetValue 0 time, LinearRamp channelVol (time + 0.005)]\<rparr>\<rparr>)"
  proof -
    have f: "setValueAtTime noteValue time (cancelScheduledValues time (frequency osc)) =
        (frequency osc)\<lparr>events :=
           filter (\<lambda>e. eventTime e < time) (events (frequency osc)) @ [SetValue noteValue time]\<rparr>"
      by (rule cancel_then_set [OF order_refl])
    have g: "linearRampToValueAtTime channelVol (time + 0.005)
                      (setValueAtTime 0 time (cancelScheduledValues time (gain g))) =
        (gain g)\<lparr>events :=
           filter (\<lambda>e. eventTime e < time) (events (gain g)) @
             [SetValue 0 time, LinearRamp channelVol (time + 0.005)]\<rparr>"
      by (rule cancel_set_ramp [OF le])
    show ?thesis using pos by (simp only: scheduleTonalNote_def f g if_True)
  qed
qed

theorem scheduleTonalNote_cases_witness:
  "0 < (440::real) \<and>
   scheduleTonalNote createOscillator createGain 440 0.105 1 =
     (createOscillator\<lparr>frequency := \<lparr>pvalue = 440, events = [SetValue 440 1]\<rparr>\<rparr>,
      createGain\<lparr>gain := \<lparr>pvalue = 1, events = [SetValue 0 1, LinearRamp 0.105 1.005]\<rparr>\<rparr>)"
  using scheduleTonalNote_cases [of createOscillator createGain "0.105" 1 440]
  by (simp add: createOscillator_def createGain_def newParam_def)

subsection \<open>Pulse wave coefficients\<close>

text \<open>A result of bounded magnitude is finite, and its rounding at most doubles the bound.\<close>

lemma round64_bounded:
  assumes "\<bar>x\<bar> \<le> 2 ^ n" "n \<le> 1022"
  shows "\<exists>y. round64 x = Fin y \<and> \<bar>y\<bar> \<le> 2 ^ Suc n \<and> \<bar>y - x\<bar> \<le> 2 ^ n / 2 ^ 54"
proof -
  have "n \<le> 1023" using assms(2) by simp
  from round64_Fin [OF assms(1) this] have r: "round64 x = Fin (fl64 x)" .
  have "(2::real) ^ n / 2 ^ 54 \<le> 2 ^ n" by (simp add: field_simps)
  then have "\<bar>fl64 x\<bar> \<le> 2 ^ n + 2 ^ n" using fl64_err [OF assms(1)] assms(1) by linarith
  then have "\<bar>fl64 x\<bar> \<le> 2 ^ Suc n" by simp
  then show ?thesis using r fl64_err [OF assms(1)] by simp
qed

lemma fround_bounded:
  assumes "\<bar>x\<bar> \<le> 2 ^ n" "n \<le> 100"
  shows "isFinite (fround (Fin x))"
proof -
  have "\<bar>x\<bar> \<le> 2 powi (int n)" using assms(1) by simp
  from roundTo_err [OF this, of "-149" 24]
  have "\<bar>fl32 x - x\<bar> \<le> 2 powi (int n - 25)" by (simp add: fl32_def)
  also have "\<dots> = 2 ^ n / 2 ^ 25" by (simp add: power_int_diff)
  also have "\<dots> \<le> 2 ^ n" by (simp add: field_simps)
  finally have "\<bar>fl32 x\<bar> \<le> 2 * 2 ^ n" using assms(1) by linarith
  moreover have "(2::real) ^ n \<le> 2 ^ 100" using assms(2) by (intro power_increasing) simp_all
  ultimately have "\<bar>fl32 x\<bar> \<le> 2 * 2 ^ 100" by linarith
  also have "\<dots> < (2::real) ^ 128" by simp
  finally have lt: "\<bar>fl32 x\<bar> < 2 ^ 128" .
  have a: "\<not> 2 ^ 128 \<le> fl32 x" using lt by linarith
  have b: "\<not> fl32 x \<le> - (2 ^ 128)" using lt by linarith
  show ?thesis unfolding fround.simps Let_def by (simp only: a b if_False isFinite.simps)
qed

lemma Math_PI_bounds: "3 \<le> Math_PI" "Math_PI \<le> 4"
  by (simp_all add: Math_PI_def)

text \<open>The divisor \<open>n * Math.PI\<close> of a harmonic is finite and at least 2.\<close>

lemma harmonic_divisor:
  assumes "1 \<le> n" "n < N"
  shows "\<exists>m. jsMul (Fin (real n)) (Fin Math_PI) = Fin m \<and> 2 \<le> m"
proof -
  have n: "1 \<le> real n" "real n \<le> 64" using assms by (simp_all add: N_def)
  have "real n * Math_PI \<le> 64 * 4"
    using n Math_PI_bounds by (intro mult_mono) simp_all
  moreover have lo: "1 * 3 \<le> real n * Math_PI"
    using n Math_PI_bounds by (intro mult_mono) simp_all
  ultimately have b: "\<bar>real n * Math_PI\<bar> \<le> 2 ^ 8" by simp
  from round64_bounded [OF b] obtain m where
    m: "round64 (real n * Math_PI) = Fin m" "\<bar>m - real n * Math_PI\<bar> \<le> 2 ^ 8 / 2 ^ 54"
    by auto
  have "(2::real) ^ 8 / 2 ^ 54 \<le> 1" by simp
  then have "2 \<le> m" using m(2) lo by linarith
  then show ?thesis using m(1) by simp
qed

text \<open>The angle \<open>2 * Math.PI * n * duty\<close> of a harmonic is finite for a duty cycle in \<open>[-2, 2]\<close>.\<close>

lemma harmonic_angle:
  assumes "n < N" "\<bar>d\<bar> \<le> 2"
  shows "\<exists>x. jsMul (jsMul (jsMul (num 2) (Fin Math_PI)) (Fin (real n))) (Fin d) = Fin x"
proof -
  have b1: "\<bar>2 * Math_PI\<bar> \<le> 2 ^ 3" using Math_PI_bounds by simp
  from round64_bounded [OF b1] obtain t1 where
    t1: "round64 (2 * Math_PI) = Fin t1" "\<bar>t1\<bar> \<le> 2 ^ 4" by auto
  have n: "\<bar>real n\<bar> \<le> 2 ^ 6" using assms(1) by (simp add: N_def)
  have "\<bar>t1 * real n\<bar> \<le> 2 ^ 4 * 2 ^ 6"
    unfolding abs_mult using t1(2) n by (intro mult_mono) simp_all
  then have b2: "\<bar>t1 * real n\<bar> \<le> 2 ^ 10" by simp
  from round64_bounded [OF b2] obtain t2 where
    t2: "round64 (t1 * real n) = Fin t2" "\<bar>t2\<bar> \<le> 2 ^ 11" by auto
  have "\<bar>t2 * d\<bar> \<le> 2 ^ 11 * 2"
    unfolding abs_mult using t2(2) assms(2) by (intro mult_mono) simp_all
  then have b3: "\<bar>t2 * d\<bar> \<le> 2 ^ 12" by simp
  from round64_bounded [OF b3] obtain t3 where t3: "round64 (t2 * d) = Fin t3" by auto
  show ?thesis using t1(1) t2(1) t3 by (simp add: num_2)
qed

lemma quotient_finite:
  assumes "\<bar>s\<bar> \<le> 4" "2 \<le> m"
  shows "isFinite (fround (jsDiv (Fin s) (Fin m)))"
proof -
  have "\<bar>s / m\<bar> = \<bar>s\<bar> / m" using assms(2) by simp
  also have "\<dots> \<le> 4 / 2" using assms by (intro frac_le) simp_all
  finally have b: "\<bar>s / m\<bar> \<le> 2 ^ 1" by simp
  from round64_bounded [OF b] obtain q where q: "round64 (s / m) = Fin q" "\<bar>q\<bar> \<le> 2 ^ 2" by auto
  have "isFinite (fround (Fin q))" by (rule fround_bounded [OF q(2)]) simp
  then show ?thesis using q(1) assms(2) by simp
qed

lemma sin_cos_rounded:
  "\<bar>fl64 (sin x)\<bar> \<le> 2" "\<bar>fl64 (cos x)\<bar> \<le> 2"
proof -
  have s: "\<bar>sin x\<bar> \<le> 2 ^ 0" and c: "\<bar>cos x\<bar> \<le> 2 ^ 0" by simp_all
  have e: "(2::real) ^ 0 / 2 ^ 54 \<le> 1" "(2::real) ^ 0 = 1" by simp_all
  show "\<bar>fl64 (sin x)\<bar> \<le> 2" using fl64_err [OF s] s e by linarith
  show "\<bar>fl64 (cos x)\<bar> \<le> 2" using fl64_err [OF c] c e by linarith
qed

lemma num_1: "num 1 = Fin 1"
proof -
  have "fl64 1 = 1" using fl64_eval_big [of 0 1] by (simp add: roundEven_def Let_def)
  then show ?thesis by (intro num_eval [of _ 0]) simp_all
qed

lemma coefficients_finite:
  assumes "1 \<le> n" "n < N" "\<bar>d\<bar> \<le> 2"
  shows "isFinite (fround (jsDiv
           (Math_sin (jsMul (jsMul (jsMul (num 2) (Fin Math_PI)) (Fin (real n))) (Fin d)))
           (jsMul (Fin (real n)) (Fin Math_PI))))"
    and "isFinite (fround (jsDiv
           (jsSub (num 1)
              (Math_cos (jsMul (jsMul (jsMul (num 2) (Fin Math_PI)) (Fin (real n))) (Fin d))))
           (jsMul (Fin (real n)) (Fin Math_PI))))"
proof -
  from harmonic_angle [OF assms(2,3)] obtain x where
    x: "jsMul (jsMul (jsMul (num 2) (Fin Math_PI)) (Fin (real n))) (Fin d) = Fin x" by auto
  from harmonic_divisor [OF assms(1,2)] obtain m where
    m: "jsMul (Fin (real n)) (Fin Math_PI) = Fin m" "2 \<le> m" by auto
  have "\<bar>fl64 (sin x)\<bar> \<le> 4" using sin_cos_rounded(1) [of x] by simp
  from quotient_finite [OF this m(2)]
  show "isFinite (fround (jsDiv
           (Math_sin (jsMul (jsMul (jsMul (num 2) (Fin Math_PI)) (Fin (real n))) (Fin d)))
           (jsMul (Fin (real n)) (Fin Math_PI))))"
    by (simp only: x m(1) Math_sin.simps)
  have b: "\<bar>1 + - fl64 (cos x)\<bar> \<le> 2 ^ 2" using sin_cos_rounded(2) [of x] by simp
  from round64_bounded [OF b] obtain c where
    c: "round64 (1 + - fl64 (cos x)) = Fin c" "\<bar>c - (1 + - fl64 (cos x))\<bar> \<le> 2 ^ 2 / 2 ^ 54"
    by auto
  have "(2::real) ^ 2 / 2 ^ 54 \<le> 1" by simp
  then have "\<bar>c\<bar> \<le> 4" using c(2) sin_cos_rounded(2) [of x] by linarith
  from quotient_finite [OF this m(2)]
  show "isFinite (fround (jsDiv
           (jsSub (num 1)
              (Math_cos (jsMul (jsMul (jsMul (num 2) (Fin Math_PI)) (Fin (real n))) (Fin d))))
           (jsMul (Fin (real n)) (Fin Math_PI))))"
    by (simp only: x m(1) Math_cos.simps jsSub_def num_1 jsNeg.simps jsAdd.simps c(1))
qed

text \<open>
  The arrays after the loop from index \<open>n\<close>: every index from \<open>n\<close> on holds its
  coefficient, rounded to single precision, the indices below are as they were.
\<close>

lemma jsMul_NaN: "jsMul x NaN = NaN"
  by (cases x) simp_all

lemma update_step:
  "k < length xs \<Longrightarrow>
   (if n + 1 \<le> k then f k else xs[n := f n] ! k) = (if n \<le> k then f k else xs ! k)"
  by (cases "k = n") (auto simp: nth_list_update)

lemma pulseLoop_spec:
  fixes duty :: number
  defines "cre \<equiv> \<lambda>k. fround (jsDiv
              (Math_sin (jsMul (jsMul (jsMul (num 2) (Fin Math_PI)) (Fin (real k))) duty))
              (jsMul (Fin (real k)) (Fin Math_PI)))"
  defines "cim \<equiv> \<lambda>k. fround (jsDiv
              (jsSub (num 1)
                 (Math_cos (jsMul (jsMul (jsMul (num 2) (Fin Math_PI)) (Fin (real k))) duty)))
              (jsMul (Fin (real k)) (Fin Math_PI)))"
  assumes "length re = N" "length im = N"
  shows "pulseLoop duty n (re, im) =
     (map (\<lambda>k. if n \<le> k then cre k else re ! k) [0..<N],
      map (\<lambda>k. if n \<le> k then cim k else im ! k) [0..<N])"
  using assms(3,4)
proof (induction "N - n" arbitrary: n re im)
  case 0
  then have "\<not> n < N" by simp
  then have "pulseLoop duty n (re, im) = (re, im)"
    by (subst pulseLoop.simps) simp
  moreover have "map (\<lambda>k. if n \<le> k then cre k else re ! k) [0..<N] = re"
    using \<open>\<not> n < N\<close> "0.prems"(1) by (intro nth_equalityI) simp_all
  moreover have "map (\<lambda>k. if n \<le> k then cim k else im ! k) [0..<N] = im"
    using \<open>\<not> n < N\<close> "0.prems"(2) by (intro nth_equalityI) simp_all
  ultimately show ?case by simp
next
  case (Suc m)
  then have lt: "n < N" and m: "m = N - (n + 1)" by simp_all
  let ?re = "re[n := cre n]"
  let ?im = "im[n := cim n]"
  have unfold: "pulseLoop duty n (re, im) = pulseLoop duty (n + 1) (?re, ?im)"
    using lt by (subst pulseLoop.simps) (simp add: Let_def cre_def cim_def)
  have ih: "pulseLoop duty (n + 1) (?re, ?im) =
       (map (\<lambda>k. if n + 1 \<le> k then cre k else ?re ! k) [0..<N],
        map (\<lambda>k. if n + 1 \<le> k then cim k else ?im ! k) [0..<N])"
    using Suc.hyps(1) [OF m] Suc.prems by simp
  have "map (\<lambda>k. if n + 1 \<le> k then cre k else ?re ! k) [0..<N] =
        map (\<lambda>k. if n \<le> k then cre k else re ! k) [0..<N]"
    using Suc.prems(1) by (intro map_cong refl update_step) simp
  moreover have "map (\<lambda>k. if n + 1 \<le> k then cim k else ?im ! k) [0..<N] =
        map (\<lambda>k. if n \<le> k then cim k else im ! k) [0..<N]"
    using Suc.prems(2) by (intro map_cong refl update_step) simp
  ultimately show ?case using unfold ih by simp
qed

lemma pulseArrays_eq:
  "pulseArrays duty =
     (map (\<lambda>k. if 1 \<le> k then fround (jsDiv
              (Math_sin (jsMul (jsMul (jsMul (num 2) (Fin Math_PI)) (Fin (real k))) duty))
              (jsMul (Fin (real k)) (Fin Math_PI))) else Fin 0) [0..<N],
      map (\<lambda>k. if 1 \<le> k then fround (jsDiv
              (jsSub (num 1)
                 (Math_cos (jsMul (jsMul (jsMul (num 2) (Fin Math_PI)) (Fin (real k))) duty)))
              (jsMul (Fin (real k)) (Fin Math_PI))) else Fin 0) [0..<N])"
proof -
  have len: "length ((replicate N (Fin 0))[0 := Fin 0]) = N" by simp
  have z: "\<And>k. k \<in> set [0..<N] \<Longrightarrow> (replicate N (Fin 0))[0 := Fin 0] ! k = Fin 0"
    by (simp add: nth_list_update)
  show ?thesis
    unfolding pulseArrays_def pulseLoop_spec [OF len len]
    using z by (auto intro!: map_cong)
qed

lemma pulseArrays_length:
  "length (fst (pulseArrays duty)) = N" "length (snd (pulseArrays duty)) = N"
  by (simp_all add: pulseArrays_eq)

text \<open>
  With a duty cycle in \<open>[-2, 2]\<close> every coefficient is finite and the wave is created.
  With \<open>NaN\<close>, the duty cycle of an object that is not a song, the coefficients from
  index 1 on are \<open>NaN\<close> and \<open>createPeriodicWave\<close> throws.
\<close>

lemma createPulseWave_finite:
  assumes "\<bar>d\<bar> \<le> 2"
  shows "createPulseWave (Fin d) = Inr (pulseArrays (Fin d))"
proof -
  have "list_all isFinite (fst (pulseArrays (Fin d)))"
    unfolding pulseArrays_eq fst_conv list_all_iff
    using coefficients_finite(1) [OF _ _ assms] by auto
  moreover have "list_all isFinite (snd (pulseArrays (Fin d)))"
    unfolding pulseArrays_eq snd_conv list_all_iff
    using coefficients_finite(2) [OF _ _ assms] by auto
  ultimately show ?thesis by (simp add: createPulseWave_def createPeriodicWave_def)
qed

lemma createPulseWave_NaN: "createPulseWave NaN = Inl TypeError"
proof -
  have "fst (pulseArrays NaN) ! 1 = NaN"
    unfolding pulseArrays_eq fst_conv by (simp add: N_def jsMul_NaN)
  moreover have "1 < length (fst (pulseArrays NaN))" by (simp add: pulseArrays_length N_def)
  ultimately have "\<not> list_all isFinite (fst (pulseArrays NaN))"
    unfolding list_all_length by (metis isFinite.simps(4))
  then show ?thesis by (simp add: createPulseWave_def createPeriodicWave_def)
qed

lemma createPulseWave_num:
  assumes "\<bar>d\<bar> \<le> 1"
  shows "createPulseWave (num d) = Inr (pulseArrays (num d))"
proof -
  have "\<bar>d\<bar> \<le> 2 ^ 0" using assms by simp
  from round64_bounded [OF this] obtain y where y: "num d = Fin y" "\<bar>y\<bar> \<le> 2"
    by (auto simp: num_def)
  show ?thesis unfolding y(1) by (rule createPulseWave_finite [OF y(2)])
qed

lemma duty_table:
  assumes "SONGS X = Some song"
  shows "\<bar>pulse1Duty song\<bar> \<le> 1" "\<bar>pulse2Duty song\<bar> \<le> 1"
  using SONGS_cases [OF assms] by (auto simp: game_def menu_def score_def fail_def)

subsection \<open>Starting a session\<close>

text \<open>
  For a song of the table both pulse waves are created, so \<open>createOscillators\<close> returns
  with the three channels set up. For an object that is not a song the first pulse wave
  fails, with the first oscillator and gain assigned and nothing else done.
\<close>

lemma createOscillators_song:
  assumes "audioCtx s \<noteq> None" "masterGain s \<noteq> None" "SONGS X = Some song"
  shows "createOscillators (Song song) s = Inr (s\<lparr>
     pulse1Osc := Some \<lparr>frequency = \<lparr>pvalue = 440, events = []\<rparr>,
                         oscType = Custom (pulseArrays (num (pulse1Duty song))), started = True\<rparr>,
     pulse1Gain := Some \<lparr>gain = \<lparr>pvalue = 0, events = []\<rparr>\<rparr>,
     pulse2Osc := Some \<lparr>frequency = \<lparr>pvalue = 440, events = []\<rparr>,
                         oscType = Custom (pulseArrays (num (pulse2Duty song))), started = True\<rparr>,
     pulse2Gain := Some \<lparr>gain = \<lparr>pvalue = 0, events = []\<rparr>\<rparr>,
     triOsc := Some \<lparr>frequency = \<lparr>pvalue = 110, events = []\<rparr>,
                      oscType = Triangle, started = True\<rparr>,
     triGain := Some \<lparr>gain = \<lparr>pvalue = 0, events = []\<rparr>\<rparr>\<rparr>)"
  using assms(1,2) createPulseWave_num [OF duty_table(1) [OF assms(3)]]
    createPulseWave_num [OF duty_table(2) [OF assms(3)]]
  by (auto simp: createOscillators_def Let_def createOscillator_def createGain_def setValue_def
        newParam_def)

lemma createOscillators_inherited:
  assumes "audioCtx s \<noteq> None" "masterGain s \<noteq> None"
  shows "createOscillators Inherited s =
     Inl (TypeError, s\<lparr>pulse1Osc := Some createOscillator, pulse1Gain := Some createGain\<rparr>)"
  using assms by (auto simp: createOscillators_def Let_def createPulseWave_NaN)

lemma play_song:
  assumes "audioCtx s = Some ctx" "masterGain s = Some mg" "SONGS X = Some song"
    and "\<not> (isPlaying s \<and> currentTrackName s = X)"
  shows "play X s = Inr (s\<lparr>
     audioCtx := Some (ctx\<lparr>state := Running\<rparr>),
     masterGain := Some (mg\<lparr>gain := (gain mg)\<lparr>events :=
        filter (\<lambda>e. eventTime e < currentTime ctx) (events (gain mg)) @
          [SetValue 0 (currentTime ctx),
           LinearRamp (if muted s then 0 else volume s) (currentTime ctx + 0.4)]\<rparr>\<rparr>),
     pulse1Osc := Some \<lparr>frequency = \<lparr>pvalue = 440, events = []\<rparr>,
                         oscType = Custom (pulseArrays (num (pulse1Duty song))), started = True\<rparr>,
     pulse1Gain := Some \<lparr>gain = \<lparr>pvalue = 0, events = []\<rparr>\<rparr>,
     pulse2Osc := Some \<lparr>frequency = \<lparr>pvalue = 440, events = []\<rparr>,
                         oscType = Custom (pulseArrays (num (pulse2Duty song))), started = True\<rparr>,
     pulse2Gain := Some \<lparr>gain = \<lparr>pvalue = 0, events = []\<rparr>\<rparr>,
     triOsc := Some \<lparr>frequency = \<lparr>pvalue = 110, events = []\<rparr>,
                      oscType = Triangle, started = True\<rparr>,
     triGain := Some \<lparr>gain = \<lparr>pvalue = 0, events = []\<rparr>\<rparr>,
     currentSong := Some (Song song), currentTrackName := X, isPlaying := True,
     currentStep := 0,
     nextStepTime := jsAdd (num (currentTime ctx)) (num 0.05),
     schedulerTimer := Some (Suc (timersCreated s)),
     timersCreated := Suc (timersCreated s)\<rparr>)"
proof -
  note r = cancel_set_ramp
  note o = createOscillators_song [OF _ _ assms(3)]
  show ?thesis
  proof (cases "state ctx")
    case Suspended
    then show ?thesis
      using assms(1,2,4)
      by (auto simp: play_def Let_def SONGS_get_song [OF assms(3)] o r
            stopInternal_def destroyOscillators_def)
  next
    case Running
    then have e: "ctx\<lparr>state := Running\<rparr> = ctx" by simp
    show ?thesis
      using assms(1,2,4) Running
      by (auto simp: play_def Let_def SONGS_get_song [OF assms(3)] o r e
            stopInternal_def destroyOscillators_def)
  qed
qed

lemma play_inherited:
  assumes "audioCtx s = Some ctx" "masterGain s = Some mg" "SONGS_get X = Some Inherited"
    and "\<not> (isPlaying s \<and> currentTrackName s = X)"
  shows "play X s = Inl (TypeError, s\<lparr>
     audioCtx := Some (ctx\<lparr>state := Running\<rparr>),
     pulse1Osc := Some createOscillator, pulse1Gain := Some createGain,
     pulse2Osc := None, pulse2Gain := None, triOsc := None, triGain := None,
     currentSong := Some Inherited, currentTrackName := X, isPlaying := True,
     currentStep := 0, schedulerTimer := None\<rparr>)"
proof (cases "state ctx")
  case Suspended
  then show ?thesis
    using assms(1,2,4)
    by (auto simp: play_def Let_def assms(3) createOscillators_inherited
          stopInternal_def destroyOscillators_def)
next
  case Running
  then have e: "ctx\<lparr>state := Running\<rparr> = ctx" by simp
  show ?thesis
    using assms(1,2,4) Running
    by (auto simp: play_def Let_def assms(3) createOscillators_inherited e
          stopInternal_def destroyOscillators_def)
qed

text \<open>
  A name for which the table read is \<open>undefined\<close> is logged and otherwise ignored.
\<close>

lemma play_undefined_name:
  assumes "SONGS_get trackName = None"
  shows "play trackName s =
     (if audioCtx s = None \<or> masterGain s = None then Inr s
      else Inr (s\<lparr>console := console s @
             [''MusicEngine: Unknown track '' @ [CHR 0x22] @ trackName @ [CHR 0x22]]\<rparr>))"
  using assms by (simp add: play_def split: option.splits)

subsection \<open>The example engines\<close>

lemma readyEngine_eq:
  "readyEngine = newMusicEngine\<lparr>
     audioCtx := Some exampleCtx,
     masterGain := Some \<lparr>gain = \<lparr>pvalue = 0.105, events = []\<rparr>\<rparr>,
     noiseBuffer := Some \<lparr>numberOfChannels = 1, bufferLength = 88200, bufferRate = 44100\<rparr>\<rparr>"
  by (simp add: readyEngine_def init_def createNoiseBuffer_def newMusicEngine_def exampleCtx_def
        createGain_def setValue_def newParam_def)

lemma readyEngine_fields:
  "audioCtx readyEngine = Some exampleCtx"
  "masterGain readyEngine = Some \<lparr>gain = \<lparr>pvalue = 0.105, events = []\<rparr>\<rparr>"
  "isPlaying readyEngine = False"
  "currentTrackName readyEngine = []"
  "currentSong readyEngine = None"
  "currentStep readyEngine = 0"
  "muted readyEngine = False"
  "volume readyEngine = 0.105"
  "timersCreated readyEngine = 0"
  "console readyEngine = []"
  by (simp_all add: readyEngine_eq newMusicEngine_def)

lemma play_time: "jsAdd (num 0) (num 0.05) = Fin (3602879701896397 / 2 ^ 56)"
  unfolding num_0 num_005 by (rule jsAdd_eval [of _ _ 0, OF _ _ fl64_a0]) simp_all

lemma play_game_readyEngine: "play ''game'' readyEngine = Inr playingGame"
proof -
  have n: "\<not> (isPlaying readyEngine \<and> currentTrackName readyEngine = ''game'')"
    by (simp add: readyEngine_fields)
  show ?thesis
    unfolding playingGame_def afterPlay_def
      play_song [OF readyEngine_fields(1,2) SONGS_game n]
    by simp
qed

lemma playingGame_fields:
  "audioCtx playingGame = Some exampleCtx"
  "masterGain playingGame =
     Some \<lparr>gain = \<lparr>pvalue = 0.105, events = [SetValue 0 0, LinearRamp 0.105 0.4]\<rparr>\<rparr>"
  "currentSong playingGame = Some (Song game)"
  "currentTrackName playingGame = ''game''"
  "isPlaying playingGame"
  "currentStep playingGame = 0"
  "muted playingGame = False"
  "volume playingGame = 0.105"
  "schedulerTimer playingGame = Some 1"
  "timersCreated playingGame = 1"
proof -
  have n: "\<not> (isPlaying readyEngine \<and> currentTrackName readyEngine = ''game'')"
    by (simp add: readyEngine_fields)
  note p = play_song [OF readyEngine_fields(1,2) SONGS_game n]
  show "audioCtx playingGame = Some exampleCtx"
    unfolding playingGame_def afterPlay_def p by (simp add: exampleCtx_def)
  show "masterGain playingGame =
     Some \<lparr>gain = \<lparr>pvalue = 0.105, events = [SetValue 0 0, LinearRamp 0.105 0.4]\<rparr>\<rparr>"
    unfolding playingGame_def afterPlay_def p
    by (simp add: exampleCtx_def readyEngine_fields)
  show "currentSong playingGame = Some (Song game)"
    unfolding playingGame_def afterPlay_def p by simp
  show "currentTrackName playingGame = ''game''"
    unfolding playingGame_def afterPlay_def p by simp
  show "isPlaying playingGame"
    unfolding playingGame_def afterPlay_def p by simp
  show "currentStep playingGame = 0"
    unfolding playingGame_def afterPlay_def p by simp
  show "muted playingGame = False"
    unfolding playingGame_def afterPlay_def p by (simp add: readyEngine_fields)
  show "volume playingGame = 0.105"
    unfolding playingGame_def afterPlay_def p by (simp add: readyEngine_fields)
  show "schedulerTimer playingGame = Some 1"
    unfolding playingGame_def afterPlay_def p by (simp add: readyEngine_fields)
  show "timersCreated playingGame = 1"
    unfolding playingGame_def afterPlay_def p by (simp add: readyEngine_fields)
qed

lemma playingGame_time: "nextStepTime playingGame = Fin (3602879701896397 / 2 ^ 56)"
proof -
  have n: "\<not> (isPlaying readyEngine \<and> currentTrackName readyEngine = ''game'')"
    by (simp add: readyEngine_fields)
  note p = play_song [OF readyEngine_fields(1,2) SONGS_game n]
  have "nextStepTime playingGame = jsAdd (num (currentTime exampleCtx)) (num 0.05)"
    unfolding playingGame_def afterPlay_def p by simp
  also have "currentTime exampleCtx = 0" by (simp add: exampleCtx_def)
  finally show ?thesis by (simp only: play_time)
qed

lemma clockAt_fields:
  "audioCtx (clockAt t s) = map_option (\<lambda>ctx. ctx\<lparr>currentTime := t\<rparr>) (audioCtx s)"
  "isPlaying (clockAt t s) = isPlaying s"
  "currentSong (clockAt t s) = currentSong s"
  "nextStepTime (clockAt t s) = nextStepTime s"
  "currentStep (clockAt t s) = currentStep s"
  "masterGain (clockAt t s) = masterGain s"
  "muted (clockAt t s) = muted s"
  "volume (clockAt t s) = volume s"
  "currentTrackName (clockAt t s) = currentTrackName s"
  by (simp_all add: clockAt_def)

lemma fading_fields:
  "audioCtx (clockAt 0.1 playingGame) = Some (exampleCtx\<lparr>currentTime := 0.1\<rparr>)"
  "masterGain (clockAt 0.1 playingGame) =
     Some \<lparr>gain = \<lparr>pvalue = 0.105, events = [SetValue 0 0, LinearRamp 0.105 0.4]\<rparr>\<rparr>"
  "muted (clockAt 0.1 playingGame) = False"
  by (simp_all add: clockAt_fields playingGame_fields)

subsection \<open>Mute\<close>

lemma toggleMute_ready:
  assumes "audioCtx s = Some ctx" "masterGain s = Some mg"
  shows "toggleMute s =
     (\<not> muted s,
      s\<lparr>muted := \<not> muted s,
        masterGain := Some (mg\<lparr>gain := (gain mg)\<lparr>events :=
          filter (\<lambda>e. eventTime e < currentTime ctx) (events (gain mg)) @
            [SetValue (if muted s then volume s else 0) (currentTime ctx)]\<rparr>\<rparr>)\<rparr>)"
  unfolding toggleMute_def Let_def using assms
  by (simp add: cancel_then_set [OF order_refl])

lemma toggleMute_no_audio:
  assumes "audioCtx s = None \<or> masterGain s = None"
  shows "toggleMute s = (\<not> muted s, s\<lparr>muted := \<not> muted s\<rparr>)"
  using assms by (auto simp: toggleMute_def Let_def split: option.splits)

text \<open>
  C4, amended. \<open>toggleMute\<close> flips the muted flag and returns it. With an audio context
  and a master gain it sets the master gain to the effective value (0 if now muted, else
  the volume) at the current time, keeps the automation events scheduled before the
  current time and cancels every event scheduled at the current time or later, so the
  ramp of a fade that is still in progress is removed. Without them only the flag
  changes. No other field of the engine changes.
\<close>

theorem toggleMute_effect:
  "(audioCtx s = Some ctx \<and> masterGain s = Some mg \<longrightarrow>
      toggleMute s =
        (\<not> muted s,
         s\<lparr>muted := \<not> muted s,
           masterGain := Some (mg\<lparr>gain := (gain mg)\<lparr>events :=
             filter (\<lambda>e. eventTime e < currentTime ctx) (events (gain mg)) @
               [SetValue (if muted s then volume s else 0) (currentTime ctx)]\<rparr>\<rparr>)\<rparr>)) \<and>
   (audioCtx s = None \<or> masterGain s = None \<longrightarrow>
      toggleMute s = (\<not> muted s, s\<lparr>muted := \<not> muted s\<rparr>))"
  using toggleMute_ready [of s ctx mg] toggleMute_no_audio [of s] by blast

theorem toggleMute_effect_witness:
  "audioCtx (clockAt 0.1 playingGame) = Some (exampleCtx\<lparr>currentTime := 0.1\<rparr>) \<and>
   masterGain (clockAt 0.1 playingGame) =
     Some \<lparr>gain = \<lparr>pvalue = 0.105, events = [SetValue 0 0, LinearRamp 0.105 0.4]\<rparr>\<rparr> \<and>
   fst (toggleMute (clockAt 0.1 playingGame)) = True \<and>
   masterGain (snd (toggleMute (clockAt 0.1 playingGame))) =
     Some \<lparr>gain = \<lparr>pvalue = 0.105, events = [SetValue 0 0, SetValue 0 0.1]\<rparr>\<rparr> \<and>
   (audioCtx inertEngine = None \<or> masterGain inertEngine = None) \<and>
   toggleMute inertEngine = (True, inertEngine\<lparr>muted := True\<rparr>)"
proof -
  have i: "audioCtx inertEngine = None" "muted inertEngine = False"
    by (simp_all add: inertEngine_def init_def newMusicEngine_def)
  from toggleMute_effect [of "clockAt 0.1 playingGame" "exampleCtx\<lparr>currentTime := 0.1\<rparr>"
      "\<lparr>gain = \<lparr>pvalue = 0.105, events = [SetValue 0 0, LinearRamp 0.105 0.4]\<rparr>\<rparr>"]
    toggleMute_effect [of inertEngine]
  show ?thesis by (simp add: fading_fields i)
qed

text \<open>
  C4 as stated fails: 100 ms into the fade-in that \<open>play\<close> scheduled, the ramp to the
  volume, due at 400 ms, is on the master gain before \<open>toggleMute\<close> and gone after it.
\<close>

theorem toggleMute_fade_counterexample:
  "LinearRamp 0.105 0.4 \<in> set (events (gain (the (masterGain (clockAt 0.1 playingGame))))) \<and>
   LinearRamp 0.105 0.4 \<notin>
     set (events (gain (the (masterGain (snd (toggleMute (clockAt 0.1 playingGame)))))))"
  using toggleMute_ready [OF fading_fields(1,2)]
  by (simp add: fading_fields)

subsection \<open>Track selection\<close>

text \<open>
  C3. If the engine is playing track \<open>X\<close>, then \<open>play X\<close> returns normally and leaves
  every field of the engine unchanged: oscillators, step index, next-step time, scheduler
  timer and the count of timers created are all as before.
\<close>

theorem play_same_track_noop:
  assumes "playingTrack X s"
  shows "play X s = Inr s"
proof -
  from assms have playing: "isPlaying s" "currentTrackName s = X"
    and c: "currentSong s \<noteq> None" "currentSong s = map_option Song (SONGS X)"
    unfolding playingTrack_def by blast+
  obtain song where song: "SONGS X = Some song" using c by (cases "SONGS X") simp_all
  from playing show ?thesis
    by (simp add: play_def SONGS_get_song [OF song] split: option.splits)
qed

theorem play_same_track_noop_witness:
  "playingTrack ''game'' playingGame \<and> play ''game'' playingGame = Inr playingGame"
proof -
  have h: "playingTrack ''game'' playingGame"
    by (simp add: playingTrack_def playingGame_fields SONGS_game)
  from play_same_track_noop [OF h] h show ?thesis by simp
qed

text \<open>
  Starting a session sets the step index to 0 and creates one timer; two calls in a row
  for the same track start one session.
\<close>

lemma play_starts_session:
  assumes "audioCtx s = Some ctx" "masterGain s = Some mg" "SONGS X = Some song"
    and "\<not> (isPlaying s \<and> currentTrackName s = X)"
  shows "\<exists>s'. play X s = Inr s' \<and> playingTrack X s' \<and> currentStep s' = 0 \<and>
           nextStepTime s' = jsAdd (num (currentTime ctx)) (num 0.05) \<and>
           timersCreated s' = Suc (timersCreated s) \<and>
           schedulerTimer s' = Some (Suc (timersCreated s))"
  unfolding play_song [OF assms] by (simp add: playingTrack_def assms(3))

lemma play_twice_one_session:
  assumes "audioCtx s = Some ctx" "masterGain s = Some mg" "SONGS X = Some song"
    and "play X s = Inr s1" and "play X s1 = Inr s2"
  shows "s2 = s1"
proof (cases "isPlaying s \<and> currentTrackName s = X")
  case True
  with assms(1,2,4) have "s1 = s" by (simp add: play_def SONGS_get_song [OF assms(3)])
  with True assms(1,2,5) show ?thesis
    by (simp add: play_def SONGS_get_song [OF assms(3)])
next
  case False
  from play_starts_session [OF assms(1-3) False] assms(4)
  have "playingTrack X s1" by auto
  then have "isPlaying s1 \<and> currentTrackName s1 = X" by (simp add: playingTrack_def)
  then have "play X s1 = Inr s1"
    by (simp add: play_def SONGS_get_song [OF assms(3)] split: option.splits)
  with assms(5) show ?thesis by simp
qed

text \<open>
  C6. The name \<open>constructor\<close> is not a track of the song table, yet \<open>play\<close> does not log
  and ignore it: the table read finds the property inherited from \<open>Object.prototype\<close>,
  the guard for an unknown track is passed, and the call ends in a \<open>TypeError\<close>, on an
  idle engine and on a playing one. Nothing is logged, and the engine is left changed:
  the session that was playing is torn down and its timer cleared, and the engine is
  flagged as playing the track \<open>constructor\<close>, with the inherited object as its song.
\<close>

theorem play_inherited_name_throws:
  "SONGS ''constructor'' = None \<and>
   play ''constructor'' readyEngine = Inl (TypeError, afterPlay ''constructor'' readyEngine) \<and>
   play ''constructor'' playingGame = Inl (TypeError, afterPlay ''constructor'' playingGame) \<and>
   console (afterPlay ''constructor'' playingGame) = console playingGame \<and>
   isPlaying (afterPlay ''constructor'' readyEngine) \<and>
   currentTrackName (afterPlay ''constructor'' playingGame) = ''constructor'' \<and>
   currentSong (afterPlay ''constructor'' playingGame) = Some Inherited \<and>
   schedulerTimer playingGame = Some 1 \<and>
   schedulerTimer (afterPlay ''constructor'' playingGame) = None \<and>
   pulse2Osc (afterPlay ''constructor'' playingGame) = None"
proof -
  have r: "\<not> (isPlaying readyEngine \<and> currentTrackName readyEngine = ''constructor'')"
    by (simp add: readyEngine_fields)
  have p: "\<not> (isPlaying playingGame \<and> currentTrackName playingGame = ''constructor'')"
    by (simp add: playingGame_fields)
  note a = play_inherited [OF readyEngine_fields(1,2) SONGS_get_constructor r]
  note b = play_inherited [OF playingGame_fields(1,2) SONGS_get_constructor p]
  show ?thesis
    unfolding afterPlay_def a b by (simp add: SONGS_def playingGame_fields)
qed

subsection \<open>Failed initialisation\<close>

lemma init_failure_inert: "inert inertEngine"
  by (simp add: inert_def inertEngine_def init_def newMusicEngine_def)

lemma inert_init_failure: "inert s \<Longrightarrow> inert (init None None s)"
  by (simp add: inert_def init_def)

text \<open>
  C7. After a failed initialisation the audio context stays \<open>null\<close> and the engine is
  inert. On an inert engine \<open>play\<close>, \<open>stop\<close> and \<open>stopImmediate\<close> return normally and change
  nothing; \<open>setVolume\<close> stores the clamped volume and \<open>toggleMute\<close> flips the flag, and
  both leave the engine inert: no context, node, buffer, timer, percussion voice or
  session appears; the three getters report not playing, no track and the stored flag.
\<close>

theorem inert_calls_are_noops:
  assumes "inert s"
  shows "play trackName s = Inr s \<and> stop s = s \<and> stopImmediate s = s \<and>
         setVolume vol s = s\<lparr>volume := max 0 (min 1 vol)\<rparr> \<and> inert (setVolume vol s) \<and>
         toggleMute s = (\<not> muted s, s\<lparr>muted := \<not> muted s\<rparr>) \<and> inert (snd (toggleMute s)) \<and>
         isMuted s = muted s \<and> isCurrentlyPlaying s = False \<and> getCurrentTrack s = []"
proof -
  have "play trackName s = Inr s" using assms by (simp add: inert_def play_def)
  moreover have "stop s = s" using assms by (simp add: inert_def stop_def)
  moreover have "stopImmediate s = s"
    using assms by (simp add: inert_def stopImmediate_def stopInternal_def destroyOscillators_def)
  moreover have v: "setVolume vol s = s\<lparr>volume := max 0 (min 1 vol)\<rparr>"
    using assms by (simp add: inert_def setVolume_def Let_def)
  moreover have "inert (setVolume vol s)" unfolding v using assms by (simp add: inert_def)
  moreover have m: "toggleMute s = (\<not> muted s, s\<lparr>muted := \<not> muted s\<rparr>)"
    using assms by (simp add: inert_def toggleMute_no_audio)
  moreover have "inert (snd (toggleMute s))" unfolding m using assms by (simp add: inert_def)
  moreover have "isMuted s = muted s" by (simp add: isMuted_def)
  moreover have "isCurrentlyPlaying s = False"
    using assms by (simp add: inert_def isCurrentlyPlaying_def)
  moreover have "getCurrentTrack s = []" using assms by (simp add: inert_def getCurrentTrack_def)
  ultimately show ?thesis by blast
qed

theorem inert_calls_are_noops_witness:
  "inert inertEngine \<and>
   play ''game'' inertEngine = Inr inertEngine \<and> stop inertEngine = inertEngine \<and>
   stopImmediate inertEngine = inertEngine \<and>
   setVolume 0.5 inertEngine = inertEngine\<lparr>volume := 0.5\<rparr> \<and>
   toggleMute inertEngine = (True, inertEngine\<lparr>muted := True\<rparr>) \<and>
   isCurrentlyPlaying inertEngine = False \<and> getCurrentTrack inertEngine = []"
proof -
  have "muted inertEngine = False"
    by (simp add: inertEngine_def init_def newMusicEngine_def)
  with inert_calls_are_noops [OF init_failure_inert, of "''game''" "0.5"] init_failure_inert
  show ?thesis by simp
qed

subsection \<open>Advancing the step\<close>

lemma advanceStep_song:
  assumes "currentSong s = Some (Song song)"
  shows "advanceStep s = Inr (s\<lparr>
           nextStepTime := jsAdd (nextStepTime s)
                             (jsDiv (jsDiv (num 60) (songTempo (Song song))) (num 2)),
           currentStep := (if length (pulse1 song) \<le> Suc (currentStep s) then 0
                           else Suc (currentStep s))\<rparr>)"
  using assms by (simp add: advanceStep_def Let_def)

text \<open>
  One call for a song of the table, the next-step time being \<open>a\<close>: the new time is
  within \<open>2 ^ E / 2 ^ 53\<close> of \<open>a + 60 / tempo / 2\<close> when that sum stays below \<open>2 ^ E\<close>.
\<close>

lemma advanceStep_table:
  assumes "SONGS X = Some song" "currentSong s = Some (Song song)" "nextStepTime s = Fin a"
    and "\<bar>a\<bar> + (60 / tempo song / 2 + 2 ^ E / 2 ^ 53) \<le> 2 ^ E" "E \<le> 1023"
  shows "\<exists>s' b. advanceStep s = Inr s' \<and> nextStepTime s' = Fin b \<and>
           \<bar>b - (a + 60 / tempo song / 2)\<bar> \<le> 2 ^ E / 2 ^ 53 \<and>
           currentSong s' = currentSong s \<and> audioCtx s' = audioCtx s \<and>
           isPlaying s' = isPlaying s \<and>
           currentStep s' = (if length (pulse1 song) \<le> Suc (currentStep s) then 0
                             else Suc (currentStep s))"
proof -
  define D where "D = 60 / tempo song / 2"
  define u :: real where "u = 2 ^ E / 2 ^ 53"
  from secondsPerStep_table [OF assms(1)] obtain dd where
    dd: "jsDiv (jsDiv (num 60) (songTempo (Song song))) (num 2) = Fin dd"
      "\<bar>dd - D\<bar> \<le> 1 / 2 ^ 55" "1/8 \<le> dd" "dd \<le> 1/2"
    unfolding D_def by blast
  have "(1::real) / 2 ^ 55 \<le> 1 / 2 ^ 54" by simp
  also have "\<dots> \<le> 2 ^ E / 2 ^ 54" by (intro divide_right_mono) simp_all
  finally have u1: "1 / 2 ^ 55 \<le> u / 2" unfolding u_def by simp
  have u2: "(2::real) ^ E / 2 ^ 54 = u / 2" unfolding u_def by simp
  have upos: "0 \<le> u" unfolding u_def by simp
  have h: "\<bar>a\<bar> + (D + u) \<le> 2 ^ E" using assms(4) unfolding D_def u_def .
  have m: "\<bar>a + dd\<bar> \<le> 2 ^ E" using h dd(2,3) u1 upos by linarith
  have r: "round64 (a + dd) = Fin (fl64 (a + dd))" by (rule round64_Fin [OF m assms(5)])
  have e: "\<bar>fl64 (a + dd) - (a + dd)\<bar> \<le> u / 2" using fl64_err [OF m] unfolding u2 .
  have b: "\<bar>fl64 (a + dd) - (a + D)\<bar> \<le> u" using e dd(2) u1 by linarith
  show ?thesis
    unfolding advanceStep_song [OF assms(2)] dd(1) assms(3) jsAdd.simps r
    using b by (simp add: D_def u_def)
qed

text \<open>The step index after \<open>k\<close> calls, for a song whose loop is not empty.\<close>

lemma advanceSteps_index:
  assumes "currentSong s = Some (Song song)" "0 < length (pulse1 song)"
  shows "\<exists>s'. advanceSteps k s = Inr s' \<and> currentSong s' = currentSong s \<and>
           currentStep s' =
             (if currentStep s < length (pulse1 song)
              then (currentStep s + k) mod length (pulse1 song)
              else if k = 0 then currentStep s else (k - 1) mod length (pulse1 song))"
  using assms(1)
proof (induction k arbitrary: s)
  case 0
  show ?case by simp
next
  case (Suc k)
  let ?len = "length (pulse1 song)"
  let ?c = "if ?len \<le> Suc (currentStep s) then 0 else Suc (currentStep s)"
  let ?s1 = "s\<lparr>nextStepTime := jsAdd (nextStepTime s)
                             (jsDiv (jsDiv (num 60) (songTempo (Song song))) (num 2)),
               currentStep := ?c\<rparr>"
  have a: "advanceStep s = Inr ?s1" by (rule advanceStep_song [OF Suc.prems])
  have s1: "currentSong ?s1 = Some (Song song)" "currentStep ?s1 = ?c"
    using Suc.prems by simp_all
  from Suc.IH [OF s1(1)] obtain s' where
    s': "advanceSteps k ?s1 = Inr s'" "currentSong s' = currentSong ?s1"
      "currentStep s' = (if currentStep ?s1 < ?len then (currentStep ?s1 + k) mod ?len
                         else if k = 0 then currentStep ?s1 else (k - 1) mod ?len)"
    by blast
  have lt: "?c < ?len" using assms(2) by simp
  have c: "currentStep s' = (?c + k) mod ?len" using s'(3) lt unfolding s1(2) by simp
  have "(?c + k) mod ?len =
        (if currentStep s < ?len then (currentStep s + Suc k) mod ?len else k mod ?len)"
  proof (cases "currentStep s < ?len")
    case True
    show ?thesis
    proof (cases "?len \<le> Suc (currentStep s)")
      case le: True
      with True have eq: "Suc (currentStep s) = ?len" by simp
      have "(currentStep s + Suc k) mod ?len = (Suc (currentStep s) + k) mod ?len" by simp
      also have "\<dots> = k mod ?len" unfolding eq by simp
      finally show ?thesis using True le by simp
    next
      case False
      then show ?thesis using True by simp
    qed
  next
    case False
    then show ?thesis by simp
  qed
  then show ?case using a s'(1,2) s1(1) Suc.prems c by simp
qed

text \<open>The next-step time after \<open>k\<close> calls, for a song of the table.\<close>

lemma advanceSteps_time:
  assumes "SONGS X = Some song" "currentSong s = Some (Song song)" "nextStepTime s = Fin a"
    and "\<bar>a\<bar> + real k * (60 / tempo song / 2 + 2 ^ E / 2 ^ 53) \<le> 2 ^ E" "E \<le> 1023"
  shows "\<exists>s' b. advanceSteps k s = Inr s' \<and> nextStepTime s' = Fin b \<and>
           \<bar>b - (a + real k * (60 / tempo song / 2))\<bar> \<le> real k * (2 ^ E / 2 ^ 53)"
  using assms(2,3,4)
proof (induction k arbitrary: s a)
  case 0
  then show ?case by simp
next
  case (Suc k)
  define D where "D = 60 / tempo song / 2"
  define u :: real where "u = 2 ^ E / 2 ^ 53"
  have Dpos: "0 \<le> D" using tempo_table [OF assms(1)] unfolding D_def by simp
  have upos: "0 \<le> u" unfolding u_def by simp
  define K where "K = real k * (D + u)"
  have "real (Suc k) * (D + u) = K + (D + u)" unfolding K_def by (simp add: algebra_simps)
  then have h: "\<bar>a\<bar> + (K + (D + u)) \<le> 2 ^ E"
    using Suc.prems(3) unfolding D_def u_def by simp
  have k: "0 \<le> K" unfolding K_def using Dpos upos by simp
  have h1: "\<bar>a\<bar> + (D + u) \<le> 2 ^ E" using h k by linarith
  from advanceStep_table [OF assms(1) Suc.prems(1,2) h1 [unfolded D_def u_def] assms(5)]
  obtain s1 b where s1: "advanceStep s = Inr s1" "nextStepTime s1 = Fin b"
    "\<bar>b - (a + D)\<bar> \<le> u" "currentSong s1 = currentSong s"
    unfolding D_def u_def by blast
  have "\<bar>b\<bar> + K \<le> 2 ^ E" using h s1(3) Dpos by linarith
  then have h2: "\<bar>b\<bar> + real k * (D + u) \<le> 2 ^ E" unfolding K_def .
  have c1: "currentSong s1 = Some (Song song)" using s1(4) Suc.prems(1) by simp
  from Suc.IH [OF c1 s1(2) h2 [unfolded D_def u_def]]
  obtain s' b' where s': "advanceSteps k s1 = Inr s'" "nextStepTime s' = Fin b'"
    "\<bar>b' - (b + real k * D)\<bar> \<le> real k * u"
    unfolding D_def u_def by blast
  have "\<bar>b' - (a + (real k * D + D))\<bar> \<le> real k * u + u" using s'(3) s1(3) by linarith
  then have "\<bar>b' - (a + real (Suc k) * D)\<bar> \<le> real (Suc k) * u"
    by (simp add: algebra_simps)
  then show ?case using s1(1) s'(1,2) unfolding D_def u_def by simp
qed

lemma round64_eval:
  assumes "\<bar>x\<bar> \<le> 2 ^ n" "n \<le> 1023" "fl64 x = y"
  shows "round64 x = Fin y"
  using round64_Fin [OF assms(1,2)] assms(3) by simp

lemma timeAfter_0: "timeAfter 0 s = Some (nextStepTime s)"
  by (simp add: timeAfter_def)

lemma timeAfter_Suc: "advanceStep s = Inr s' \<Longrightarrow> timeAfter (Suc k) s = timeAfter k s'"
  by (simp add: timeAfter_def)

lemma advanceStep_game_time:
  assumes "currentSong s = Some (Song game)" "nextStepTime s = Fin a"
    and "round64 (a + 3602879701896397 / 2 ^ 54) = Fin b"
  shows "\<exists>s'. advanceStep s = Inr s' \<and> currentSong s' = Some (Song game) \<and>
           nextStepTime s' = Fin b"
  unfolding advanceStep_song [OF assms(1)] secondsPerStep_game assms(2) jsAdd.simps assms(3)
  using assms(1) by simp

lemma fl64_3: "fl64 3 = 3"
  using fl64_eval_big [of 1 3] by (simp add: roundEven_def Let_def)

lemma num_3: "num 3 = Fin 3"
  by (rule num_eval [of _ 2, OF _ _ fl64_3]) simp_all

text \<open>
  C1 as stated fails: the sum is formed in double precision, one rounding per call.
  After \<open>play('game')\<close> at clock 0 the next-step time is the double 0.05; three calls of
  \<open>advanceStep\<close> give the double 0.65, which is neither the real number
  \<open>0.05 + 3 * (60 / 150 / 2)\<close> nor the double \<open>0.6500000000000001\<close> that the expression
  \<open>0.05 + 3 * (60 / 150 / 2)\<close> evaluates to.
\<close>

theorem advanceStep_rounding_counterexample:
  "currentSong playingGame = Some (Song game) \<and> 0 < tempo game \<and>
   nextStepTime playingGame = Fin (3602879701896397 / 2 ^ 56) \<and>
   timeAfter 3 playingGame = Some (Fin (5854679515581645 / 2 ^ 53)) \<and>
   (5854679515581645 / 2 ^ 53 :: real) \<noteq>
     3602879701896397 / 2 ^ 56 + 3 * (60 / tempo game / 2) \<and>
   jsAdd (nextStepTime playingGame)
     (jsMul (num 3) (jsDiv (jsDiv (num 60) (songTempo (Song game))) (num 2))) =
     Fin (2927339757790823 / 2 ^ 52) \<and>
   Fin (5854679515581645 / 2 ^ 53) \<noteq> Fin (2927339757790823 / 2 ^ 52)"
proof -
  have r1: "round64 (3602879701896397 / 2 ^ 56 + 3602879701896397 / 2 ^ 54) = Fin (1 / 2 ^ 2)"
    by (rule round64_eval [of _ 0, OF _ _ fl64_game_step1]) simp_all
  have r2: "round64 (1 / 2 ^ 2 + 3602879701896397 / 2 ^ 54) = Fin (8106479329266893 / 2 ^ 54)"
    by (rule round64_eval [of _ 0, OF _ _ fl64_game_step2]) simp_all
  have r3: "round64 (8106479329266893 / 2 ^ 54 + 3602879701896397 / 2 ^ 54) =
            Fin (5854679515581645 / 2 ^ 53)"
    by (rule round64_eval [of _ 0, OF _ _ fl64_game_step3]) simp_all
  from advanceStep_game_time [OF playingGame_fields(3) playingGame_time r1]
  obtain s1 where s1: "advanceStep playingGame = Inr s1" "currentSong s1 = Some (Song game)"
    "nextStepTime s1 = Fin (1 / 2 ^ 2)" by blast
  from advanceStep_game_time [OF s1(2,3) r2]
  obtain s2 where s2: "advanceStep s1 = Inr s2" "currentSong s2 = Some (Song game)"
    "nextStepTime s2 = Fin (8106479329266893 / 2 ^ 54)" by blast
  from advanceStep_game_time [OF s2(2,3) r3]
  obtain s3 where s3: "advanceStep s2 = Inr s3"
    "nextStepTime s3 = Fin (5854679515581645 / 2 ^ 53)" by blast
  have "timeAfter (Suc (Suc (Suc 0))) playingGame = Some (Fin (5854679515581645 / 2 ^ 53))"
    by (simp only: timeAfter_Suc [OF s1(1)] timeAfter_Suc [OF s2(1)] timeAfter_Suc [OF s3(1)]
          timeAfter_0 s3(2))
  then have t: "timeAfter 3 playingGame = Some (Fin (5854679515581645 / 2 ^ 53))"
    by (simp only: numeral_3_eq_3)
  have m: "jsMul (Fin 3) (Fin (3602879701896397 / 2 ^ 54)) = Fin (1351079888211149 / 2 ^ 51)"
    by (rule jsMul_eval [of _ _ 0, OF _ _ fl64_game_3d]) simp_all
  have a: "jsAdd (Fin (3602879701896397 / 2 ^ 56)) (Fin (1351079888211149 / 2 ^ 51)) =
           Fin (2927339757790823 / 2 ^ 52)"
    by (rule jsAdd_eval [of _ _ 0, OF _ _ fl64_game_a0_3d]) simp_all
  have e: "jsAdd (nextStepTime playingGame)
     (jsMul (num 3) (jsDiv (jsDiv (num 60) (songTempo (Song game))) (num 2))) =
     Fin (2927339757790823 / 2 ^ 52)"
    by (simp only: playingGame_time secondsPerStep_game num_3 m a)
  have n: "(5854679515581645 / 2 ^ 53 :: real) \<noteq>
     3602879701896397 / 2 ^ 56 + 3 * (60 / tempo game / 2)"
    "Fin (5854679515581645 / 2 ^ 53) \<noteq> Fin (2927339757790823 / 2 ^ 52)"
    "0 < tempo game"
    by (simp_all add: song_tempos_raw)
  show ?thesis using playingGame_fields(3) playingGame_time t e n by blast
qed

text \<open>
  C1, amended. For every song of the table that is loaded and every number of steps
  \<open>k\<close>, \<open>k\<close> calls of \<open>advanceStep\<close> return. With the next-step time \<open>a\<close> at the start
  and all the sums below \<open>2 ^ E\<close> in magnitude, the next-step time is then within
  \<open>k * 2 ^ E / 2 ^ 53\<close> of \<open>a + k * (60 / tempo / 2)\<close>: each call adds the fixed step
  duration with one rounding, and no other error enters. The step index is then
  \<open>(i + k) mod n\<close>, for the step index \<open>i\<close> at the start and the loop length \<open>n\<close>, the
  length of \<open>pulse1\<close>; that is \<open>k mod n\<close> from step index 0. (A step index at or beyond
  \<open>n\<close> restarts at 0 with the first call.)
\<close>

theorem advanceStep_k_steps:
  assumes "SONGS X = Some song" and "currentSong s = Some (Song song)"
    and "nextStepTime s = Fin a"
    and "\<bar>a\<bar> + real k * (60 / tempo song / 2 + 2 ^ E / 2 ^ 53) \<le> 2 ^ E" and "E \<le> 1023"
  shows "(\<exists>b. timeAfter k s = Some (Fin b) \<and>
              \<bar>b - (a + real k * (60 / tempo song / 2))\<bar> \<le> real k * (2 ^ E / 2 ^ 53)) \<and>
         stepAfter k s =
           Some (if currentStep s < length (pulse1 song)
                 then (currentStep s + k) mod length (pulse1 song)
                 else if k = 0 then currentStep s else (k - 1) mod length (pulse1 song))"
proof -
  from advanceSteps_time [OF assms] obtain s' b where
    t: "advanceSteps k s = Inr s'" "nextStepTime s' = Fin b"
      "\<bar>b - (a + real k * (60 / tempo song / 2))\<bar> \<le> real k * (2 ^ E / 2 ^ 53)"
    by blast
  from advanceSteps_index [OF assms(2) SONGS_nonempty [OF assms(1)], of k] t(1)
  have i: "currentStep s' =
             (if currentStep s < length (pulse1 song)
              then (currentStep s + k) mod length (pulse1 song)
              else if k = 0 then currentStep s else (k - 1) mod length (pulse1 song))"
    by auto
  have "timeAfter k s = Some (Fin b)" using t(1,2) by (simp add: timeAfter_def)
  moreover have "stepAfter k s = Some (currentStep s')" using t(1) by (simp add: stepAfter_def)
  ultimately show ?thesis using t(3) i by auto
qed

theorem advanceStep_k_steps_witness:
  "SONGS ''game'' = Some game \<and> currentSong playingGame = Some (Song game) \<and>
   nextStepTime playingGame = Fin (3602879701896397 / 2 ^ 56) \<and>
   \<bar>3602879701896397 / 2 ^ 56\<bar> + real 10000 * (60 / tempo game / 2 + 2 ^ 11 / 2 ^ 53)
     \<le> (2::real) ^ 11 \<and>
   (\<exists>b. timeAfter 10000 playingGame = Some (Fin b) \<and>
        \<bar>b - (3602879701896397 / 2 ^ 56 + 2000)\<bar> \<le> 10000 * (2 ^ 11 / 2 ^ 53)) \<and>
   stepAfter 10000 playingGame = Some 16"
proof -
  have h: "\<bar>3602879701896397 / 2 ^ 56\<bar> + real 10000 * (60 / tempo game / 2 + 2 ^ 11 / 2 ^ 53)
     \<le> (2::real) ^ 11"
    by (simp add: song_tempos_raw)
  have e: "(11::nat) \<le> 1023" by simp
  from advanceStep_k_steps [OF SONGS_game playingGame_fields(3) playingGame_time h e]
    SONGS_game playingGame_fields(3) playingGame_time h
  show ?thesis
    by (simp add: song_tempos_raw game_lengths playingGame_fields)
qed

subsection \<open>The loop period\<close>

text \<open>
  C9. For every track of the song table (game, menu, score, fail), the four step
  sequences pulse1, pulse2, triangle and noise have the same number of steps, and that
  number is the loop period: from step index 0, \<open>advanceStep\<close> counts the step index up
  through every position below it and is back at 0 after that many calls.
\<close>

theorem SONGS_equal_lengths:
  assumes "SONGS trackName = Some song"
  shows "length (pulse1 song) = length (pulse2 song) \<and>
         length (pulse2 song) = length (triangle song) \<and>
         length (triangle song) = length (noise song) \<and>
         (currentSong s = Some (Song song) \<and> currentStep s = 0 \<longrightarrow>
            (\<forall>k < length (pulse1 song). stepAfter k s = Some k) \<and>
            stepAfter (length (pulse1 song)) s = Some 0)"
proof -
  have period: "(\<forall>k < length (pulse1 song). stepAfter k s = Some k) \<and>
      stepAfter (length (pulse1 song)) s = Some 0"
    if song: "currentSong s = Some (Song song)" and zero: "currentStep s = 0"
  proof -
    have pos: "currentStep s < length (pulse1 song)"
      using SONGS_nonempty [OF assms] zero by simp
    have "stepAfter k s = Some (k mod length (pulse1 song))" for k
      using advanceSteps_index [OF song SONGS_nonempty [OF assms], of k] pos zero
      by (auto simp: stepAfter_def)
    then show ?thesis by simp
  qed
  with SONGS_equal_lengths_aux [OF assms] show ?thesis by blast
qed

theorem SONGS_equal_lengths_witness:
  "SONGS ''game'' = Some game \<and>
   length (pulse1 game) = length (pulse2 game) \<and>
   length (pulse2 game) = length (triangle game) \<and>
   length (triangle game) = length (noise game) \<and>
   currentSong playingGame = Some (Song game) \<and> currentStep playingGame = 0 \<and>
   (63::nat) < length (pulse1 game) \<and>
   stepAfter 63 playingGame = Some 63 \<and>
   stepAfter (length (pulse1 game)) playingGame = Some 0"
proof -
  have h: "currentSong playingGame = Some (Song game)" "currentStep playingGame = 0"
    "(63::nat) < length (pulse1 game)"
    by (simp_all add: playingGame_fields game_lengths)
  from SONGS_equal_lengths [OF SONGS_game, of playingGame] SONGS_game h
  show ?thesis by blast
qed

subsection \<open>The harmonics of a pulse wave\<close>

text \<open>
  The harmonics that the loop computes: at every index \<open>n\<close> from 1 to 63 the arrays hold
  \<open>sin (2 pi n d) / (n pi)\<close> and \<open>(1 - cos (2 pi n d)) / (n pi)\<close> as the double
  arithmetic yields them, rounded to single precision by the store.
\<close>

lemma pulseArrays_harmonic:
  assumes "1 \<le> n" "n < N"
  shows "arrayGet (fst (pulseArrays duty)) n =
           Some (fround (jsDiv
              (Math_sin (jsMul (jsMul (jsMul (num 2) (Fin Math_PI)) (Fin (real n))) duty))
              (jsMul (Fin (real n)) (Fin Math_PI))))"
    and "arrayGet (snd (pulseArrays duty)) n =
           Some (fround (jsDiv
              (jsSub (num 1)
                 (Math_cos (jsMul (jsMul (jsMul (num 2) (Fin Math_PI)) (Fin (real n))) duty)))
              (jsMul (Fin (real n)) (Fin Math_PI))))"
  using assms by (simp_all add: pulseArrays_eq arrayGet_def)

lemma num_duty_example: "\<bar>0.3 :: real\<bar> \<le> 1"
  by simp

text \<open>
  C2. \<open>createPulseWave\<close> allocates both arrays with \<open>N = 64\<close> elements, index 0 for the
  constant term, and its loop runs over \<open>n = 1, ..., N - 1\<close>: the wave has 63 harmonics.
  Harmonic 64, for which C2 states a value, is not computed, and index 64 is outside
  both arrays, for every duty cycle; \<open>real[0]\<close> and \<open>imag[0]\<close> are 0. For the duty cycle
  0.3 the wave is created from these arrays.
\<close>

theorem createPulseWave_harmonics:
  "N = 64 \<and>
   length (fst (pulseArrays duty)) = 64 \<and> length (snd (pulseArrays duty)) = 64 \<and>
   arrayGet (fst (pulseArrays duty)) 0 = Some (Fin 0) \<and>
   arrayGet (snd (pulseArrays duty)) 0 = Some (Fin 0) \<and>
   arrayGet (fst (pulseArrays duty)) 64 = None \<and>
   arrayGet (snd (pulseArrays duty)) 64 = None \<and>
   createPulseWave (num 0.3) = Inr (pulseArrays (num 0.3))"
proof -
  have "createPulseWave (num 0.3) = Inr (pulseArrays (num 0.3))"
    by (rule createPulseWave_num [OF num_duty_example])
  moreover have "arrayGet (fst (pulseArrays duty)) 0 = Some (Fin 0)"
    "arrayGet (snd (pulseArrays duty)) 0 = Some (Fin 0)"
    by (simp_all add: pulseArrays_eq arrayGet_def N_def)
  moreover have "arrayGet (fst (pulseArrays duty)) 64 = None"
    "arrayGet (snd (pulseArrays duty)) 64 = None"
    by (simp_all add: pulseArrays_length arrayGet_def N_def)
  ultimately show ?thesis by (simp add: pulseArrays_length N_def)
qed

subsection \<open>The step index and the loaded song\<close>

lemma stepInv_ready: "stepInv readyEngine"
  by (simp add: stepInv_def readyEngine_fields)

lemma stepInv_playingGame: "stepInv playingGame"
  by (simp add: stepInv_def playingGame_fields game_lengths)

text \<open>
  C10. The invariant holds of the initialised engine and of the engine playing a song,
  and \<open>play\<close> does not preserve it: \<open>play('constructor')\<close> loads the object inherited from
  \<open>Object.prototype\<close>, which has no \<open>pulse1\<close> array, flags the engine as playing and
  leaves with a \<open>TypeError\<close>. In the engine it leaves behind a song is loaded and the
  step index is in no loop; a step lookup there (\<open>scheduleStep\<close>) throws.
\<close>

theorem stepInv_broken_by_play:
  "stepInv readyEngine \<and> stepInv playingGame \<and>
   play ''constructor'' readyEngine = Inl (TypeError, afterPlay ''constructor'' readyEngine) \<and>
   play ''constructor'' playingGame = Inl (TypeError, afterPlay ''constructor'' playingGame) \<and>
   currentSong (afterPlay ''constructor'' readyEngine) = Some Inherited \<and>
   currentSong (afterPlay ''constructor'' playingGame) = Some Inherited \<and>
   isPlaying (afterPlay ''constructor'' readyEngine) \<and>
   currentStep (afterPlay ''constructor'' readyEngine) = 0 \<and>
   \<not> stepInv (afterPlay ''constructor'' readyEngine) \<and>
   \<not> stepInv (afterPlay ''constructor'' playingGame) \<and>
   scheduleStep 0 (Fin 0) (afterPlay ''constructor'' readyEngine) =
     Inl (TypeError, afterPlay ''constructor'' readyEngine)"
proof -
  have r: "\<not> (isPlaying readyEngine \<and> currentTrackName readyEngine = ''constructor'')"
    by (simp add: readyEngine_fields)
  have p: "\<not> (isPlaying playingGame \<and> currentTrackName playingGame = ''constructor'')"
    by (simp add: playingGame_fields)
  note a = play_inherited [OF readyEngine_fields(1,2) SONGS_get_constructor r]
  note b = play_inherited [OF playingGame_fields(1,2) SONGS_get_constructor p]
  have n: "\<not> stepInv (afterPlay ''constructor'' readyEngine)"
    "\<not> stepInv (afterPlay ''constructor'' playingGame)"
    unfolding afterPlay_def a b by (simp_all add: stepInv_def)
  have "scheduleStep 0 (Fin 0) (afterPlay ''constructor'' readyEngine) =
     Inl (TypeError, afterPlay ''constructor'' readyEngine)"
    unfolding afterPlay_def a by (simp add: scheduleStep_def)
  moreover have "currentSong (afterPlay ''constructor'' readyEngine) = Some Inherited"
    "currentSong (afterPlay ''constructor'' playingGame) = Some Inherited"
    "isPlaying (afterPlay ''constructor'' readyEngine)"
    "currentStep (afterPlay ''constructor'' readyEngine) = 0"
    "play ''constructor'' readyEngine = Inl (TypeError, afterPlay ''constructor'' readyEngine)"
    "play ''constructor'' playingGame = Inl (TypeError, afterPlay ''constructor'' playingGame)"
    unfolding afterPlay_def a b by simp_all
  ultimately show ?thesis using n stepInv_ready stepInv_playingGame by blast
qed

subsection \<open>The scheduler tick\<close>

lemma scheduleNoise_fields:
  "currentSong (scheduleNoise d v t s) = currentSong s"
  "nextStepTime (scheduleNoise d v t s) = nextStepTime s"
  "currentStep (scheduleNoise d v t s) = currentStep s"
  "audioCtx (scheduleNoise d v t s) = audioCtx s"
  "isPlaying (scheduleNoise d v t s) = isPlaying s"
  "currentTrackName (scheduleNoise d v t s) = currentTrackName s"
  by (simp_all add: scheduleNoise_def split: option.splits)

lemma scheduleStep_frame:
  assumes "currentSong s = Some (Song song)" "0 \<le> t"
  shows "\<exists>s1. scheduleStep st (Fin t) s = Inr s1 \<and>
           currentSong s1 = currentSong s \<and> nextStepTime s1 = nextStepTime s \<and>
           currentStep s1 = currentStep s \<and> audioCtx s1 = audioCtx s \<and>
           isPlaying s1 = isPlaying s \<and> currentTrackName s1 = currentTrackName s"
  using assms
  by (simp add: scheduleStep_def Let_def scheduleNoise_fields split: prod.splits)

text \<open>
  The end of the lookahead window as the loop test computes it, for a clock of at most
  \<open>2 ^ 32\<close> seconds: within \<open>2 powi -20\<close> of \<open>now + LOOKAHEAD\<close>.
\<close>

lemma lookahead_threshold:
  assumes "0 \<le> now" "now \<le> 2 ^ 32"
  shows "\<exists>ell. jsAdd (num now) (num LOOKAHEAD) = Fin ell \<and>
           \<bar>ell - (now + LOOKAHEAD)\<bar> \<le> 1 / 2 ^ 20 \<and> ell \<le> 2 ^ 33 - 1"
proof -
  have b: "\<bar>now\<bar> \<le> 2 ^ 32" using assms by simp
  from round64_bounded [OF b] obtain n' where
    n: "num now = Fin n'" "\<bar>n' - now\<bar> \<le> 2 ^ 32 / 2 ^ 54"
    by (auto simp: num_def)
  define la :: real where "la = 1080863910568919 / 2 ^ 53"
  have la: "\<bar>la - LOOKAHEAD\<bar> \<le> 1 / 2 ^ 50" "0 \<le> la" "la \<le> 1"
    by (simp_all add: la_def LOOKAHEAD_def)
  have c: "(2::real) ^ 32 / 2 ^ 54 \<le> 1 / 2 ^ 22" "(2::real) ^ 33 / 2 ^ 54 \<le> 1 / 2 ^ 21"
    "(1::real) / 2 ^ 22 + 1 / 2 ^ 21 + 1 / 2 ^ 50 \<le> 1 / 2 ^ 20"
    "(1::real) / 2 ^ 22 \<le> 1" "(2::real) ^ 32 + 2 \<le> 2 ^ 33"
    "(2::real) ^ 32 + 1 + 1 / 2 ^ 20 \<le> 2 ^ 33 - 1" "LOOKAHEAD \<le> 1"
    by (simp_all add: LOOKAHEAD_def)
  have m: "\<bar>n' + la\<bar> \<le> 2 ^ 33" using n(2) la(2,3) assms c(1,4,5) by linarith
  from round64_bounded [OF m] obtain ell where
    ell: "round64 (n' + la) = Fin ell" "\<bar>ell - (n' + la)\<bar> \<le> 2 ^ 33 / 2 ^ 54"
    by auto
  have e: "\<bar>ell - (now + LOOKAHEAD)\<bar> \<le> 1 / 2 ^ 20"
    using ell(2) n(2) la(1) c(1,2,3) by linarith
  have "ell \<le> 2 ^ 33 - 1" using e assms(2) c(6,7) by linarith
  moreover have "jsAdd (num now) (num LOOKAHEAD) = Fin ell"
    unfolding n(1) num_LOOKAHEAD using ell(1) by (simp add: la_def)
  ultimately show ?thesis using e by blast
qed

lemma scheduleLoop_exit:
  assumes "nextStepTime s = Fin a" "jsAdd (num now) (num LOOKAHEAD) = Fin ell" "ell \<le> a"
  shows "scheduleLoop now n s = Some (Inr (n, s))"
  using assms by (subst scheduleLoop.simps) simp

lemma scheduleLoop_iter:
  assumes "nextStepTime s = Fin a" "jsAdd (num now) (num LOOKAHEAD) = Fin ell" "a < ell"
    and "scheduleStep (currentStep s) (Fin a) s = Inr s1" "advanceStep s1 = Inr s2"
  shows "scheduleLoop now n s = scheduleLoop now (Suc n) s2"
  using assms by (subst scheduleLoop.simps) simp

text \<open>
  The loop for a song of the table, with times below \<open>2 ^ 33\<close>. Every step moves the
  next-step time on by the step duration, up to \<open>2 powi -20\<close>, so the loop ends: when
  \<open>k\<close> shortened steps reach the end of the window, the loop schedules \<open>m \<le> k\<close> steps.
  It stops at the first time that is not before the end of the window.
\<close>

lemma scheduleLoop_bounds:
  assumes "SONGS X = Some song" "jsAdd (num now) (num LOOKAHEAD) = Fin ell"
    and "ell \<le> 2 ^ 33 - 1"
  shows "currentSong s = Some (Song song) \<Longrightarrow> nextStepTime s = Fin a \<Longrightarrow> 0 \<le> a \<Longrightarrow>
         ell - a \<le> real k * (60 / tempo song / 2 - 1 / 2 ^ 20) \<Longrightarrow>
         \<exists>m s' b. scheduleLoop now n s = Some (Inr (n + m, s')) \<and>
           nextStepTime s' = Fin b \<and> m \<le> k \<and> ell \<le> b \<and>
           a + real m * (60 / tempo song / 2 - 1 / 2 ^ 20) \<le> b \<and>
           b \<le> a + real m * (60 / tempo song / 2 + 1 / 2 ^ 20) \<and>
           (0 < m \<longrightarrow> b < ell + (60 / tempo song / 2 + 1 / 2 ^ 20)) \<and>
           (m = 0 \<longrightarrow> s' = s) \<and>
           currentSong s' = currentSong s \<and> audioCtx s' = audioCtx s \<and>
           isPlaying s' = isPlaying s"
proof (induction k arbitrary: s a n)
  case 0
  then have "ell \<le> a" by simp
  from scheduleLoop_exit [OF "0.prems"(2) assms(2) this, of n] "0.prems"(2) \<open>ell \<le> a\<close>
  show ?case by simp
next
  case (Suc k)
  define D where "D = 60 / tempo song / 2"
  define u :: real where "u = 1 / 2 ^ 20"
  have D: "1/5 \<le> D" "D \<le> 3/8"
    using tempo_table [OF assms(1)] unfolding D_def by (simp_all add: field_simps)
  have u: "0 < u" "u \<le> 1/10" "(2::real) ^ 33 / 2 ^ 53 = u" unfolding u_def by simp_all
  show ?case
  proof (cases "a < ell")
    case False
    then have "ell \<le> a" by simp
    from scheduleLoop_exit [OF Suc.prems(2) assms(2) this, of n] Suc.prems(2) \<open>ell \<le> a\<close>
    show ?thesis by simp
  next
    case True
    from scheduleStep_frame [OF Suc.prems(1,3), of "currentStep s"]
    obtain s1 where s1: "scheduleStep (currentStep s) (Fin a) s = Inr s1"
      and f1: "currentSong s1 = currentSong s" "nextStepTime s1 = nextStepTime s"
        "audioCtx s1 = audioCtx s" "isPlaying s1 = isPlaying s"
      by blast
    have c1: "currentSong s1 = Some (Song song)" "nextStepTime s1 = Fin a"
      using f1 Suc.prems(1,2) by simp_all
    have "\<bar>a\<bar> + (D + u) \<le> 2 ^ 33" using True assms(3) Suc.prems(3) D u(1,2) by linarith
    then have mag: "\<bar>a\<bar> + (60 / tempo song / 2 + 2 ^ 33 / 2 ^ 53) \<le> 2 ^ 33"
      unfolding D_def u(3) .
    have e33: "(33::nat) \<le> 1023" by simp
    from advanceStep_table [OF assms(1) c1 mag e33]
    obtain s2 b1 where s2: "advanceStep s1 = Inr s2" "nextStepTime s2 = Fin b1"
      and t2: "\<bar>b1 - (a + D)\<bar> \<le> u"
      and f2: "currentSong s2 = currentSong s1" "audioCtx s2 = audioCtx s1"
        "isPlaying s2 = isPlaying s1"
      unfolding D_def [symmetric] u(3) by blast
    have c2: "currentSong s2 = Some (Song song)" using f2 c1 by simp
    have b1pos: "0 \<le> b1" using t2 Suc.prems(3) D u by linarith
    have "real (Suc k) * (D - u) = real k * (D - u) + (D - u)" by (simp add: algebra_simps)
    then have "ell - a \<le> real k * (D - u) + (D - u)"
      using Suc.prems(4) unfolding D_def u_def by simp
    then have rest: "ell - b1 \<le> real k * (D - u)" using t2 by linarith
    from Suc.IH [OF c2 s2(2) b1pos rest [unfolded D_def u_def], of "Suc n"]
    obtain m s' b where r: "scheduleLoop now (Suc n) s2 = Some (Inr (Suc n + m, s'))"
      and g: "nextStepTime s' = Fin b" "m \<le> k" "ell \<le> b"
        "b1 + real m * (D - u) \<le> b" "b \<le> b1 + real m * (D + u)"
        "0 < m \<longrightarrow> b < ell + (D + u)" "m = 0 \<longrightarrow> s' = s2"
        "currentSong s' = currentSong s2" "audioCtx s' = audioCtx s2"
        "isPlaying s' = isPlaying s2"
      unfolding D_def [symmetric] u_def [symmetric] by blast
    have loop: "scheduleLoop now n s = Some (Inr (n + Suc m, s'))"
      using scheduleLoop_iter [OF Suc.prems(2) assms(2) True s1 s2(1), of n] r by simp
    define M where "M = real m * (D - u)"
    define M' where "M' = real m * (D + u)"
    have lo: "a + real (Suc m) * (D - u) \<le> b"
    proof -
      have "real (Suc m) * (D - u) = M + (D - u)" unfolding M_def by (simp add: algebra_simps)
      moreover have "b1 + M \<le> b" using g(4) unfolding M_def .
      ultimately show ?thesis using t2 by linarith
    qed
    have hi: "b \<le> a + real (Suc m) * (D + u)"
    proof -
      have "real (Suc m) * (D + u) = M' + (D + u)" unfolding M'_def by (simp add: algebra_simps)
      moreover have "b \<le> b1 + M'" using g(5) unfolding M'_def .
      ultimately show ?thesis using t2 by linarith
    qed
    have last: "b < ell + (D + u)"
    proof (cases "m = 0")
      case True
      with g(7) s2(2) g(1) have "b = b1" by simp
      then show ?thesis using t2 \<open>a < ell\<close> by linarith
    next
      case False
      then show ?thesis using g(6) by simp
    qed
    have frame: "currentSong s' = currentSong s" "audioCtx s' = audioCtx s"
      "isPlaying s' = isPlaying s"
      using g(8,9,10) f2 f1 by simp_all
    have "Suc m \<le> Suc k" using g(2) by simp
    with loop g(1,3) lo hi last frame show ?thesis
      unfolding D_def u_def by (intro exI [of _ "Suc m"] exI [of _ s'] exI [of _ b]) simp
  qed
qed

lemma schedule_idle:
  assumes "\<not> isPlaying s \<or> audioCtx s = None \<or> currentSong s = None"
  shows "schedule s = Some (Inr (0, s))"
  using assms by (auto simp: schedule_def split: option.splits)

text \<open>
  A call of \<open>schedule\<close> on an engine that plays a song of the table, started by \<open>play\<close>
  (the next-step time is finite and not negative), at a clock of at most \<open>2 ^ 32\<close>
  seconds: the call returns.
\<close>

lemma schedule_playing:
  assumes "SONGS X = Some song" "audioCtx s = Some ctx" "isPlaying s"
    and "currentSong s = Some (Song song)" "nextStepTime s = Fin a" "0 \<le> a"
    and "0 \<le> currentTime ctx" "currentTime ctx \<le> 2 ^ 32"
  shows "\<exists>ell m s' b. jsAdd (num (currentTime ctx)) (num LOOKAHEAD) = Fin ell \<and>
           \<bar>ell - (currentTime ctx + LOOKAHEAD)\<bar> \<le> 1 / 2 ^ 20 \<and>
           schedule s = Some (Inr (m, s')) \<and> nextStepTime s' = Fin b \<and> ell \<le> b \<and>
           a + real m * (60 / tempo song / 2 - 1 / 2 ^ 20) \<le> b \<and>
           b \<le> a + real m * (60 / tempo song / 2 + 1 / 2 ^ 20) \<and>
           (\<forall>k. ell - a \<le> real k * (60 / tempo song / 2 - 1 / 2 ^ 20) \<longrightarrow> m \<le> k) \<and>
           (m = 0 \<longrightarrow> s' = s) \<and>
           currentSong s' = currentSong s \<and> audioCtx s' = audioCtx s \<and>
           isPlaying s' = isPlaying s"
proof -
  define g where "g = 60 / tempo song / 2 - 1 / 2 ^ 20"
  have "1/5 \<le> 60 / tempo song / 2"
    using tempo_table [OF assms(1)] by (simp add: field_simps)
  then have gpos: "0 < g" unfolding g_def by simp
  from lookahead_threshold [OF assms(7,8)] obtain ell where
    ell: "jsAdd (num (currentTime ctx)) (num LOOKAHEAD) = Fin ell"
      "\<bar>ell - (currentTime ctx + LOOKAHEAD)\<bar> \<le> 1 / 2 ^ 20" "ell \<le> 2 ^ 33 - 1"
    by blast
  have sch: "schedule s = scheduleLoop (currentTime ctx) 0 s"
    using assms(2,3,4) by (simp add: schedule_def)
  note loop = scheduleLoop_bounds [OF assms(1) ell(1,3) assms(4,5,6), where n = 0]
  define k0 where "k0 = nat \<lceil>(ell - a) / g\<rceil>"
  have "(ell - a) / g \<le> real k0" unfolding k0_def by linarith
  then have "ell - a \<le> real k0 * g" using gpos by (simp add: field_simps)
  from loop [OF this [unfolded g_def]] obtain m s' b where
    r: "scheduleLoop (currentTime ctx) 0 s = Some (Inr (m, s'))"
      "nextStepTime s' = Fin b" "ell \<le> b"
      "a + real m * (60 / tempo song / 2 - 1 / 2 ^ 20) \<le> b"
      "b \<le> a + real m * (60 / tempo song / 2 + 1 / 2 ^ 20)"
      "m = 0 \<longrightarrow> s' = s"
      "currentSong s' = currentSong s" "audioCtx s' = audioCtx s" "isPlaying s' = isPlaying s"
    by auto
  have "m \<le> k" if "ell - a \<le> real k * (60 / tempo song / 2 - 1 / 2 ^ 20)" for k
  proof -
    from loop [OF that] obtain m' s'' where
      "scheduleLoop (currentTime ctx) 0 s = Some (Inr (m', s''))" "m' \<le> k" by auto
    with r(1) show ?thesis by simp
  qed
  with ell(1,2) sch r show ?thesis by auto
qed

text \<open>
  With the window full at the previous call and the call no later than \<open>LOOKAHEAD\<close>
  after it, \<open>\<lceil>LOOKAHEAD / (60 / tempo / 2)\<rceil> + 1\<close> shortened steps reach the end of the
  window.
\<close>

lemma window_steps:
  assumes "SONGS X = Some song"
    and "\<bar>ell - (now + LOOKAHEAD)\<bar> \<le> 1 / 2 ^ 20" "\<bar>ellp - (prev + LOOKAHEAD)\<bar> \<le> 1 / 2 ^ 20"
    and "ellp \<le> a" "now \<le> prev + LOOKAHEAD"
  shows "ell - a \<le> real (nat \<lceil>LOOKAHEAD / (60 / tempo song / 2)\<rceil> + 1)
                       * (60 / tempo song / 2 - 1 / 2 ^ 20)"
proof -
  define D where "D = 60 / tempo song / 2"
  define u :: real where "u = 1 / 2 ^ 20"
  define K where "K = real (nat \<lceil>LOOKAHEAD / D\<rceil> + 1)"
  have D: "1/5 \<le> D" using tempo_table [OF assms(1)] unfolding D_def by (simp add: field_simps)
  have u: "0 < u" "4 * u \<le> 1/5" unfolding u_def by simp_all
  have LA: "0 \<le> LOOKAHEAD" "LOOKAHEAD \<le> 1/5" by (simp_all add: LOOKAHEAD_def)
  have q: "0 \<le> LOOKAHEAD / D" "LOOKAHEAD / D \<le> 1"
    using LA D by (simp_all add: field_simps)
  have "LOOKAHEAD / D \<le> real_of_int \<lceil>LOOKAHEAD / D\<rceil>" by linarith
  moreover have "0 \<le> \<lceil>LOOKAHEAD / D\<rceil>" using q(1) by (simp add: ceiling_le_iff [symmetric])
  ultimately have K: "LOOKAHEAD / D + 1 \<le> K" unfolding K_def by simp
  have gpos: "0 \<le> D - u" using D u by linarith
  have "(LOOKAHEAD / D + 1) * (D - u) \<le> K * (D - u)"
    using K gpos by (rule mult_right_mono)
  moreover have "(LOOKAHEAD / D + 1) * (D - u) = LOOKAHEAD + D - u * (LOOKAHEAD / D) - u"
    using D by (simp add: field_simps)
  moreover have "u * (LOOKAHEAD / D) \<le> u * 1" using q(2) u(1) by (intro mult_left_mono) simp_all
  ultimately have "LOOKAHEAD + D - 2 * u \<le> K * (D - u)" by linarith
  moreover have "ell - a \<le> LOOKAHEAD + 2 * u"
    using assms(2,3,4,5) unfolding u_def by linarith
  ultimately have "ell - a \<le> K * (D - u)" using D u by linarith
  then show ?thesis unfolding K_def D_def u_def .
qed

text \<open>
  C8, amended. For every song of the table that is loaded, in a playing engine started
  by \<open>play\<close> (the next-step time is finite and not negative) and with the audio clock at
  no more than \<open>2 ^ 32\<close> seconds, a call of \<open>schedule\<close> returns: its loop ends. When the
  lookahead window was full at the previous call, at clock \<open>prev\<close> (the loop test was
  false there), and the call comes no later than \<open>LOOKAHEAD\<close> after the previous one, it
  schedules at most \<open>\<lceil>LOOKAHEAD / (60 / tempo / 2)\<rceil> + 1\<close> steps.
\<close>

theorem schedule_terminates_bounded:
  assumes "SONGS X = Some song" and "audioCtx s = Some ctx" and "isPlaying s"
    and "currentSong s = Some (Song song)" and "nextStepTime s = Fin a" and "0 \<le> a"
    and "0 \<le> currentTime ctx" and "currentTime ctx \<le> 2 ^ 32"
  shows "\<exists>n s'. schedule s = Some (Inr (n, s')) \<and>
           (0 \<le> prev \<and> prev \<le> currentTime ctx \<and>
            \<not> jsLess (Fin a) (jsAdd (num prev) (num LOOKAHEAD)) \<and>
            currentTime ctx \<le> prev + LOOKAHEAD \<longrightarrow>
              n \<le> nat \<lceil>LOOKAHEAD / (60 / tempo song / 2)\<rceil> + 1)"
proof -
  from schedule_playing [OF assms] obtain ell m s' where
    r: "\<bar>ell - (currentTime ctx + LOOKAHEAD)\<bar> \<le> 1 / 2 ^ 20"
      "schedule s = Some (Inr (m, s'))"
      "\<forall>k. ell - a \<le> real k * (60 / tempo song / 2 - 1 / 2 ^ 20) \<longrightarrow> m \<le> k"
    by blast
  have "m \<le> nat \<lceil>LOOKAHEAD / (60 / tempo song / 2)\<rceil> + 1"
    if p: "0 \<le> prev" "prev \<le> currentTime ctx"
      "\<not> jsLess (Fin a) (jsAdd (num prev) (num LOOKAHEAD))"
      "currentTime ctx \<le> prev + LOOKAHEAD"
  proof -
    have "prev \<le> 2 ^ 32" using p(2) assms(8) by simp
    from lookahead_threshold [OF p(1) this] obtain ellp where
      ellp: "jsAdd (num prev) (num LOOKAHEAD) = Fin ellp"
        "\<bar>ellp - (prev + LOOKAHEAD)\<bar> \<le> 1 / 2 ^ 20"
      by blast
    have "ellp \<le> a" using p(3) unfolding ellp(1) by simp
    from window_steps [OF assms(1) r(1) ellp(2) this p(4)] r(3) show ?thesis by blast
  qed
  with r(2) show ?thesis by blast
qed

lemma advanceStep_frame:
  assumes "currentSong s = Some (Song song)" "advanceStep s = Inr s'"
  shows "audioCtx s' = audioCtx s" "isPlaying s' = isPlaying s"
    "currentSong s' = currentSong s" "currentTrackName s' = currentTrackName s"
  using assms(2) unfolding advanceStep_song [OF assms(1)] by auto

text \<open>
  The first timer call after \<open>play('game')\<close>, at 25 ms: one step is scheduled, and the
  next-step time is 0.25, beyond the end of the window.
\<close>

lemma firstTick_fields:
  "schedule (clockAt 0.025 playingGame) = Some (Inr (1, firstTick))"
  "audioCtx firstTick = Some (exampleCtx\<lparr>currentTime := 0.025\<rparr>)"
  "isPlaying firstTick"
  "currentSong firstTick = Some (Song game)"
  "nextStepTime firstTick = Fin (1 / 2 ^ 2)"
proof -
  let ?s = "clockAt 0.025 playingGame"
  have a: "audioCtx ?s = Some (exampleCtx\<lparr>currentTime := 0.025\<rparr>)"
    and p: "isPlaying ?s" and c: "currentSong ?s = Some (Song game)"
    and t: "nextStepTime ?s = Fin (3602879701896397 / 2 ^ 56)"
    by (simp_all add: clockAt_fields playingGame_fields playingGame_time)
  have "(0::real) \<le> 0.025" "(0.025::real) \<le> 2 ^ 32" by simp_all
  from lookahead_threshold [OF this] obtain ell where
    ell: "jsAdd (num 0.025) (num LOOKAHEAD) = Fin ell"
      "\<bar>ell - (0.025 + LOOKAHEAD)\<bar> \<le> 1 / 2 ^ 20"
    by blast
  have w: "(3602879701896397 / 2 ^ 56 :: real) < 0.025 + LOOKAHEAD - 1 / 2 ^ 20"
    "(0.025 + LOOKAHEAD + 1 / 2 ^ 20 :: real) \<le> 1 / 2 ^ 2"
    "(0::real) \<le> 3602879701896397 / 2 ^ 56"
    by (simp_all add: LOOKAHEAD_def)
  have lt: "3602879701896397 / 2 ^ 56 < ell" using ell(2) w(1) by linarith
  have ge: "ell \<le> 1 / 2 ^ 2" using ell(2) w(2) by linarith
  from scheduleStep_frame [OF c w(3), of "currentStep ?s"]
  obtain s1 where s1: "scheduleStep (currentStep ?s) (Fin (3602879701896397 / 2 ^ 56)) ?s = Inr s1"
    and f1: "currentSong s1 = currentSong ?s" "nextStepTime s1 = nextStepTime ?s"
      "audioCtx s1 = audioCtx ?s" "isPlaying s1 = isPlaying ?s"
    by blast
  have c1: "currentSong s1 = Some (Song game)"
    "nextStepTime s1 = Fin (3602879701896397 / 2 ^ 56)"
    using f1 c t by simp_all
  have r1: "round64 (3602879701896397 / 2 ^ 56 + 3602879701896397 / 2 ^ 54) = Fin (1 / 2 ^ 2)"
    by (rule round64_eval [of _ 0, OF _ _ fl64_game_step1]) simp_all
  from advanceStep_game_time [OF c1 r1]
  obtain s2 where s2: "advanceStep s1 = Inr s2" "currentSong s2 = Some (Song game)"
    "nextStepTime s2 = Fin (1 / 2 ^ 2)" by blast
  note f2 = advanceStep_frame [OF c1(1) s2(1)]
  have "scheduleLoop 0.025 0 ?s = scheduleLoop 0.025 (Suc 0) s2"
    by (rule scheduleLoop_iter [OF t ell(1) lt s1 s2(1)])
  also have "\<dots> = Some (Inr (Suc 0, s2))"
    by (rule scheduleLoop_exit [OF s2(3) ell(1) ge])
  finally have loop: "scheduleLoop 0.025 0 ?s = Some (Inr (1, s2))" by simp
  have sch: "schedule ?s = Some (Inr (1, s2))"
    using a p c loop by (simp add: schedule_def)
  then have e: "firstTick = s2" by (simp add: firstTick_def timerFires_def)
  show "schedule (clockAt 0.025 playingGame) = Some (Inr (1, firstTick))" using sch e by simp
  show "audioCtx firstTick = Some (exampleCtx\<lparr>currentTime := 0.025\<rparr>)"
    using e f2(1) f1(3) a by simp
  show "isPlaying firstTick" using e f2(2) f1(4) p by simp
  show "currentSong firstTick = Some (Song game)" using e s2(2) by simp
  show "nextStepTime firstTick = Fin (1 / 2 ^ 2)" using e s2(3) by simp
qed

lemma window_full_firstTick:
  "\<not> jsLess (Fin (1 / 2 ^ 2)) (jsAdd (num 0.025) (num LOOKAHEAD))"
proof -
  have "(0::real) \<le> 0.025" "(0.025::real) \<le> 2 ^ 32" by simp_all
  from lookahead_threshold [OF this] obtain ell where
    ell: "jsAdd (num 0.025) (num LOOKAHEAD) = Fin ell"
      "\<bar>ell - (0.025 + LOOKAHEAD)\<bar> \<le> 1 / 2 ^ 20"
    by blast
  have "(0.025 + LOOKAHEAD + 1 / 2 ^ 20 :: real) \<le> 1 / 2 ^ 2" by (simp add: LOOKAHEAD_def)
  then have "ell \<le> 1 / 2 ^ 2" using ell(2) by linarith
  then show ?thesis unfolding ell(1) by simp
qed

theorem schedule_terminates_bounded_witness:
  "SONGS ''game'' = Some game \<and>
   audioCtx onTimeTick = Some (exampleCtx\<lparr>currentTime := 0.05\<rparr>) \<and> isPlaying onTimeTick \<and>
   currentSong onTimeTick = Some (Song game) \<and> nextStepTime onTimeTick = Fin (1 / 2 ^ 2) \<and>
   (0::real) \<le> 1 / 2 ^ 2 \<and>
   0 \<le> currentTime (exampleCtx\<lparr>currentTime := 0.05\<rparr>) \<and>
   currentTime (exampleCtx\<lparr>currentTime := 0.05\<rparr>) \<le> 2 ^ 32 \<and>
   (0::real) \<le> 0.025 \<and> 0.025 \<le> currentTime (exampleCtx\<lparr>currentTime := 0.05\<rparr>) \<and>
   \<not> jsLess (Fin (1 / 2 ^ 2)) (jsAdd (num 0.025) (num LOOKAHEAD)) \<and>
   currentTime (exampleCtx\<lparr>currentTime := 0.05\<rparr>) \<le> 0.025 + LOOKAHEAD \<and>
   (\<exists>n. stepsScheduled onTimeTick = Some n \<and>
        n \<le> nat \<lceil>LOOKAHEAD / (60 / tempo game / 2)\<rceil> + 1)"
proof -
  have a: "audioCtx onTimeTick = Some (exampleCtx\<lparr>currentTime := 0.05\<rparr>)"
    and p: "isPlaying onTimeTick" and c: "currentSong onTimeTick = Some (Song game)"
    and t: "nextStepTime onTimeTick = Fin (1 / 2 ^ 2)"
    by (simp_all add: onTimeTick_def clockAt_fields firstTick_fields)
  have h: "(0::real) \<le> 1 / 2 ^ 2" "0 \<le> currentTime (exampleCtx\<lparr>currentTime := 0.05\<rparr>)"
    "currentTime (exampleCtx\<lparr>currentTime := 0.05\<rparr>) \<le> 2 ^ 32"
    by simp_all
  have w: "(0::real) \<le> 0.025" "0.025 \<le> currentTime (exampleCtx\<lparr>currentTime := 0.05\<rparr>)"
    "currentTime (exampleCtx\<lparr>currentTime := 0.05\<rparr>) \<le> 0.025 + LOOKAHEAD"
    by (simp_all add: LOOKAHEAD_def)
  from schedule_terminates_bounded [OF SONGS_game a p c t h, of "0.025"]
    w window_full_firstTick
  have "\<exists>n. stepsScheduled onTimeTick = Some n \<and>
        n \<le> nat \<lceil>LOOKAHEAD / (60 / tempo game / 2)\<rceil> + 1"
    by (auto simp: stepsScheduled_def)
  with SONGS_game a p c t h w window_full_firstTick show ?thesis by blast
qed

text \<open>The late timer call schedules 50 steps.\<close>

lemma lateTick_steps: "stepsScheduled lateTick = Some 50"
proof -
  have a: "audioCtx lateTick = Some (exampleCtx\<lparr>currentTime := 10.025\<rparr>)"
    and p: "isPlaying lateTick" and c: "currentSong lateTick = Some (Song game)"
    and t: "nextStepTime lateTick = Fin (1 / 2 ^ 2)"
    by (simp_all add: lateTick_def clockAt_fields firstTick_fields)
  have h: "(0::real) \<le> 1 / 2 ^ 2" "0 \<le> currentTime (exampleCtx\<lparr>currentTime := 10.025\<rparr>)"
    "currentTime (exampleCtx\<lparr>currentTime := 10.025\<rparr>) \<le> 2 ^ 32"
    by simp_all
  from schedule_playing [OF SONGS_game a p c t h] obtain ell m s' b where
    r: "\<bar>ell - (10.025 + LOOKAHEAD)\<bar> \<le> 1 / 2 ^ 20"
      "schedule lateTick = Some (Inr (m, s'))" "ell \<le> b"
      "b \<le> 1 / 2 ^ 2 + real m * (60 / tempo game / 2 + 1 / 2 ^ 20)"
      "\<forall>k. ell - 1 / 2 ^ 2 \<le> real k * (60 / tempo game / 2 - 1 / 2 ^ 20) \<longrightarrow> m \<le> k"
    by auto
  define G :: real where "G = 60 / tempo game / 2 + 1 / 2 ^ 20"
  have G: "0 \<le> G" "1 / 2 ^ 2 + 49 * G < 10.025 + LOOKAHEAD - 1 / 2 ^ 20"
    unfolding G_def by (simp_all add: song_tempos_raw LOOKAHEAD_def)
  have "10.025 + LOOKAHEAD + 1 / 2 ^ 20 - 1 / 2 ^ 2
          \<le> real 50 * (60 / tempo game / 2 - 1 / 2 ^ 20)"
    by (simp add: song_tempos_raw LOOKAHEAD_def)
  then have "ell - 1 / 2 ^ 2 \<le> real 50 * (60 / tempo game / 2 - 1 / 2 ^ 20)"
    using r(1) by linarith
  with r(5) have le: "m \<le> 50" by blast
  have ge: "50 \<le> m"
  proof (rule ccontr)
    assume "\<not> 50 \<le> m"
    then have "real m \<le> 49" by simp
    then have "real m * G \<le> 49 * G" using G(1) by (rule mult_right_mono)
    moreover have "b \<le> 1 / 2 ^ 2 + real m * G" using r(4) unfolding G_def .
    ultimately show False using r(1,3) G(2) by linarith
  qed
  from le ge have "m = 50" by simp
  with r(2) show ?thesis by (simp add: stepsScheduled_def)
qed

text \<open>
  The far clock. \<open>play\<close> at \<open>2 ^ 51\<close> seconds sets the next-step time to \<open>2 ^ 51\<close>: doubles
  are half a second apart there, and the 50 ms are lost. At the timer call half a second
  later the window ends at \<open>2 ^ 51 + 1/2\<close>, so the loop is entered, and a step does not
  move the next-step time: \<open>2 ^ 51 + 0.2\<close> rounds to \<open>2 ^ 51\<close>.
\<close>

lemma fl64_far: "fl64 (2 ^ 51) = 2 ^ 51"
  using fl64_eval_big [of 51 "2 ^ 51"]
  by (simp add: roundEven_def Let_def)

lemma fl64_far_play: "fl64 (2 ^ 51 + 3602879701896397 / 2 ^ 56) = 2 ^ 51"
  using fl64_eval_big [of 51 "2 ^ 51 + 3602879701896397 / 2 ^ 56"]
  by (simp add: roundEven_def Let_def)

lemma fl64_far_step: "fl64 (2 ^ 51 + 3602879701896397 / 2 ^ 54) = 2 ^ 51"
  using fl64_eval_big [of 51 "2 ^ 51 + 3602879701896397 / 2 ^ 54"]
  by (simp add: roundEven_def Let_def)

lemma fl64_far_clock: "fl64 (2 ^ 51 + 1 / 2) = 2 ^ 51 + 1 / 2"
  using fl64_eval_big [of 51 "2 ^ 51 + 1 / 2"]
  by (simp add: roundEven_def Let_def)

lemma fl64_far_window: "fl64 (2 ^ 51 + 1 / 2 + 1080863910568919 / 2 ^ 53) = 2 ^ 51 + 1 / 2"
  using fl64_eval_big [of 51 "2 ^ 51 + 1 / 2 + 1080863910568919 / 2 ^ 53"]
  by (simp add: roundEven_def Let_def)

lemma far_play_time: "jsAdd (num (2 ^ 51)) (num 0.05) = Fin (2 ^ 51)"
proof -
  have n: "num (2 ^ 51) = Fin (2 ^ 51)"
    by (rule num_eval [of _ 51, OF _ _ fl64_far]) simp_all
  have a: "jsAdd (Fin (2 ^ 51)) (Fin (3602879701896397 / 2 ^ 56)) = Fin (2 ^ 51)"
    by (rule jsAdd_eval [of _ _ 52, OF _ _ fl64_far_play]) simp_all
  show ?thesis by (simp only: n num_005 a)
qed

lemma far_window: "jsAdd (num (2 ^ 51 + 1 / 2)) (num LOOKAHEAD) = Fin (2 ^ 51 + 1 / 2)"
proof -
  have n: "num (2 ^ 51 + 1 / 2) = Fin (2 ^ 51 + 1 / 2)"
    by (rule num_eval [of _ 52, OF _ _ fl64_far_clock]) simp_all
  have a: "jsAdd (Fin (2 ^ 51 + 1 / 2)) (Fin (1080863910568919 / 2 ^ 53)) = Fin (2 ^ 51 + 1 / 2)"
    by (rule jsAdd_eval [of _ _ 52, OF _ _ fl64_far_window]) simp_all
  show ?thesis by (simp only: n num_LOOKAHEAD a)
qed

lemma far_step: "round64 (2 ^ 51 + 3602879701896397 / 2 ^ 54) = Fin (2 ^ 51)"
  by (rule round64_eval [of _ 52, OF _ _ fl64_far_step]) simp_all

lemma farTick_fields:
  "audioCtx farTick = Some (exampleCtx\<lparr>currentTime := 2 ^ 51 + 1 / 2\<rparr>)"
  "isPlaying farTick"
  "currentSong farTick = Some (Song game)"
  "nextStepTime farTick = Fin (2 ^ 51)"
proof -
  let ?r = "clockAt (2 ^ 51) readyEngine"
  have r: "audioCtx ?r = Some (exampleCtx\<lparr>currentTime := 2 ^ 51\<rparr>)"
    "masterGain ?r = Some \<lparr>gain = \<lparr>pvalue = 0.105, events = []\<rparr>\<rparr>"
    "\<not> (isPlaying ?r \<and> currentTrackName ?r = ''game'')"
    by (simp_all add: clockAt_fields readyEngine_fields)
  note p = play_song [OF r(1,2) SONGS_game r(3)]
  show "audioCtx farTick = Some (exampleCtx\<lparr>currentTime := 2 ^ 51 + 1 / 2\<rparr>)"
    unfolding farTick_def farPlaying_def afterPlay_def p
    by (simp add: clockAt_fields exampleCtx_def)
  show "isPlaying farTick"
    unfolding farTick_def farPlaying_def afterPlay_def p by (simp add: clockAt_fields)
  show "currentSong farTick = Some (Song game)"
    unfolding farTick_def farPlaying_def afterPlay_def p by (simp add: clockAt_fields)
  have "nextStepTime farTick =
        jsAdd (num (currentTime (exampleCtx\<lparr>currentTime := 2 ^ 51\<rparr>))) (num 0.05)"
    unfolding farTick_def farPlaying_def afterPlay_def p by (simp add: clockAt_fields)
  also have "currentTime (exampleCtx\<lparr>currentTime := 2 ^ 51\<rparr>) = 2 ^ 51" by simp
  finally show "nextStepTime farTick = Fin (2 ^ 51)" by (simp only: far_play_time)
qed

lemma scheduleLoop_far:
  assumes "scheduleLoop now n s = Some r"
  shows "\<not> (now = 2 ^ 51 + 1 / 2 \<and> currentSong s = Some (Song game) \<and>
            nextStepTime s = Fin (2 ^ 51))"
proof (rule scheduleLoop.raw_induct
    [where P = "\<lambda>now n s r. \<not> (now = 2 ^ 51 + 1 / 2 \<and> currentSong s = Some (Song game) \<and>
                               nextStepTime s = Fin (2 ^ 51))", OF _ assms])
  fix loop :: "real \<Rightarrow> nat \<Rightarrow> MusicEngine
                 \<Rightarrow> ((js_error \<times> MusicEngine) + nat \<times> MusicEngine) option"
  fix now n s r
  assume ih: "\<And>now n s r. loop now n s = Some r \<Longrightarrow>
                \<not> (now = 2 ^ 51 + 1 / 2 \<and> currentSong s = Some (Song game) \<and>
                   nextStepTime s = Fin (2 ^ 51))"
    and eq: "(if jsLess (nextStepTime s) (jsAdd (num now) (num LOOKAHEAD)) then
                (case scheduleStep (currentStep s) (nextStepTime s) s of
                   Inl e \<Rightarrow> Some (Inl e)
                 | Inr s1 \<Rightarrow>
                     (case advanceStep s1 of
                        Inl e \<Rightarrow> Some (Inl e)
                      | Inr s2 \<Rightarrow> loop now (Suc n) s2))
              else Some (Inr (n, s))) = Some r"
  show "\<not> (now = 2 ^ 51 + 1 / 2 \<and> currentSong s = Some (Song game) \<and>
           nextStepTime s = Fin (2 ^ 51))"
  proof
    assume inv: "now = 2 ^ 51 + 1 / 2 \<and> currentSong s = Some (Song game) \<and>
                 nextStepTime s = Fin (2 ^ 51)"
    then have now: "now = 2 ^ 51 + 1 / 2" and c: "currentSong s = Some (Song game)"
      and t: "nextStepTime s = Fin (2 ^ 51)" by simp_all
    have test: "jsLess (nextStepTime s) (jsAdd (num now) (num LOOKAHEAD))"
      unfolding t now far_window by simp
    have "(0::real) \<le> 2 ^ 51" by simp
    from scheduleStep_frame [OF c this, of "currentStep s"]
    obtain s1 where s1: "scheduleStep (currentStep s) (Fin (2 ^ 51)) s = Inr s1"
      and f1: "currentSong s1 = currentSong s" "nextStepTime s1 = nextStepTime s"
      by blast
    have c1: "currentSong s1 = Some (Song game)" "nextStepTime s1 = Fin (2 ^ 51)"
      using f1 c t by simp_all
    from advanceStep_game_time [OF c1 far_step]
    obtain s2 where s2: "advanceStep s1 = Inr s2" "currentSong s2 = Some (Song game)"
      "nextStepTime s2 = Fin (2 ^ 51)" by blast
    from eq test s1 s2(1) t have "loop now (Suc n) s2 = Some r" by simp
    from ih [OF this] now s2(2,3) show False by simp
  qed
qed

lemma farTick_never_returns: "schedule farTick = None"
proof -
  have "schedule farTick = scheduleLoop (2 ^ 51 + 1 / 2) 0 farTick"
    by (simp add: schedule_def farTick_fields)
  moreover have "scheduleLoop (2 ^ 51 + 1 / 2) 0 farTick \<noteq> Some r" for r
    using scheduleLoop_far [of "2 ^ 51 + 1 / 2" 0 farTick r] farTick_fields(3,4) by blast
  then have "scheduleLoop (2 ^ 51 + 1 / 2) 0 farTick = None"
    by (cases "scheduleLoop (2 ^ 51 + 1 / 2) 0 farTick") blast+
  ultimately show ?thesis by (simp only:)
qed

text \<open>
  C8 as stated fails in both of its parts. The bound fails when the timer is late: the
  window was full at the first call, at 25 ms, the next call comes at 10.025 s and
  schedules 50 steps of the 150 bpm song, more than
  \<open>\<lceil>LOOKAHEAD / (60 / 150 / 2)\<rceil> + 1 = 2\<close>. The loop does not end when the audio clock is so
  far on that a step duration is lost in the rounding: after \<open>play('game')\<close> at
  \<open>2 ^ 51\<close> seconds, the call half a second later never returns.
\<close>

theorem schedule_tick_counterexample:
  "isPlaying lateTick \<and> currentSong lateTick = Some (Song game) \<and> tempo game = 150 \<and>
   nextStepTime lateTick = Fin (1 / 2 ^ 2) \<and>
   \<not> jsLess (nextStepTime lateTick) (jsAdd (num 0.025) (num LOOKAHEAD)) \<and>
   stepsScheduled lateTick = Some 50 \<and>
   \<not> (50 \<le> nat \<lceil>LOOKAHEAD / (60 / tempo game / 2)\<rceil> + 1) \<and>
   isPlaying farTick \<and> currentSong farTick = Some (Song game) \<and>
   nextStepTime farTick = Fin (2 ^ 51) \<and>
   schedule farTick = None"
proof -
  have p: "isPlaying lateTick" and c: "currentSong lateTick = Some (Song game)"
    and t: "nextStepTime lateTick = Fin (1 / 2 ^ 2)"
    by (simp_all add: lateTick_def clockAt_fields firstTick_fields)
  have w: "\<not> jsLess (nextStepTime lateTick) (jsAdd (num 0.025) (num LOOKAHEAD))"
    unfolding t by (rule window_full_firstTick)
  have n: "\<not> (50 \<le> nat \<lceil>LOOKAHEAD / (60 / tempo game / 2)\<rceil> + 1)" "tempo game = 150"
    by (simp_all add: LOOKAHEAD_def song_tempos_raw)
  show ?thesis
    using p c t w n lateTick_steps farTick_fields(2,3,4) farTick_never_returns by blast
qed

subsection \<open>Where the step index stays inside the loop\<close>

text \<open>
  Apart from the call of \<open>play\<close> that throws, the operations keep the invariant:
  \<open>stopInternal\<close>, \<open>advanceStep\<close>, a step lookup, a scheduler call that returns, and every
  call of \<open>play\<close> that returns. Under it the reads of the step arrays are inside the
  arrays.
\<close>

lemma stepInv_cong:
  "currentSong s1 = currentSong s \<Longrightarrow> currentStep s1 = currentStep s \<Longrightarrow> stepInv s1 = stepInv s"
  by (simp add: stepInv_def split: option.splits song_value.splits)

lemma stepInv_new: "stepInv newMusicEngine"
  by (simp add: stepInv_def newMusicEngine_def)

lemma stepInv_stopInternal: "stepInv (stopInternal s)"
  by (simp add: stepInv_def stopInternal_def destroyOscillators_def)

lemma stepInv_advanceStep:
  assumes "stepInv s"
  shows "\<exists>s'. advanceStep s = Inr s' \<and> stepInv s'"
proof (cases "currentSong s")
  case None
  then show ?thesis using assms by (simp add: advanceStep_def)
next
  case (Some v)
  show ?thesis
  proof (cases v)
    case Inherited
    with Some assms show ?thesis by (simp add: stepInv_def)
  next
    case (Song song)
    with Some have c: "currentSong s = Some (Song song)" by simp
    from assms c have "0 < length (pulse1 song)"
      by (cases "pulse1 song") (simp_all add: stepInv_def)
    then show ?thesis
      unfolding advanceStep_song [OF c] using c by (simp add: stepInv_def)
  qed
qed

lemma stepInv_scheduleStep:
  assumes "scheduleStep st t s = Inr s1" and "stepInv s"
  shows "stepInv s1"
proof -
  have "currentSong s1 = currentSong s \<and> currentStep s1 = currentStep s"
    using assms(1)
    by (auto simp: scheduleStep_def Let_def scheduleNoise_fields
        split: option.splits song_value.splits number.splits if_splits prod.splits)
  then show ?thesis using stepInv_cong [of s1 s] assms(2) by simp
qed

lemma stepInv_scheduleLoop:
  assumes "scheduleLoop now n s = Some r"
  shows "stepInv s \<longrightarrow> (\<forall>m s'. r = Inr (m, s') \<longrightarrow> stepInv s')"
proof (rule scheduleLoop.raw_induct
    [where P = "\<lambda>now n s r. stepInv s \<longrightarrow> (\<forall>m s'. r = Inr (m, s') \<longrightarrow> stepInv s')", OF _ assms])
  fix loop :: "real \<Rightarrow> nat \<Rightarrow> MusicEngine
                 \<Rightarrow> ((js_error \<times> MusicEngine) + nat \<times> MusicEngine) option"
  fix now n s r
  assume ih: "\<And>now n s r. loop now n s = Some r \<Longrightarrow>
                stepInv s \<longrightarrow> (\<forall>m s'. r = Inr (m, s') \<longrightarrow> stepInv s')"
    and eq: "(if jsLess (nextStepTime s) (jsAdd (num now) (num LOOKAHEAD)) then
                (case scheduleStep (currentStep s) (nextStepTime s) s of
                   Inl e \<Rightarrow> Some (Inl e)
                 | Inr s1 \<Rightarrow>
                     (case advanceStep s1 of
                        Inl e \<Rightarrow> Some (Inl e)
                      | Inr s2 \<Rightarrow> loop now (Suc n) s2))
              else Some (Inr (n, s))) = Some r"
  show "stepInv s \<longrightarrow> (\<forall>m s'. r = Inr (m, s') \<longrightarrow> stepInv s')"
  proof (cases "jsLess (nextStepTime s) (jsAdd (num now) (num LOOKAHEAD))")
    case False
    with eq show ?thesis by auto
  next
    case True
    show ?thesis
    proof (cases "scheduleStep (currentStep s) (nextStepTime s) s")
      case (Inl e)
      with True eq show ?thesis by auto
    next
      case (Inr s1)
      show ?thesis
      proof
        assume "stepInv s"
        from stepInv_advanceStep [OF stepInv_scheduleStep [OF Inr this]]
        obtain s2 where s2: "advanceStep s1 = Inr s2" "stepInv s2" by blast
        with True Inr eq have "loop now (Suc n) s2 = Some r" by simp
        from ih [OF this] s2(2)
        show "\<forall>m s'. r = Inr (m, s') \<longrightarrow> stepInv s'" by simp
      qed
    qed
  qed
qed

lemma stepInv_schedule:
  assumes "schedule s = Some (Inr (n, s'))" and "stepInv s"
  shows "stepInv s'"
proof (cases "\<exists>ctx. audioCtx s = Some ctx \<and> isPlaying s \<and> currentSong s \<noteq> None")
  case True
  then obtain ctx where "audioCtx s = Some ctx" "isPlaying s" "currentSong s \<noteq> None" by blast
  with assms(1) have "scheduleLoop (currentTime ctx) 0 s = Some (Inr (n, s'))"
    by (simp add: schedule_def)
  from stepInv_scheduleLoop [OF this] assms(2) show ?thesis by blast
next
  case False
  with assms(1) have "s' = s" by (auto simp: schedule_def split: option.splits if_splits)
  with assms(2) show ?thesis by simp
qed

lemma stepInv_play:
  assumes "play trackName s = Inr s'" and "stepInv s"
  shows "stepInv s'"
proof (cases "audioCtx s = None \<or> masterGain s = None")
  case True
  then have "play trackName s = Inr s" by (auto simp: play_def split: option.splits)
  with assms show ?thesis by simp
next
  case False
  then obtain ctx mg where ready: "audioCtx s = Some ctx" "masterGain s = Some mg" by auto
  show ?thesis
  proof (cases "SONGS_get trackName")
    case None
    from play_undefined_name [OF this, of s] ready assms(1)
    have "s' = s\<lparr>console := console s @
             [''MusicEngine: Unknown track '' @ [CHR 0x22] @ trackName @ [CHR 0x22]]\<rparr>"
      by simp
    then have "currentSong s' = currentSong s" "currentStep s' = currentStep s" by simp_all
    from stepInv_cong [OF this] assms(2) show ?thesis by simp
  next
    case (Some v)
    show ?thesis
    proof (cases "isPlaying s \<and> currentTrackName s = trackName")
      case True
      with ready assms(1) Some have "s' = s" by (simp add: play_def)
      with assms(2) show ?thesis by simp
    next
      case False
      show ?thesis
      proof (cases v)
        case Inherited
        with Some have "SONGS_get trackName = Some Inherited" by simp
        from play_inherited [OF ready this False] assms(1) show ?thesis by simp
      next
        case (Song song)
        with Some have "SONGS trackName = Some song"
          by (cases "SONGS trackName") (simp_all add: SONGS_get_def split: if_splits)
        note song = this
        from play_starts_session [OF ready song False] assms(1)
        have "playingTrack trackName s'" "currentStep s' = 0" by auto
        with song have "currentSong s' = Some (Song song)" by (simp add: playingTrack_def)
        with SONGS_nonempty [OF song] \<open>currentStep s' = 0\<close> show ?thesis
          by (simp add: stepInv_def)
      qed
    qed
  qed
qed

lemma stepValue_in_bounds:
  assumes "step < len" "len = length xs"
  shows "stepValue xs step len = Some (xs ! step)"
  using assms by (cases xs) (simp_all add: stepValue_def arrayGet_def)

end
